(* ===== verification/Prelude.thy ===== *)
theory Prelude
  imports Main "HOL-Library.AList" "HOL-Library.Char_ord" "HOL-Library.List_Lexorder"
begin

text \<open>
  Shared vocabulary of the development: results with errors as values, the JavaScript \<open>Map\<close> and
  plain-object dictionaries the sources use, and the generic list lemmas the component
  theories rest on.

  A JavaScript \<open>Map\<close> keeps its insertion order: \<open>set\<close> on a present key replaces the value in
  place, \<open>set\<close> on a fresh key appends, \<open>delete\<close> removes the key. This is exactly the association
  list library of HOL (\<^const>\<open>AList.update\<close>, \<^const>\<open>AList.delete\<close>, \<^const>\<open>map_of\<close>), so a \<open>Map\<close> is
  an association list whose keys are distinct (\<open>js_wf\<close> below).
\<close>

section \<open>Results\<close>

type_synonym ('e, 'a) result = "'e + 'a"

text \<open>Running an asynchronous step that may throw: the continuation runs on success only.\<close>

definition rbind :: "('e, 'a) result \<Rightarrow> ('a \<Rightarrow> ('e, 'b) result) \<Rightarrow> ('e, 'b) result" where
  "rbind m f = (case m of Inl e \<Rightarrow> Inl e | Inr a \<Rightarrow> f a)"

definition ok :: "('e, 'a) result \<Rightarrow> bool" where
  "ok m = (case m of Inl _ \<Rightarrow> False | Inr _ \<Rightarrow> True)"

lemma rbind_simps [simp]:
  "rbind (Inl e) f = Inl e"
  "rbind (Inr a) f = f a"
  by (simp_all add: rbind_def)

lemma rbind_eq_Inr: "rbind m f = Inr b \<longleftrightarrow> (\<exists>a. m = Inr a \<and> f a = Inr b)"
  by (cases m) auto

lemma ok_simps [simp]: "ok (Inr a)" "\<not> ok (Inl e)"
  by (simp_all add: ok_def)

section \<open>JavaScript maps\<close>

type_synonym ('k, 'v) jsmap = "('k \<times> 'v) list"

abbreviation js_get :: "('k, 'v) jsmap \<Rightarrow> 'k \<Rightarrow> 'v option" where
  "js_get \<equiv> map_of"

abbreviation js_set :: "'k \<Rightarrow> 'v \<Rightarrow> ('k, 'v) jsmap \<Rightarrow> ('k, 'v) jsmap" where
  "js_set \<equiv> AList.update"

abbreviation js_delete :: "'k \<Rightarrow> ('k, 'v) jsmap \<Rightarrow> ('k, 'v) jsmap" where
  "js_delete \<equiv> AList.delete"

abbreviation js_keys :: "('k, 'v) jsmap \<Rightarrow> 'k list" where
  "js_keys m \<equiv> map fst m"

abbreviation js_values :: "('k, 'v) jsmap \<Rightarrow> 'v list" where
  "js_values m \<equiv> map snd m"

definition js_has :: "('k, 'v) jsmap \<Rightarrow> 'k \<Rightarrow> bool" where
  "js_has m k \<longleftrightarrow> k \<in> set (js_keys m)"

definition js_wf :: "('k, 'v) jsmap \<Rightarrow> bool" where
  "js_wf m \<longleftrightarrow> distinct (js_keys m)"

named_theorems jsmap_simps \<open>rewrites for lookups in updated JavaScript maps\<close>

lemma js_get_set [jsmap_simps]:
  "js_get (js_set k v m) k' = (if k' = k then Some v else js_get m k')"
  by (simp add: update_conv')

lemma js_get_delete [jsmap_simps]:
  "js_get (js_delete k m) k' = (if k' = k then None else js_get m k')"
  by (simp add: delete_conv')

lemma js_has_get [jsmap_simps]: "js_has m k \<longleftrightarrow> js_get m k \<noteq> None"
  by (simp add: js_has_def map_of_eq_None_iff)

lemma js_has_set [simp]: "js_has (js_set k v m) k' \<longleftrightarrow> k' = k \<or> js_has m k'"
  by (simp add: js_has_get js_get_set)

lemma js_has_delete [simp]: "js_has (js_delete k m) k' \<longleftrightarrow> k' \<noteq> k \<and> js_has m k'"
  by (simp add: js_has_get js_get_delete)

lemma js_wf_nil [simp, intro]: "js_wf []"
  by (simp add: js_wf_def)

lemma js_wf_set [simp, intro]: "js_wf m \<Longrightarrow> js_wf (js_set k v m)"
  by (simp add: js_wf_def distinct_update)

lemma js_wf_delete [simp, intro]: "js_wf m \<Longrightarrow> js_wf (js_delete k m)"
  by (simp add: js_wf_def distinct_delete)

lemma js_wf_filter [intro]: "js_wf m \<Longrightarrow> js_wf (filter P m)"
  by (simp add: js_wf_def distinct_map_filter)

lemma js_get_mem: "js_get m k = Some v \<Longrightarrow> (k, v) \<in> set m"
  by (rule map_of_SomeD)

lemma js_mem_get: "js_wf m \<Longrightarrow> (k, v) \<in> set m \<Longrightarrow> js_get m k = Some v"
  by (simp add: js_wf_def)

lemma js_mem_iff: "js_wf m \<Longrightarrow> (k, v) \<in> set m \<longleftrightarrow> js_get m k = Some v"
  by (auto dest: js_get_mem js_mem_get)

lemma js_get_filter:
  assumes "js_wf m"
  shows "js_get (filter P m) k = (case js_get m k of None \<Rightarrow> None
           | Some v \<Rightarrow> if P (k, v) then Some v else None)"
  using assms
proof (induction m)
  case (Cons a m)
  obtain k' v' where a: "a = (k', v')" by (cases a)
  from Cons.prems a have fresh: "k' \<notin> fst ` set m" and wf: "js_wf m"
    by (simp_all add: js_wf_def)
  from fresh have none: "js_get m k' = None" by (simp add: map_of_eq_None_iff)
  with Cons.IH [OF wf] a show ?case by (auto split: option.splits)
qed simp

lemma js_set_fresh: "\<not> js_has m k \<Longrightarrow> js_set k v m = m @ [(k, v)]"
  by (induction m) (auto simp: js_has_def)

lemma js_delete_filter: "js_delete k m = filter (\<lambda>p. fst p \<noteq> k) m"
  by (auto simp: AList.delete_eq intro!: filter_cong)

lemma js_set_mem:
  "x \<in> set (js_set k v m) \<Longrightarrow> x = (k, v) \<or> x \<in> set m"
  by (induction m) (auto split: if_splits)

section \<open>Folding a fallible step over a list\<close>

text \<open>A loop whose body may throw: the first error ends it.\<close>

fun rfold :: "('a \<Rightarrow> 's \<Rightarrow> ('e, 's) result) \<Rightarrow> 'a list \<Rightarrow> 's \<Rightarrow> ('e, 's) result" where
  "rfold f [] s = Inr s"
| "rfold f (x # xs) s = rbind (f x s) (rfold f xs)"

lemma rfold_append: "rfold f (xs @ ys) s = rbind (rfold f xs s) (rfold f ys)"
  by (induction xs arbitrary: s) (auto simp: rbind_def split: sum.splits)

lemma rfold_invariant:
  assumes "rfold f xs s = Inr t" and "P s"
    and "\<And>x s t. x \<in> set xs \<Longrightarrow> P s \<Longrightarrow> f x s = Inr t \<Longrightarrow> P t"
  shows "P t"
  using assms
proof (induction xs arbitrary: s)
  case (Cons x xs)
  then obtain u where "f x s = Inr u" and "rfold f xs u = Inr t"
    by (auto simp: rbind_eq_Inr)
  moreover have "P u" using Cons.prems(2,3) \<open>f x s = Inr u\<close> by auto
  ultimately show ?case using Cons.IH Cons.prems(3) by (meson list.set_intros(2))
qed simp

section \<open>Numbers\<close>

text \<open>\<open>Number.MAX_SAFE_INTEGER\<close> and \<open>Number.isSafeInteger\<close> on integral values.\<close>

definition max_safe_integer :: int where
  "max_safe_integer = 9007199254740991"

definition isSafeInteger :: "int \<Rightarrow> bool" where
  "isSafeInteger n \<longleftrightarrow> \<bar>n\<bar> \<le> max_safe_integer"

end
