(* ===== verification/Canonical_Json.thy ===== *)
theory Canonical_Json
  imports Prelude "HOL-Library.Multiset"
begin

text \<open>
  Model of \<open>packages/protocol/src/canonical-json.ts\<close>, the deterministic serialization that every
  signature, command fingerprint and delivery identity of the program is computed over.

  A JavaScript value is a \<open>json\<close> tree; an object is the list of its own properties in insertion
  order. \<open>JUndefined\<close> and \<open>JNonFinite\<close> are the two values a finite tree can hold that
  \<open>canonicalJson\<close> refuses. Numbers are integers: the protocol schemas only accept safe integers for
  the fields the gateway reads, and \<open>JSON.stringify\<close> prints those in plain decimal. Code units are
  HOL characters. A finite tree is never cyclic, sparse or of a foreign prototype, so those three
  refusals have no counterpart.

  Main result: two encodable values have the same canonical text exactly when they are equal up to
  the order of object keys.
\<close>

section \<open>Values\<close>

datatype json =
    JNull
  | JBool bool
  | JNum int
  | JNonFinite
  | JUndefined
  | JStr string
  | JArr "json list"
  | JObj "(string \<times> json) list"

text \<open>Objects have distinct property names, at every depth.\<close>

fun json_wf :: "json \<Rightarrow> bool" where
  "json_wf (JArr xs) = (\<forall>x\<in>set xs. json_wf x)"
| "json_wf (JObj kvs) = (distinct (map fst kvs) \<and> (\<forall>(k, v)\<in>set kvs. json_wf v))"
| "json_wf _ = True"

text \<open>Values \<open>canonicalJson\<close> accepts.\<close>

fun encodable :: "json \<Rightarrow> bool" where
  "encodable (JArr xs) = (\<forall>x\<in>set xs. encodable x)"
| "encodable (JObj kvs) = (\<forall>(k, v)\<in>set kvs. encodable v)"
| "encodable JNonFinite = False"
| "encodable JUndefined = False"
| "encodable _ = True"

section \<open>\<open>JSON.stringify\<close> on strings and integers\<close>

definition hex_digit :: "nat \<Rightarrow> char" where
  "hex_digit n = ''0123456789abcdef'' ! n"

definition escape_char :: "char \<Rightarrow> string" where
  "escape_char c =
     (if c = CHR 0x22 then [CHR 0x5C, CHR 0x22]
      else if c = CHR 0x5C then [CHR 0x5C, CHR 0x5C]
      else if c = CHR 0x08 then [CHR 0x5C, CHR ''b'']
      else if c = CHR 0x09 then [CHR 0x5C, CHR ''t'']
      else if c = CHR 0x0A then [CHR 0x5C, CHR ''n'']
      else if c = CHR 0x0C then [CHR 0x5C, CHR ''f'']
      else if c = CHR 0x0D then [CHR 0x5C, CHR ''r'']
      else if of_char c < (32 :: nat)
        then [CHR 0x5C, CHR ''u'', CHR ''0'', CHR ''0'',
              hex_digit (of_char c div 16), hex_digit (of_char c mod 16)]
      else [c])"

definition stringify_string :: "string \<Rightarrow> string" where
  "stringify_string s = CHR 0x22 # concat (map escape_char s) @ [CHR 0x22]"

definition digit_char :: "nat \<Rightarrow> char" where
  "digit_char n = char_of (48 + n)"

fun show_nat :: "nat \<Rightarrow> string" where
  "show_nat n = (if n < 10 then [digit_char n] else show_nat (n div 10) @ [digit_char (n mod 10)])"

declare show_nat.simps [simp del]

definition stringify_int :: "int \<Rightarrow> string" where
  "stringify_int n = (if n < 0 then CHR ''-'' # show_nat (nat (- n)) else show_nat (nat n))"

section \<open>\<open>canonicalJson\<close>\<close>

fun join_comma :: "string list \<Rightarrow> string" where
  "join_comma [] = []"
| "join_comma [x] = x"
| "join_comma (x # y # ys) = x @ '','' @ join_comma (y # ys)"

text \<open>The size of a property value is below the size of its object, also after sorting by name.\<close>

lemma size_json_member:
  assumes "(k, v) \<in> set kvs"
  shows "size v < Suc (size_list (size_prod (\<lambda>_. 0) size) kvs)"
proof -
  from assms have "size_prod (\<lambda>_. 0) size (k, v) \<le> size_list (size_prod (\<lambda>_. 0) size) kvs"
    by (rule size_list_estimation') simp
  then show ?thesis by simp
qed

function serialize :: "json \<Rightarrow> string option" where
  "serialize JNull = Some ''null''"
| "serialize (JBool b) = Some (if b then ''true'' else ''false'')"
| "serialize (JStr s) = Some (stringify_string s)"
| "serialize (JNum n) = Some (stringify_int n)"
| "serialize JNonFinite = None"
| "serialize JUndefined = None"
| "serialize (JArr xs) =
     map_option (\<lambda>es. ''['' @ join_comma es @ '']'') (those (map serialize xs))"
| "serialize (JObj kvs) =
     map_option (\<lambda>es. ''{'' @ join_comma es @ ''}'')
       (those (map (\<lambda>(k, v). map_option (\<lambda>s. stringify_string k @ '':'' @ s) (serialize v))
          (sort_key fst kvs)))"
  by pat_completeness auto
termination
  by (relation "measure size") (auto simp: size_json_member size_list_estimation less_Suc_eq_le
        intro: size_list_estimation')

definition canonicalJson :: "json \<Rightarrow> string option" where
  "canonicalJson v = serialize v"

text \<open>\<open>canonicalJsonBytes\<close>: \<open>TextEncoder\<close> yields the UTF-8 bytes of the text.\<close>

definition utf8_char :: "char \<Rightarrow> nat list" where
  "utf8_char c = (let n = of_char c in if n < 128 then [n] else [192 + n div 64, 128 + n mod 64])"

definition canonicalJsonBytes :: "json \<Rightarrow> nat list option" where
  "canonicalJsonBytes v = map_option (\<lambda>s. concat (map utf8_char s)) (canonicalJson v)"

section \<open>The text of a value determines the value\<close>

text \<open>
  Values in normal form have the keys of every object sorted. \<open>render\<close> is the serializer without
  the sorting and the refusals; it agrees with \<open>serialize\<close> through normalization.
\<close>

function json_normal :: "json \<Rightarrow> json" where
  "json_normal (JArr xs) = JArr (map json_normal xs)"
| "json_normal (JObj kvs) = JObj (map (\<lambda>(k, v). (k, json_normal v)) (sort_key fst kvs))"
| "json_normal JNull = JNull"
| "json_normal (JBool b) = JBool b"
| "json_normal (JNum n) = JNum n"
| "json_normal JNonFinite = JNonFinite"
| "json_normal JUndefined = JUndefined"
| "json_normal (JStr s) = JStr s"
  by pat_completeness auto
termination
  by (relation "measure size") (auto simp: size_json_member size_list_estimation less_Suc_eq_le
        intro: size_list_estimation')

fun render :: "json \<Rightarrow> string"
  and render_items :: "json list \<Rightarrow> string"
  and render_members :: "(string \<times> json) list \<Rightarrow> string" where
  "render JNull = ''null''"
| "render (JBool b) = (if b then ''true'' else ''false'')"
| "render (JStr s) = stringify_string s"
| "render (JNum n) = stringify_int n"
| "render JNonFinite = []"
| "render JUndefined = []"
| "render (JArr xs) = CHR ''['' # render_items xs"
| "render (JObj kvs) = CHR ''{'' # render_members kvs"
| "render_items [] = '']''"
| "render_items [x] = render x @ '']''"
| "render_items (x # y # ys) = render x @ CHR '','' # render_items (y # ys)"
| "render_members [] = ''}''"
| "render_members [(k, v)] = stringify_string k @ CHR '':'' # render v @ ''}''"
| "render_members ((k, v) # p # ps) =
     stringify_string k @ CHR '':'' # render v @ CHR '','' # render_members (p # ps)"

lemma those_map_Some:
  "(\<And>x. x \<in> set xs \<Longrightarrow> f x = Some (g x)) \<Longrightarrow> those (map f xs) = Some (map g xs)"
  by (induction xs) auto

lemma those_None: "None \<in> set ys \<Longrightarrow> those ys = None"
  by (induction ys) (auto split: option.splits)

lemma join_render_items: "join_comma (map render xs) @ '']'' = render_items xs"
  by (induction xs rule: induct_list012) auto

lemma join_render_members:
  "join_comma (map (\<lambda>(k, v). stringify_string k @ '':'' @ render v) ps) @ ''}'' = render_members ps"
  by (induction ps rule: induct_list012) auto

lemma serialize_render: "encodable v \<Longrightarrow> serialize v = Some (render (json_normal v))"
proof (induction v rule: serialize.induct)
  case (7 xs)
  then have "those (map serialize xs) = Some (map (\<lambda>x. render (json_normal x)) xs)"
    by (intro those_map_Some) auto
  then show ?case
    using join_render_items [of "map json_normal xs"] by (simp add: comp_def)
next
  case (8 kvs)
  let ?s = "sort_key fst kvs"
  let ?f = "\<lambda>(k, v). map_option (\<lambda>s. stringify_string k @ '':'' @ s) (serialize v)"
  let ?g = "\<lambda>(k, v). stringify_string k @ '':'' @ render (json_normal v)"
  have "?f p = Some (?g p)" if "p \<in> set ?s" for p
    using 8 that by (cases p) auto
  then have "those (map ?f ?s) = Some (map ?g ?s)"
    by (rule those_map_Some)
  then show ?case
    using join_render_members [of "map (\<lambda>(k, v). (k, json_normal v)) ?s"]
    by (simp add: comp_def case_prod_unfold)
qed simp_all

lemma serialize_refuses: "\<not> encodable v \<Longrightarrow> serialize v = None"
proof (induction v rule: serialize.induct)
  case (7 xs)
  then have "None \<in> set (map serialize xs)" by force
  then show ?case by (simp add: those_None)
next
  case (8 kvs)
  then obtain k v where kv: "(k, v) \<in> set (sort_key fst kvs)" "\<not> encodable v" by auto
  with 8 have "serialize v = None" by auto
  with kv(1) have "None \<in> set (map (\<lambda>(k, v). map_option (\<lambda>s. stringify_string k @ '':'' @ s)
      (serialize v)) (sort_key fst kvs))" by force
  then show ?case by (simp only: serialize.simps those_None option.map)
qed simp_all

subsection \<open>Strings\<close>

lemma hex_digit_inj: "m < 16 \<Longrightarrow> n < 16 \<Longrightarrow> hex_digit m = hex_digit n \<Longrightarrow> m = n"
proof -
  have "distinct ''0123456789abcdef''" by simp
  then show "m < 16 \<Longrightarrow> n < 16 \<Longrightarrow> hex_digit m = hex_digit n \<Longrightarrow> m = n"
    unfolding hex_digit_def by (subst (asm) nth_eq_iff_index_eq) auto
qed

lemma escape_char_shape:
  "escape_char c = [c] \<and> c \<noteq> CHR 0x22 \<and> c \<noteq> CHR 0x5C
   \<or> (\<exists>e es. escape_char c = CHR 0x5C # e # es)"
  by (simp add: escape_char_def)

lemma escape_char_not_quote: "escape_char c @ x \<noteq> CHR 0x22 # y"
  using escape_char_shape [of c] by auto

lemma escape_char_control:
  assumes "of_char c < (32 :: nat)" "of_char d < (32 :: nat)"
    and "hex_digit (of_char c div 16) = hex_digit (of_char d div 16)"
    and "hex_digit (of_char c mod 16) = hex_digit (of_char d mod 16)"
  shows "c = d"
proof -
  have "of_char c div 16 = (of_char d div 16 :: nat)" "of_char c mod 16 = (of_char d mod 16 :: nat)"
    using assms by (auto intro!: hex_digit_inj)
  then have "of_char c = (of_char d :: nat)" by (metis div_mult_mod_eq)
  then show ?thesis by simp
qed

lemma escape_char_prefix: "escape_char c @ x = escape_char d @ y \<Longrightarrow> c = d \<and> x = y"
  unfolding escape_char_def
  by (auto split: if_splits dest: escape_char_control)

lemma escaped_prefix:
  "concat (map escape_char s) @ CHR 0x22 # x = concat (map escape_char t) @ CHR 0x22 # y
   \<Longrightarrow> s = t \<and> x = y"
proof (induction s arbitrary: t)
  case Nil
  then show ?case
    by (cases t) (use escape_char_not_quote in \<open>auto dest: sym\<close>)
next
  case (Cons c s)
  show ?case
  proof (cases t)
    case Nil
    with Cons.prems show ?thesis using escape_char_not_quote by auto
  next
    case (Cons d u)
    with Cons.prems have "escape_char c @ (concat (map escape_char s) @ CHR 0x22 # x) =
        escape_char d @ (concat (map escape_char u) @ CHR 0x22 # y)" by simp
    from escape_char_prefix [OF this] Cons.IH [of u] Cons show ?thesis by auto
  qed
qed

lemma stringify_string_prefix:
  assumes "stringify_string s @ x = stringify_string t @ y"
  shows "s = t \<and> x = y"
  by (rule escaped_prefix) (use assms in \<open>simp add: stringify_string_def\<close>)

subsection \<open>Integers\<close>

definition is_digit :: "char \<Rightarrow> bool" where
  "is_digit c \<longleftrightarrow> of_char c \<in> {48..57 :: nat}"

lemma of_char_digit_char: "n < 10 \<Longrightarrow> of_char (digit_char n) = (48 + n :: nat)"
  by (simp add: digit_char_def)

lemma show_nat_digits: "\<forall>c\<in>set (show_nat n). is_digit c"
proof (induction n rule: show_nat.induct)
  case (1 n)
  then show ?case
    by (subst show_nat.simps) (auto simp: is_digit_def of_char_digit_char)
qed

lemma show_nat_nonempty: "show_nat n \<noteq> []"
  by (subst show_nat.simps) simp

text \<open>Reading the digits back.\<close>

definition read_nat :: "string \<Rightarrow> nat" where
  "read_nat s = foldl (\<lambda>a c. 10 * a + (of_char c - 48)) 0 s"

lemma read_show_nat: "read_nat (show_nat n) = n"
proof (induction n rule: show_nat.induct)
  case (1 n)
  show ?case
  proof (cases "n < 10")
    case True
    then show ?thesis
      by (subst show_nat.simps) (simp add: read_nat_def of_char_digit_char)
  next
    case False
    with 1 have "read_nat (show_nat (n div 10)) = n div 10" by simp
    with False show ?thesis
      by (subst show_nat.simps) (simp add: read_nat_def of_char_digit_char)
  qed
qed

lemma digits_then_delimiter:
  assumes "xs @ s = ys @ t" "\<forall>c\<in>set xs. is_digit c" "\<forall>c\<in>set ys. is_digit c"
    and "s = [] \<or> \<not> is_digit (hd s)" "t = [] \<or> \<not> is_digit (hd t)"
  shows "xs = ys \<and> s = t"
proof -
  have "takeWhile is_digit (xs @ s) = xs" and "takeWhile is_digit (ys @ t) = ys"
    using assms(2-5) by (auto simp: takeWhile_append1 takeWhile_append2 takeWhile_eq_Nil_iff
        takeWhile_append)
  with assms(1) have "xs = ys" by simp
  with assms(1) show ?thesis by simp
qed

text \<open>What may follow a value inside a larger text: nothing, a comma or a closing bracket.\<close>

definition delimited :: "string \<Rightarrow> bool" where
  "delimited s \<longleftrightarrow> s = [] \<or> hd s \<in> {CHR '','', CHR '']'', CHR ''}''}"

lemma delimited_not_digit: "delimited s \<Longrightarrow> s = [] \<or> \<not> is_digit (hd s)"
  by (auto simp: delimited_def is_digit_def)

lemma delimited_Cons [simp]:
  "delimited (c # s) \<longleftrightarrow> c = CHR '','' \<or> c = CHR '']'' \<or> c = CHR ''}''"
  by (simp add: delimited_def)

lemma show_nat_prefix:
  assumes "show_nat m @ s = show_nat n @ t" "delimited s" "delimited t"
  shows "m = n \<and> s = t"
proof -
  have "show_nat m = show_nat n \<and> s = t"
    by (rule digits_then_delimiter [OF assms(1) show_nat_digits show_nat_digits])
      (use assms(2,3) delimited_not_digit in blast)+
  then show ?thesis by (metis read_show_nat)
qed

lemma show_nat_hd: "\<exists>c cs. show_nat n = c # cs \<and> is_digit c"
  using show_nat_nonempty [of n] show_nat_digits [of n] by (cases "show_nat n") auto

lemma stringify_int_prefix:
  assumes eq: "stringify_int m @ s = stringify_int n @ t" and "delimited s" "delimited t"
  shows "m = n \<and> s = t"
proof -
  have minus: "\<not> is_digit CHR ''-''" by (simp add: is_digit_def)
  obtain c cs where c: "show_nat (nat m) = c # cs" "is_digit c" using show_nat_hd by blast
  obtain d ds where d: "show_nat (nat n) = d # ds" "is_digit d" using show_nat_hd by blast
  show ?thesis
  proof (cases "m < 0"; cases "n < 0")
    assume neg: "m < 0" "n < 0"
    with eq have "show_nat (nat (- m)) @ s = show_nat (nat (- n)) @ t"
      by (simp add: stringify_int_def)
    from show_nat_prefix [OF this assms(2,3)] neg show ?thesis by auto
  next
    assume pos: "\<not> m < 0" "\<not> n < 0"
    with eq have "show_nat (nat m) @ s = show_nat (nat n) @ t"
      by (simp add: stringify_int_def)
    from show_nat_prefix [OF this assms(2,3)] pos show ?thesis by auto
  next
    assume "m < 0" "\<not> n < 0"
    with eq d minus show ?thesis by (auto simp: stringify_int_def)
  next
    assume "\<not> m < 0" "n < 0"
    with eq c minus show ?thesis by (auto simp: stringify_int_def)
  qed
qed

subsection \<open>Values\<close>

text \<open>The first character of a text tells which kind of value it is.\<close>

fun lead :: "json \<Rightarrow> char \<Rightarrow> bool" where
  "lead JNull c = (c = CHR ''n'')"
| "lead (JBool b) c = (c = (if b then CHR ''t'' else CHR ''f''))"
| "lead (JStr _) c = (c = CHR 0x22)"
| "lead (JNum _) c = (is_digit c \<or> c = CHR ''-'')"
| "lead (JArr _) c = (c = CHR ''['')"
| "lead (JObj _) c = (c = CHR ''{'')"
| "lead _ c = False"

lemma render_lead: "encodable v \<Longrightarrow> \<exists>c cs. render v = c # cs \<and> lead v c"
  by (cases v) (auto simp: stringify_string_def stringify_int_def, metis show_nat_hd)

lemma lead_not_delimiter: "lead v c \<Longrightarrow> c \<notin> {CHR '','', CHR '']'', CHR ''}''}"
  by (cases v) (auto simp: is_digit_def)

lemma lead_kind:
  assumes "lead v c" "lead w c"
  shows "v = w \<and> (v = JNull \<or> (\<exists>b. v = JBool b)) \<or> (\<exists>m n. v = JNum m \<and> w = JNum n)
       \<or> (\<exists>m n. v = JStr m \<and> w = JStr n) \<or> (\<exists>m n. v = JArr m \<and> w = JArr n)
       \<or> (\<exists>m n. v = JObj m \<and> w = JObj n)"
  using assms by (cases v; cases w) (auto simp: is_digit_def split: if_splits)

text \<open>
  No text of a value, of an item list or of a member list is a proper prefix of another one, so a
  text followed by a delimiter can be cut in one way only.
\<close>

definition prefix_inj :: "json \<Rightarrow> bool" where
  "prefix_inj v \<longleftrightarrow> (\<forall>w s t. encodable v \<longrightarrow> encodable w \<longrightarrow> delimited s \<longrightarrow> delimited t \<longrightarrow>
     render v @ s = render w @ t \<longrightarrow> v = w \<and> s = t)"

lemma prefix_injI:
  "(\<And>w s t. \<lbrakk>encodable v; encodable w; delimited s; delimited t;
    render v @ s = render w @ t\<rbrakk> \<Longrightarrow> v = w \<and> s = t) \<Longrightarrow> prefix_inj v"
  by (simp add: prefix_inj_def)

lemma prefix_injD:
  "\<lbrakk>prefix_inj v; encodable v; encodable w; delimited s; delimited t;
    render v @ s = render w @ t\<rbrakk> \<Longrightarrow> v = w \<and> s = t"
  by (simp add: prefix_inj_def)

lemma render_items_lead: "encodable x \<Longrightarrow> \<exists>c cs. render_items (x # xs) = c # cs \<and> lead x c"
  using render_lead [of x] by (cases xs) auto

lemma render_items_prefix:
  assumes "\<And>x. x \<in> set xs \<Longrightarrow> prefix_inj x"
    and "render_items xs @ s = render_items ys @ t"
    and "\<forall>x\<in>set xs. encodable x" and "\<forall>y\<in>set ys. encodable y"
  shows "xs = ys \<and> s = t"
  using assms
proof (induction xs arbitrary: ys)
  case Nil
  then show ?case
  proof (cases ys)
    case (Cons y ys')
    with Nil.prems render_items_lead [of y ys'] obtain c cs
      where "render_items ys = c # cs" "lead y c" by auto
    with Nil.prems(2) lead_not_delimiter [of y c] show ?thesis by auto
  qed simp
next
  case (Cons x xs)
  show ?case
  proof (cases ys)
    case Nil
    from Cons.prems render_items_lead [of x xs] obtain c cs
      where "render_items (x # xs) = c # cs" "lead x c" by auto
    with Nil Cons.prems(2) lead_not_delimiter [of x c] show ?thesis by auto
  next
    case ys: (Cons y ys')
    define sx where "sx = (if xs = [] then CHR '']'' # s else CHR '','' # render_items xs @ s)"
    define ty where "ty = (if ys' = [] then CHR '']'' # t else CHR '','' # render_items ys' @ t)"
    have "render_items (x # xs) @ s = render x @ sx" by (cases xs) (auto simp: sx_def)
    moreover have "render_items (y # ys') @ t = render y @ ty" by (cases ys') (auto simp: ty_def)
    ultimately have "render x @ sx = render y @ ty" using Cons.prems(2) ys by simp
    moreover have "delimited sx" "delimited ty" by (auto simp: sx_def ty_def)
    ultimately have "x = y \<and> sx = ty"
      by (intro prefix_injD [OF Cons.prems(1)]) (use Cons.prems(3,4) ys in auto)
    moreover have "xs = ys' \<and> s = t" if "sx = ty"
      using that Cons.IH [of ys'] Cons.prems(1,3,4) ys
      by (auto simp: sx_def ty_def split: if_splits)
    ultimately show ?thesis using ys by simp
  qed
qed

lemma render_members_prefix:
  assumes "\<And>k v. (k, v) \<in> set ps \<Longrightarrow> prefix_inj v"
    and "render_members ps @ s = render_members qs @ t"
    and "\<forall>(k, v)\<in>set ps. encodable v" and "\<forall>(k, v)\<in>set qs. encodable v"
  shows "ps = qs \<and> s = t"
  using assms
proof (induction ps arbitrary: qs)
  case Nil
  then show ?case
  proof (cases qs)
    case (Cons q qs')
    with Nil.prems(2) show ?thesis by (cases q; cases qs') (auto simp: stringify_string_def)
  qed simp
next
  case (Cons p ps)
  obtain k v where p: "p = (k, v)" by (cases p)
  show ?case
  proof (cases qs)
    case Nil
    with Cons.prems(2) p show ?thesis by (cases ps) (auto simp: stringify_string_def)
  next
    case qs: (Cons q qs')
    obtain l w where q: "q = (l, w)" by (cases q)
    define sx where "sx = (if ps = [] then CHR ''}'' # s else CHR '','' # render_members ps @ s)"
    define ty where "ty = (if qs' = [] then CHR ''}'' # t else CHR '','' # render_members qs' @ t)"
    have "render_members (p # ps) @ s = stringify_string k @ CHR '':'' # render v @ sx"
      using p by (cases ps) (auto simp: sx_def)
    moreover have "render_members (q # qs') @ t = stringify_string l @ CHR '':'' # render w @ ty"
      using q by (cases qs') (auto simp: ty_def)
    ultimately have "stringify_string k @ (CHR '':'' # render v @ sx) =
        stringify_string l @ (CHR '':'' # render w @ ty)"
      using Cons.prems(2) qs by simp
    from stringify_string_prefix [OF this]
    have k: "k = l" and "render v @ sx = render w @ ty" by auto
    moreover have "delimited sx" "delimited ty" by (auto simp: sx_def ty_def)
    ultimately have "v = w \<and> sx = ty"
      by (intro prefix_injD [OF Cons.prems(1) [of k]]) (use Cons.prems(3,4) qs p q in auto)
    moreover have "ps = qs' \<and> s = t" if "sx = ty"
      using that Cons.IH [of qs'] Cons.prems(1,3,4) qs
      by (auto simp: sx_def ty_def split: if_splits)
    ultimately show ?thesis using qs p q k by simp
  qed
qed

lemma render_prefix: "prefix_inj v"
proof (induction v)
  case (JArr xs)
  then have IH: "\<And>x. x \<in> set xs \<Longrightarrow> prefix_inj x" by blast
  show ?case
  proof (rule prefix_injI)
    fix w s t
    assume a: "encodable (JArr xs)" "encodable w" "render (JArr xs) @ s = render w @ t"
    from render_lead [OF a(2)] a(3) have "lead w CHR ''[''" by auto
    then obtain ys where w: "w = JArr ys" using lead_kind [of "JArr xs" _ w] by auto
    with a(3) have "render_items xs @ s = render_items ys @ t" by simp
    from render_items_prefix [OF IH this] a w show "JArr xs = w \<and> s = t" by simp
  qed
next
  case (JObj ps)
  then have IH: "\<And>k v. (k, v) \<in> set ps \<Longrightarrow> prefix_inj v" by fastforce
  show ?case
  proof (rule prefix_injI)
    fix w s t
    assume a: "encodable (JObj ps)" "encodable w" "render (JObj ps) @ s = render w @ t"
    from render_lead [OF a(2)] a(3) have "lead w CHR ''{''" by auto
    then obtain qs where w: "w = JObj qs" using lead_kind [of "JObj ps" _ w] by auto
    with a(3) have "render_members ps @ s = render_members qs @ t" by simp
    from render_members_prefix [OF IH this] a w show "JObj ps = w \<and> s = t" by simp
  qed
next
  case (JNum n)
  show ?case
  proof (rule prefix_injI)
    fix w s t
    assume a: "encodable w" "delimited s" "delimited t" "render (JNum n) @ s = render w @ t"
    obtain c cs where c: "render (JNum n) = c # cs" "lead (JNum n) c"
      using render_lead [of "JNum n"] by auto
    moreover from render_lead [OF a(1)] a(4) c(1) have "lead w c" by auto
    ultimately obtain m where w: "w = JNum m" using lead_kind [of "JNum n" c w] by auto
    with a(4) stringify_int_prefix [of n s m t] a(2,3) show "JNum n = w \<and> s = t" by auto
  qed
next
  case (JStr x)
  show ?case
  proof (rule prefix_injI)
    fix w s t
    assume a: "encodable w" "render (JStr x) @ s = render w @ t"
    from render_lead [OF a(1)] a(2) have "lead w CHR 0x22" by (auto simp: stringify_string_def)
    then obtain y where w: "w = JStr y" using lead_kind [of "JStr x" _ w] by auto
    with a(2) stringify_string_prefix [of x s y t] show "JStr x = w \<and> s = t" by auto
  qed
next
  case JNull
  show ?case
  proof (rule prefix_injI)
    fix w s t
    assume a: "encodable w" "render JNull @ s = render w @ t"
    from render_lead [OF a(1)] a(2) have "lead w CHR ''n''" by auto
    then have "w = JNull" using lead_kind [of JNull _ w] by auto
    with a(2) show "JNull = w \<and> s = t" by simp
  qed
next
  case (JBool b)
  show ?case
  proof (rule prefix_injI)
    fix w s t
    assume a: "encodable w" "render (JBool b) @ s = render w @ t"
    obtain c cs where c: "render (JBool b) = c # cs" "lead (JBool b) c"
      using render_lead [of "JBool b"] by auto
    moreover from render_lead [OF a(1)] a(2) c(1) have "lead w c" by auto
    ultimately have "JBool b = w" using lead_kind [of "JBool b" c w] by auto
    with a(2) show "JBool b = w \<and> s = t" by auto
  qed
qed (simp_all add: prefix_inj_def)

lemma encodable_normalize: "encodable (json_normal v) = encodable v"
  by (induction v rule: json_normal.induct) auto

lemma serialize_eq_iff:
  assumes "encodable v" and "encodable w"
  shows "serialize v = serialize w \<longleftrightarrow> json_normal v = json_normal w"
proof
  assume "serialize v = serialize w"
  then have "render (json_normal v) @ [] = render (json_normal w) @ []"
    using assms by (simp add: serialize_render)
  then show "json_normal v = json_normal w"
    using prefix_injD [OF render_prefix, of "json_normal v" "json_normal w" "[]" "[]"] assms
    by (simp add: encodable_normalize delimited_def)
qed (use assms in \<open>simp add: serialize_render\<close>)

text \<open>
  C27: the canonical text identifies a value. Two values that \<open>canonicalJson\<close> accepts have the same
  text if and only if they are equal once the keys of every object are put in order: a signature or
  fingerprint over the text commits to the value and to nothing else.
\<close>

theorem canonicalJson_eq_iff:
  assumes "encodable v" and "encodable w"
  shows "canonicalJson v = canonicalJson w \<longleftrightarrow> json_normal v = json_normal w"
  unfolding canonicalJson_def by (rule serialize_eq_iff [OF assms])

theorem canonicalJson_eq_iff_witness:
  "(canonicalJson (JObj [(''a'', JNum 1), (''b'', JNull)])
      = canonicalJson (JObj [(''b'', JNull), (''a'', JNum 1)]))
   = (json_normal (JObj [(''a'', JNum 1), (''b'', JNull)])
      = json_normal (JObj [(''b'', JNull), (''a'', JNum 1)]))"
  by (rule canonicalJson_eq_iff) simp_all

lemma canonicalJson_None_iff: "canonicalJson v = None \<longleftrightarrow> \<not> encodable v"
  using serialize_render [of v] serialize_refuses [of v] by (auto simp: canonicalJson_def)

subsection \<open>Objects as dictionaries\<close>

text \<open>Equality up to key order, for objects, is equality of the dictionaries.\<close>

lemma sorted_pairs_eqI:
  fixes ps qs :: "('k :: linorder \<times> 'v) list"
  assumes "sorted (map fst ps)" "distinct (map fst ps)"
    and "sorted (map fst qs)" "distinct (map fst qs)"
    and "map_of ps = map_of qs"
  shows "ps = qs"
proof (rule map_sorted_distinct_set_unique [where f = fst])
  have "(k, v) \<in> set ps \<longleftrightarrow> (k, v) \<in> set qs" for k v
    using map_of_eq_Some_iff [OF assms(2), of k v] map_of_eq_Some_iff [OF assms(4), of k v] assms(5)
    by metis
  then show set: "set ps = set qs" by auto
  show "inj_on fst (set ps \<union> set qs)"
    using assms(2) set by (simp add: distinct_map)
qed (use assms in simp_all)

lemma map_of_sort_key_fst: "distinct (map fst ps) \<Longrightarrow> map_of (sort_key fst ps) = map_of ps"
proof (rule map_of_eqI)
  assume d: "distinct (map fst ps)"
  show "set (map fst (sort_key fst ps)) = set (map fst ps)" by simp
  have "distinct (map fst (sort_key fst ps))"
    using d by (metis distinct_map distinct_sort inj_on_cong set_sort)
  with d show "\<forall>k\<in>set (map fst (sort_key fst ps)). map_of (sort_key fst ps) k = map_of ps k"
    by (metis (no_types, lifting) map_of_eq_None_iff map_of_eq_Some_iff not_None_eq set_sort)
qed

lemma distinct_sort_key_fst: "distinct (map fst (sort_key fst ps)) = distinct (map fst ps)"
  by (metis distinct_map distinct_sort set_sort)

lemma map_of_map_snd: "map_of (map (\<lambda>(k, v). (k, f v)) ps) k = map_option f (map_of ps k)"
  by (induction ps) auto

text \<open>
  For objects, the canonical text depends on the dictionary only. Two encodable objects have the
  same text exactly when they have the same property names and equivalent values under each name.
\<close>

theorem canonicalJson_object_iff:
  assumes "encodable (JObj ps)" "encodable (JObj qs)"
    and "distinct (map fst ps)" "distinct (map fst qs)"
  shows "canonicalJson (JObj ps) = canonicalJson (JObj qs) \<longleftrightarrow>
    (\<forall>k. map_option json_normal (map_of ps k) = map_option json_normal (map_of qs k))"
proof -
  let ?n = "\<lambda>xs. map (\<lambda>(k, v). (k, json_normal v)) (sort_key fst xs)"
  have look: "map_of (?n xs) k = map_option json_normal (map_of xs k)"
    if "distinct (map fst xs)" for xs :: "(string \<times> json) list" and k
    using that by (simp add: map_of_map_snd map_of_sort_key_fst)
  have keys: "map fst (?n xs) = map fst (sort_key fst xs)" for xs :: "(string \<times> json) list"
    by (simp add: case_prod_unfold comp_def)
  have "?n ps = ?n qs \<longleftrightarrow> map_of (?n ps) = map_of (?n qs)"
    by (rule iffI) (auto intro!: sorted_pairs_eqI simp: keys distinct_sort_key_fst assms(3,4)
      simp del: map_map)
  also have "\<dots> \<longleftrightarrow> (\<forall>k. map_option json_normal (map_of ps k) = map_option json_normal (map_of qs k))"
    using assms(3,4) by (simp add: fun_eq_iff look)
  finally show ?thesis
    using serialize_eq_iff [OF assms(1,2)] by (simp add: canonicalJson_def del: serialize.simps)
qed

text \<open>Reading a property of a parsed value: a missing property, or a non-object, is \<open>undefined\<close>.\<close>

definition jprop :: "json \<Rightarrow> string \<Rightarrow> json" where
  "jprop v k = (case v of JObj kvs \<Rightarrow> (case map_of kvs k of None \<Rightarrow> JUndefined | Some x \<Rightarrow> x)
                | _ \<Rightarrow> JUndefined)"

fun is_object :: "json \<Rightarrow> bool" where
  "is_object (JObj _) = True"
| "is_object _ = False"

fun str_of :: "json \<Rightarrow> string option" where
  "str_of (JStr s) = Some s"
| "str_of _ = None"

fun int_of :: "json \<Rightarrow> int option" where
  "int_of (JNum n) = Some n"
| "int_of _ = None"

end
