(* ===== verification/Zod.thy ===== *)
theory Zod
  imports Canonical_Json
begin

text \<open>
  The schema language the protocol package is written in. The schemas of
  \<open>packages/protocol/src\<close> are values built with the combinators of the Zod package; a value of
  \<open>zschema\<close> is such a schema, constructor by constructor. Zod itself is not part of the repository:
  its \<open>parse\<close> is a parameter of every definition that calls it, and the locale \<open>zod\<close> states the
  documented behaviour of the combinators that the sources use, one law per combinator. The string
  formats Zod checks itself (\<open>url\<close>, \<open>uuid\<close>) are a further parameter \<open>fmt\<close>.

  \<open>zod_parse\<close> is an executable function with those laws; it interprets the locale, which shows that
  the laws can hold, and \<open>zod.parse_unique\<close> shows that they leave nothing open.

  The main fact about schemas is idempotence: a schema that passes the static check \<open>stable\<close>
  (transformations first, defaults that satisfy their schema, unions that are scalar or
  discriminated) accepts what it returns and returns it unchanged. Signing and verifying both parse,
  so this is what makes a signature computed over a parsed document verifiable.
\<close>

section \<open>Schemas\<close>

datatype str_check =
    Str_min nat
  | Str_max nat
  | Str_length nat
  | Str_regex "string \<Rightarrow> bool"
  | Str_format string
  | Str_trim

datatype num_check = Num_int | Num_min int | Num_max int | Num_positive | Num_nonnegative

datatype arr_check = Arr_min nat | Arr_max nat

datatype zschema =
    ZString "str_check list"
  | ZNumber "num_check list"
  | ZBoolean
  | ZNull
  | ZUndefined
  | ZNever
  | ZLiteral json
  | ZEnum "string list"
  | ZOptional zschema
  | ZNullable zschema
  | ZDefault zschema json
  | ZArray zschema "arr_check list"
  | ZRecord zschema zschema
  | ZStrict "(string \<times> zschema) list"
  | ZUnion "zschema list"
  | ZRefine zschema "json \<Rightarrow> bool"
  | ZJsonValue

section \<open>Checks\<close>

text \<open>The white space \<open>String.prototype.trim\<close> removes, among the code units of the model.\<close>

definition js_space :: "char \<Rightarrow> bool" where
  "js_space c \<longleftrightarrow> of_char c \<in> {9, 10, 11, 12, 13, 32, 160 :: nat}"

definition js_trim :: "string \<Rightarrow> string" where
  "js_trim s = rev (dropWhile js_space (rev (dropWhile js_space s)))"

fun run_str_check :: "(string \<Rightarrow> string \<Rightarrow> bool) \<Rightarrow> str_check \<Rightarrow> string \<Rightarrow> string option" where
  "run_str_check fmt (Str_min n) s = (if n \<le> length s then Some s else None)"
| "run_str_check fmt (Str_max n) s = (if length s \<le> n then Some s else None)"
| "run_str_check fmt (Str_length n) s = (if length s = n then Some s else None)"
| "run_str_check fmt (Str_regex p) s = (if p s then Some s else None)"
| "run_str_check fmt (Str_format f) s = (if fmt f s then Some s else None)"
| "run_str_check fmt Str_trim s = Some (js_trim s)"

fun run_str_checks :: "(string \<Rightarrow> string \<Rightarrow> bool) \<Rightarrow> str_check list \<Rightarrow> string \<Rightarrow> string option" where
  "run_str_checks fmt [] s = Some s"
| "run_str_checks fmt (c # cs) s = Option.bind (run_str_check fmt c s) (run_str_checks fmt cs)"

fun run_num_check :: "num_check \<Rightarrow> int \<Rightarrow> bool" where
  "run_num_check Num_int n = isSafeInteger n"
| "run_num_check (Num_min m) n = (m \<le> n)"
| "run_num_check (Num_max m) n = (n \<le> m)"
| "run_num_check Num_positive n = (0 < n)"
| "run_num_check Num_nonnegative n = (0 \<le> n)"

fun run_arr_check :: "arr_check \<Rightarrow> 'a list \<Rightarrow> bool" where
  "run_arr_check (Arr_min n) xs = (n \<le> length xs)"
| "run_arr_check (Arr_max n) xs = (length xs \<le> n)"

section \<open>Parsing\<close>

text \<open>
  A strict object refuses unknown keys and parses every key of its shape, a missing one as
  \<open>undefined\<close>. A result of \<open>undefined\<close> for a missing key adds no property.
\<close>

definition known_keys :: "(string \<times> 's) list \<Rightarrow> (string \<times> json) list \<Rightarrow> bool" where
  "known_keys shape kvs \<longleftrightarrow> list_all (\<lambda>(k, v). k \<in> set (map fst shape)) kvs"

definition strict_member :: "(string \<times> json) list \<Rightarrow> string \<Rightarrow> json \<Rightarrow> (string \<times> json) list" where
  "strict_member kvs k w = (if w = JUndefined \<and> map_of kvs k = None then [] else [(k, w)])"

definition record_member :: "json option \<Rightarrow> json option \<Rightarrow> (string \<times> json) option" where
  "record_member k w = (case (k, w) of (Some (JStr k'), Some w') \<Rightarrow> Some (k', w') | _ \<Rightarrow> None)"

fun first_some :: "'a option list \<Rightarrow> 'a option" where
  "first_some [] = None"
| "first_some (Some x # xs) = Some x"
| "first_some (None # xs) = first_some xs"

locale zod =
  fixes fmt :: "string \<Rightarrow> string \<Rightarrow> bool"
    and parse :: "zschema \<Rightarrow> json \<Rightarrow> json option"
  assumes parse_string: "parse (ZString cs) v =
      (case v of JStr s \<Rightarrow> map_option JStr (run_str_checks fmt cs s) | _ \<Rightarrow> None)"
    and parse_number: "parse (ZNumber ns) v =
      (case v of JNum n \<Rightarrow> if list_all (\<lambda>c. run_num_check c n) ns then Some v else None | _ \<Rightarrow> None)"
    and parse_boolean: "parse ZBoolean v = (case v of JBool b \<Rightarrow> Some v | _ \<Rightarrow> None)"
    and parse_null: "parse ZNull v = (if v = JNull then Some v else None)"
    and parse_undefined: "parse ZUndefined v = (if v = JUndefined then Some v else None)"
    and parse_never: "parse ZNever v = None"
    and parse_literal: "parse (ZLiteral l) v = (if v = l then Some v else None)"
    and parse_enum: "parse (ZEnum xs) v =
      (case v of JStr s \<Rightarrow> if s \<in> set xs then Some v else None | _ \<Rightarrow> None)"
    and parse_optional: "parse (ZOptional s) v = (if v = JUndefined then Some v else parse s v)"
    and parse_nullable: "parse (ZNullable s) v = (if v = JNull then Some v else parse s v)"
    and parse_default: "parse (ZDefault s d) v = (if v = JUndefined then Some d else parse s v)"
    and parse_array: "parse (ZArray s as) v =
      (case v of JArr xs \<Rightarrow>
         if list_all (\<lambda>c. run_arr_check c xs) as then map_option JArr (those (map (parse s) xs)) else None
       | _ \<Rightarrow> None)"
    and parse_record: "parse (ZRecord sk s) v =
      (case v of JObj kvs \<Rightarrow>
         map_option JObj (those (map (\<lambda>(k, x). record_member (parse sk (JStr k)) (parse s x)) kvs))
       | _ \<Rightarrow> None)"
    and parse_strict: "parse (ZStrict shape) v =
      (case v of JObj kvs \<Rightarrow>
         if known_keys shape kvs
         then map_option (\<lambda>ms. JObj (concat ms))
           (those (map (\<lambda>(k, s). map_option (strict_member kvs k) (parse s (jprop v k))) shape))
         else None
       | _ \<Rightarrow> None)"
    and parse_union: "parse (ZUnion ss) v = first_some (map (\<lambda>s. parse s v) ss)"
    and parse_refine: "parse (ZRefine s p) v =
      (case parse s v of None \<Rightarrow> None | Some w \<Rightarrow> if p w then Some w else None)"
    and parse_json_value: "parse ZJsonValue v =
      parse (ZUnion [ZUnion [ZNull, ZBoolean, ZNumber [], ZString []],
                     ZArray ZJsonValue [], ZRecord (ZString []) ZJsonValue]) v"

section \<open>An executable model of the laws\<close>

lemma size_shape_member: "(k, s) \<in> set shape \<Longrightarrow> size s < Suc (size_list (size_prod (\<lambda>_. 0) size) shape)"
proof -
  assume "(k, s) \<in> set shape"
  then have "size_prod (\<lambda>_. 0) size (k, s) \<le> size_list (size_prod (\<lambda>_. 0) size) shape"
    by (rule size_list_estimation') simp
  then show ?thesis by simp
qed

function zod_parse :: "(string \<Rightarrow> string \<Rightarrow> bool) \<Rightarrow> zschema \<Rightarrow> json \<Rightarrow> json option" where
  "zod_parse fmt (ZString cs) v =
     (case v of JStr s \<Rightarrow> map_option JStr (run_str_checks fmt cs s) | _ \<Rightarrow> None)"
| "zod_parse fmt (ZNumber ns) v =
     (case v of JNum n \<Rightarrow> if list_all (\<lambda>c. run_num_check c n) ns then Some v else None | _ \<Rightarrow> None)"
| "zod_parse fmt ZBoolean v = (case v of JBool b \<Rightarrow> Some v | _ \<Rightarrow> None)"
| "zod_parse fmt ZNull v = (if v = JNull then Some v else None)"
| "zod_parse fmt ZUndefined v = (if v = JUndefined then Some v else None)"
| "zod_parse fmt ZNever v = None"
| "zod_parse fmt (ZLiteral l) v = (if v = l then Some v else None)"
| "zod_parse fmt (ZEnum xs) v =
     (case v of JStr s \<Rightarrow> if s \<in> set xs then Some v else None | _ \<Rightarrow> None)"
| "zod_parse fmt (ZOptional s) v = (if v = JUndefined then Some v else zod_parse fmt s v)"
| "zod_parse fmt (ZNullable s) v = (if v = JNull then Some v else zod_parse fmt s v)"
| "zod_parse fmt (ZDefault s d) v = (if v = JUndefined then Some d else zod_parse fmt s v)"
| "zod_parse fmt (ZArray s cs) v =
     (case v of JArr xs \<Rightarrow>
        if list_all (\<lambda>c. run_arr_check c xs) cs
        then map_option JArr (those (map (zod_parse fmt s) xs)) else None
      | _ \<Rightarrow> None)"
| "zod_parse fmt (ZRecord sk s) v =
     (case v of JObj kvs \<Rightarrow>
        map_option JObj (those (map (\<lambda>(k, x).
          record_member (zod_parse fmt sk (JStr k)) (zod_parse fmt s x)) kvs))
      | _ \<Rightarrow> None)"
| "zod_parse fmt (ZStrict shape) v =
     (case v of JObj kvs \<Rightarrow>
        if known_keys shape kvs
        then map_option (\<lambda>ms. JObj (concat ms))
          (those (map (\<lambda>(k, s). map_option (strict_member kvs k) (zod_parse fmt s (jprop v k))) shape))
        else None
      | _ \<Rightarrow> None)"
| "zod_parse fmt (ZUnion ss) v = first_some (map (\<lambda>s. zod_parse fmt s v) ss)"
| "zod_parse fmt (ZRefine s p) v =
     (case zod_parse fmt s v of None \<Rightarrow> None | Some w \<Rightarrow> if p w then Some w else None)"
| "zod_parse fmt ZJsonValue v = (if encodable v then Some v else None)"
  by pat_completeness auto
termination
  by (relation "measure (\<lambda>(fmt, s, v). size s)")
    (auto simp: size_shape_member less_Suc_eq_le intro: size_list_estimation')

lemma those_map_iff: "those (map f xs) = Some ys \<longleftrightarrow> list_all2 (\<lambda>x y. f x = Some y) xs ys"
proof (induction xs arbitrary: ys)
  case (Cons x xs)
  then show ?case by (cases ys) (auto split: option.splits)
qed auto

lemma first_some_iff:
  "first_some (map f xs) = Some y \<longleftrightarrow>
    (\<exists>as x bs. xs = as @ x # bs \<and> f x = Some y \<and> (\<forall>a\<in>set as. f a = None))"
proof (induction xs)
  case (Cons x xs)
  show ?case
  proof (cases "f x")
    case None
    with Cons show ?thesis
      by (auto simp: Cons_eq_append_conv) (metis append_Cons set_ConsD)+
  next
    case (Some z)
    then show ?thesis
      by (auto simp: Cons_eq_append_conv intro: exI [of _ "[]"])
  qed
qed simp

lemma first_some_hit: "\<lbrakk> \<forall>a\<in>set as. f a = None; f x = Some y \<rbrakk> \<Longrightarrow> first_some (map f (as @ x # bs)) = Some y"
  by (induction as) auto

lemma zod_union_member: "zod_parse fmt (ZUnion ss) v = Some w \<Longrightarrow> \<exists>s\<in>set ss. zod_parse fmt s v = Some w"
  by (auto simp: first_some_iff)

section \<open>The recursive JSON schema\<close>

lemma those_identity: "(\<And>x. x \<in> set xs \<Longrightarrow> f x = (if P x then Some x else None)) \<Longrightarrow>
    those (map f xs) = (if list_all P xs then Some xs else None)"
  by (induction xs) auto

context zod
begin

lemma parse_json_value_encodable: "parse ZJsonValue v = (if encodable v then Some v else None)"
proof (induction v rule: measure_induct_rule [where f = size])
  case (less v)
  note laws = parse_union parse_null parse_boolean parse_number
    parse_string parse_array parse_record
  show ?case
  proof (cases v)
    case (JArr xs)
    have "those (map (parse ZJsonValue) xs) = (if list_all encodable xs then Some xs else None)"
    proof (rule those_identity)
      fix x assume "x \<in> set xs"
      then have "size x < size v" using JArr by (simp add: less_Suc_eq_le size_list_estimation')
      then show "parse ZJsonValue x = (if encodable x then Some x else None)" by (rule less)
    qed
    then show ?thesis unfolding JArr parse_json_value [of "JArr xs"] by (simp add: laws list_all_iff)
  next
    case (JObj kvs)
    have "those (map (\<lambda>(k, x). record_member (Some (JStr k)) (parse ZJsonValue x)) kvs)
        = (if list_all (\<lambda>(k, x). encodable x) kvs then Some kvs else None)"
      using less JObj by (intro those_identity) (auto simp: record_member_def size_json_member)
    then show ?thesis unfolding JObj parse_json_value [of "JObj kvs"] by (simp add: laws list_all_iff)
  qed (subst parse_json_value, simp add: laws)+
qed

text \<open>The laws determine \<open>parse\<close>.\<close>

lemma parse_unique: "parse s v = zod_parse fmt s v"
proof (induction s arbitrary: v)
  case (ZStrict shape)
  have "map (\<lambda>(k, s). map_option (strict_member kvs k) (parse s (jprop v k))) shape
      = map (\<lambda>(k, s). map_option (strict_member kvs k) (zod_parse fmt s (jprop v k))) shape" for kvs
    using ZStrict by (auto intro!: map_cong)
  then show ?case by (cases v) (simp_all only: parse_strict zod_parse.simps json.case)
next
  case (ZUnion ss)
  have "map (\<lambda>s. parse s v) ss = map (\<lambda>s. zod_parse fmt s v) ss" using ZUnion by simp
  then show ?case by (simp only: parse_union zod_parse.simps)
next
  case (ZArray s cs)
  have "parse s = zod_parse fmt s" using ZArray by (simp add: fun_eq_iff)
  then show ?case by (simp only: parse_array zod_parse.simps)
next
  case (ZRecord sk s)
  have "parse sk = zod_parse fmt sk" and "parse s = zod_parse fmt s"
    using ZRecord by (simp_all add: fun_eq_iff)
  then show ?case by (simp only: parse_record zod_parse.simps)
qed (simp_all add: parse_string parse_number parse_boolean parse_null parse_undefined parse_never
      parse_literal parse_enum parse_optional parse_nullable parse_default
      parse_refine parse_json_value_encodable del: first_some.simps)

end

interpretation zod_model: zod fmt "zod_parse fmt" for fmt
proof (unfold_locales; (simp; fail)?)
  fix v
  have arr: "those (map (zod_parse fmt ZJsonValue) xs) = (if list_all encodable xs then Some xs else None)" for xs
    by (rule those_identity) simp
  have obj: "those (map (\<lambda>(k, x). record_member (Some (JStr k)) (zod_parse fmt ZJsonValue x)) kvs)
      = (if list_all (\<lambda>(k, x). encodable x) kvs then Some kvs else None)" for kvs
    by (rule those_identity) (auto simp: record_member_def)
  show "zod_parse fmt ZJsonValue v = zod_parse fmt (ZUnion [ZUnion [ZNull, ZBoolean, ZNumber [], ZString []],
      ZArray ZJsonValue [], ZRecord (ZString []) ZJsonValue]) v"
    using arr obj by (cases v) (simp_all add: list_all_iff)
qed

section \<open>Idempotent schemas\<close>

text \<open>
  \<open>stable\<close> is a static check of a schema: string transformations come before every other check, a
  default satisfies its schema, record keys are not transformed, and the members of a union either
  return their input or differ in the literal of one property.
\<close>

definition stable_checks :: "str_check list \<Rightarrow> bool" where
  "stable_checks cs \<longleftrightarrow> Str_trim \<notin> set (dropWhile (\<lambda>c. c = Str_trim) cs)"

fun scalar :: "zschema \<Rightarrow> bool" where
  "scalar (ZString cs) \<longleftrightarrow> Str_trim \<notin> set cs"
| "scalar (ZNumber ns) \<longleftrightarrow> True"
| "scalar ZBoolean \<longleftrightarrow> True"
| "scalar ZNull \<longleftrightarrow> True"
| "scalar (ZEnum xs) \<longleftrightarrow> True"
| "scalar (ZLiteral l) \<longleftrightarrow> True"
| "scalar _ \<longleftrightarrow> False"

fun discriminant :: "string \<Rightarrow> zschema \<Rightarrow> json option" where
  "discriminant k (ZStrict shape) = (case map_of shape k of Some (ZLiteral l) \<Rightarrow> Some l | _ \<Rightarrow> None)"
| "discriminant k (ZRefine s p) = discriminant k s"
| "discriminant k _ = None"

definition discriminated :: "string \<Rightarrow> zschema list \<Rightarrow> bool" where
  "discriminated k ss \<longleftrightarrow> distinct (map (discriminant k) ss) \<and>
     list_all (\<lambda>s. discriminant k s \<noteq> None \<and> discriminant k s \<noteq> Some JUndefined) ss"

function stable :: "(string \<Rightarrow> string \<Rightarrow> bool) \<Rightarrow> zschema \<Rightarrow> bool" where
  "stable fmt (ZString cs) \<longleftrightarrow> stable_checks cs"
| "stable fmt (ZOptional s) \<longleftrightarrow> stable fmt s"
| "stable fmt (ZNullable s) \<longleftrightarrow> stable fmt s"
| "stable fmt (ZDefault s d) \<longleftrightarrow>
     stable fmt s \<and> zod_parse fmt s d = Some d \<and> zod_parse fmt s JUndefined = None \<and>
     encodable d \<and> json_wf d"
| "stable fmt (ZArray s cs) \<longleftrightarrow> stable fmt s"
| "stable fmt (ZRecord sk s) \<longleftrightarrow> scalar sk \<and> stable fmt s"
| "stable fmt (ZStrict shape) \<longleftrightarrow> distinct (map fst shape) \<and> list_all (\<lambda>(k, s). stable fmt s) shape"
| "stable fmt (ZUnion ss) \<longleftrightarrow>
     list_all (stable fmt) ss \<and> (list_all scalar ss \<or> (\<exists>k. discriminated k ss))"
| "stable fmt (ZRefine s p) \<longleftrightarrow> stable fmt s"
| "stable fmt (ZNumber ns) \<longleftrightarrow> True"
| "stable fmt ZBoolean \<longleftrightarrow> True"
| "stable fmt ZNull \<longleftrightarrow> True"
| "stable fmt ZUndefined \<longleftrightarrow> True"
| "stable fmt ZNever \<longleftrightarrow> True"
| "stable fmt (ZLiteral l) \<longleftrightarrow> True"
| "stable fmt (ZEnum xs) \<longleftrightarrow> True"
| "stable fmt ZJsonValue \<longleftrightarrow> True"
  by pat_completeness auto
termination
  by (relation "measure (\<lambda>(fmt, s). size s)")
    (auto simp: size_shape_member less_Suc_eq_le intro: size_list_estimation')

lemma dropWhile_idem: "dropWhile P (dropWhile P xs) = dropWhile P xs"
  by (induction xs) auto

lemma dropWhile_rev_dropWhile:
  "dropWhile P (rev (dropWhile P (rev (dropWhile P xs)))) = rev (dropWhile P (rev (dropWhile P xs)))"
proof (cases "dropWhile P xs")
  case (Cons y ys)
  then have "\<not> P y" by (metis hd_dropWhile list.distinct(1) list.sel(1))
  then have "\<exists>zs. rev (dropWhile P (rev ys @ [y])) = y # zs"
    by (simp add: dropWhile_append) (metis rev_rev_ident)
  with Cons \<open>\<not> P y\<close> show ?thesis by auto
next
  case Nil
  then show ?thesis by (simp only: rev.simps dropWhile.simps)
qed

lemma js_trim_idem [simp]: "js_trim (js_trim s) = js_trim s"
  by (simp add: js_trim_def dropWhile_rev_dropWhile dropWhile_idem)

lemma run_str_checks_no_trim: "Str_trim \<notin> set cs \<Longrightarrow> run_str_checks fmt cs s = Some t \<Longrightarrow> t = s"
proof (induction cs)
  case (Cons c cs)
  then show ?case by (cases c) (auto split: if_splits)
qed simp

lemma run_str_checks_idem:
  "stable_checks cs \<Longrightarrow> run_str_checks fmt cs s = Some t \<Longrightarrow> run_str_checks fmt cs t = Some t"
proof (induction cs arbitrary: s)
  case (Cons c cs)
  show ?case
  proof (cases "c = Str_trim")
    case True
    with Cons.prems have later: "run_str_checks fmt cs (js_trim s) = Some t" and st: "stable_checks cs"
      by (simp_all add: stable_checks_def)
    have "js_trim t = t"
      using later st
    proof (induction cs arbitrary: s)
      case (Cons d ds)
      show ?case
      proof (cases "d = Str_trim")
        case True
        then show ?thesis using Cons by (auto simp: stable_checks_def)
      next
        case False
        then have "Str_trim \<notin> set (d # ds)" using Cons.prems(2) by (simp add: stable_checks_def)
        from run_str_checks_no_trim [OF this Cons.prems(1)] show ?thesis by simp
      qed
    qed auto
    with Cons.IH [OF st later] True show ?thesis by simp
  next
    case False
    then have "Str_trim \<notin> set (c # cs)" using Cons.prems(1) by (simp add: stable_checks_def)
    from run_str_checks_no_trim [OF this Cons.prems(2)] Cons.prems(2) show ?thesis by simp
  qed
qed simp

lemma scalar_returns_input: "scalar s \<Longrightarrow> zod_parse fmt s v = Some w \<Longrightarrow> w = v"
  by (cases s; cases v) (auto split: if_splits dest: run_str_checks_no_trim)

text \<open>What a strict object returns, key by key.\<close>

lemma strict_member_keys: "set (map fst (strict_member kvs k x)) \<subseteq> {k}"
  by (simp add: strict_member_def)

lemma strict_members_keys:
  "list_all2 (\<lambda>(k, s) m. \<exists>x. f k s = Some x \<and> m = strict_member kvs k x) shape ms \<Longrightarrow>
    fst ` set (concat ms) \<subseteq> fst ` set shape"
  by (induction rule: list_all2_induct) (auto simp: strict_member_def split: if_splits)

lemma strict_members_distinct:
  assumes "list_all2 (\<lambda>(k, s) m. \<exists>x. f k s = Some x \<and> m = strict_member kvs k x) shape ms"
    and "distinct (map fst shape)"
  shows "distinct (map fst (concat ms))"
  using assms
proof (induction rule: list_all2_induct)
  case (Cons p ps m ms)
  from Cons.prems Cons.IH have "distinct (map fst (concat ms))" by simp
  moreover have "fst p \<notin> fst ` set (concat ms)"
    using strict_members_keys [OF Cons.hyps(2)] Cons.prems by auto
  moreover have "m = [] \<or> (\<exists>x. m = [(fst p, x)])"
    using Cons.hyps(1) by (auto simp: strict_member_def split: if_splits)
  ultimately show ?case by (auto simp del: set_concat simp: image_iff)
qed simp

lemma strict_members_lookup:
  assumes "list_all2 (\<lambda>(k, s) m. \<exists>x. f k s = Some x \<and> m = strict_member kvs k x) shape ms"
    and "distinct (map fst shape)" and "(k, s) \<in> set shape"
  shows "\<exists>x. f k s = Some x \<and> map_of (concat ms) k = map_of (strict_member kvs k x) k"
  using assms
proof (induction rule: list_all2_induct)
  case (Cons p ps m ms)
  obtain k' s' where p: "p = (k', s')" by (cases p)
  show ?case
  proof (cases "k = k'")
    case True
    with Cons.prems p have "s = s'" and "k' \<notin> fst ` set ps" by force+
    with strict_members_keys [OF Cons.hyps(2)] have "map_of (concat ms) k = None"
      using True by (auto simp: map_of_eq_None_iff)
    with Cons.hyps(1) p True \<open>s = s'\<close> show ?thesis by (auto simp: map_add_def split: option.split)
  next
    case False
    with Cons.prems p Cons.IH obtain x where
      "f k s = Some x" "map_of (concat ms) k = map_of (strict_member kvs k x) k" by auto
    moreover have "map_of m k = None"
      using Cons.hyps(1) p False by (auto simp: strict_member_def)
    ultimately show ?thesis by (simp add: map_add_def split: option.split)
  qed
qed simp

lemma strict_members_iff:
  "those (map (\<lambda>(k, s). map_option (strict_member kvs k) (f k s)) shape) = Some ms \<longleftrightarrow>
    list_all2 (\<lambda>(k, s) m. \<exists>x. f k s = Some x \<and> m = strict_member kvs k x) shape ms"
  unfolding those_map_iff
  by (intro iffI; erule list_all2_mono) auto

lemma strict_parse_cases:
  assumes "zod_parse fmt (ZStrict shape) v = Some w" "distinct (map fst shape)"
  obtains kvs ms where "v = JObj kvs" "known_keys shape kvs" "w = JObj (concat ms)"
    "distinct (map fst (concat ms))"
    "list_all2 (\<lambda>(k, s) m. \<exists>x. zod_parse fmt s (jprop v k) = Some x \<and> m = strict_member kvs k x) shape ms"
proof (cases v)
  case (JObj kvs)
  with assms(1) obtain ms where
    "known_keys shape kvs" "w = JObj (concat ms)"
    and all: "list_all2 (\<lambda>(k, s) m. \<exists>x. zod_parse fmt s (jprop v k) = Some x \<and> m = strict_member kvs k x) shape ms"
    by (auto simp: strict_members_iff [where f = "\<lambda>k s. zod_parse fmt s (jprop (JObj kvs) k)"] split: if_splits)
  with JObj strict_members_distinct [OF all assms(2)] show thesis by (intro that) auto
qed (use assms in auto)

lemma jprop_strict_member:
  "map_of kvs' k = map_of (strict_member kvs k x) k \<Longrightarrow> jprop (JObj kvs') k = x"
  by (auto simp: jprop_def strict_member_def split: if_splits)

text \<open>Every key of a parsed strict object holds the parse of the input's property.\<close>

lemma strict_parse_prop:
  assumes "zod_parse fmt (ZStrict shape) v = Some w" "distinct (map fst shape)" "(k, s) \<in> set shape"
  shows "zod_parse fmt s (jprop v k) = Some (jprop w k)"
proof -
  from assms(1,2) obtain kvs ms where w: "w = JObj (concat ms)"
    and all: "list_all2 (\<lambda>(k, s) m. \<exists>x. zod_parse fmt s (jprop v k) = Some x \<and> m = strict_member kvs k x) shape ms"
    by (rule strict_parse_cases)
  from strict_members_lookup [OF all assms(2,3)] w show ?thesis by (auto dest: jprop_strict_member)
qed

lemma zod_parse_discriminant:
  "\<lbrakk> discriminant k s = Some l; stable fmt s; zod_parse fmt s v = Some w \<rbrakk> \<Longrightarrow> jprop v k = l \<and> jprop w k = l"
proof (induction k s rule: discriminant.induct)
  case (1 k shape)
  then have "(k, ZLiteral l) \<in> set shape"
    by (auto split: option.splits zschema.splits dest: map_of_SomeD)
  with strict_parse_prop [OF 1(3) _ this] 1(2) show ?case by (simp split: if_splits)
qed (auto split: option.splits if_splits)

text \<open>In a discriminated union the matching member decides.\<close>

lemma discriminated_unique:
  assumes "discriminated k ss" "list_all (stable fmt) ss" "a \<in> set ss" "s \<in> set ss" "a \<noteq> s"
    and "jprop v k = jprop w k" "zod_parse fmt s w = Some x"
  shows "zod_parse fmt a v = None"
proof (rule ccontr)
  assume "zod_parse fmt a v \<noteq> None"
  then obtain u where u: "zod_parse fmt a v = Some u" by auto
  have "discriminant k a \<noteq> None" "discriminant k s \<noteq> None"
    using assms(1,3,4) by (simp_all add: discriminated_def list_all_iff)
  then obtain l la where l: "discriminant k s = Some l" and la: "discriminant k a = Some la" by blast
  have "l = la"
    using zod_parse_discriminant [OF l _ assms(7)] zod_parse_discriminant [OF la _ u] assms(2,3,4,6)
    by (simp add: list_all_iff)
  with l la have "discriminant k a = discriminant k s" by simp
  with assms(1,3,4,5) show False by (auto simp: discriminated_def distinct_map dest: inj_onD)
qed

lemma discriminated_union_hit:
  assumes "discriminated k ss" "list_all (stable fmt) ss" "s \<in> set ss" "zod_parse fmt s v = Some w"
  shows "zod_parse fmt (ZUnion ss) v = Some w"
proof -
  from split_list [OF assms(3)] obtain as bs where ss: "ss = as @ s # bs" by blast
  have "s \<notin> set as" using assms(1) ss by (auto simp: discriminated_def)
  then have "\<forall>a\<in>set as. zod_parse fmt a v = None"
    using discriminated_unique [OF assms(1,2) _ assms(3) _ refl assms(4)] ss by auto
  with assms(4) show ?thesis unfolding ss zod_parse.simps by (intro first_some_hit)
qed

lemma list_all2_refl_map:
  "list_all2 (\<lambda>x y. f x = Some y) xs ys \<Longrightarrow> (\<And>x y. x \<in> set xs \<Longrightarrow> f x = Some y \<Longrightarrow> f y = Some y) \<Longrightarrow>
    list_all2 (\<lambda>x y. f x = Some y) ys ys"
  by (induction rule: list_all2_induct) auto

lemma list_all2_source:
  "list_all2 (\<lambda>x y. f x = Some y) xs ys \<Longrightarrow> y \<in> set ys \<Longrightarrow> \<exists>x\<in>set xs. f x = Some y"
  by (induction rule: list_all2_induct) auto

lemma strict_idem:
  assumes "zod_parse fmt (ZStrict shape) v = Some w" "distinct (map fst shape)"
    and "\<And>k s v w. (k, s) \<in> set shape \<Longrightarrow> zod_parse fmt s v = Some w \<Longrightarrow> zod_parse fmt s w = Some w"
  shows "zod_parse fmt (ZStrict shape) w = Some w"
proof -
  from assms(1,2) obtain kvs ms where w: "w = JObj (concat ms)"
    and all: "list_all2 (\<lambda>(k, s) m. \<exists>x. zod_parse fmt s (jprop v k) = Some x \<and> m = strict_member kvs k x) shape ms"
    by (rule strict_parse_cases)
  have known: "known_keys shape (concat ms)"
    unfolding known_keys_def list_all_iff set_map
    using subsetD [OF strict_members_keys [OF all]] by (metis case_prodI2 fst_conv imageI)
  have "list_all2 (\<lambda>(k, s) m. \<exists>x. zod_parse fmt s (jprop w k) = Some x
      \<and> m = strict_member (concat ms) k x) shape ms"
  proof (rule list_all2_all_nthI)
    show "length shape = length ms" using all by (rule list_all2_lengthD)
    fix i assume i: "i < length shape"
    obtain k s where ks: "shape ! i = (k, s)" by (cases "shape ! i")
    with i have mem: "(k, s) \<in> set shape" by (metis nth_mem)
    from list_all2_nthD [OF all i] ks obtain x where
      x: "zod_parse fmt s (jprop v k) = Some x" and m: "ms ! i = strict_member kvs k x" by auto
    from strict_members_lookup [OF all assms(2) mem] x
    have look: "map_of (concat ms) k = map_of (strict_member kvs k x) k" by auto
    have "jprop w k = x" using w look by (auto dest: jprop_strict_member)
    moreover have "strict_member (concat ms) k x = strict_member kvs k x"
      using look by (auto simp: strict_member_def)
    ultimately show "(case shape ! i of (k, s) \<Rightarrow> \<lambda>m. \<exists>x. zod_parse fmt s (jprop w k) = Some x
        \<and> m = strict_member (concat ms) k x) (ms ! i)"
      using assms(3) [OF mem x] ks m by simp
  qed
  with w known show ?thesis
    by (auto simp add: strict_members_iff [where f = "\<lambda>k s. zod_parse fmt s (jprop (JObj (concat ms)) k)"])
qed

lemma record_member_snd: "record_member k w = Some (k', y) \<Longrightarrow> w = Some y"
  by (auto simp: record_member_def split: option.splits json.splits)

lemma record_member_fst:
  "scalar sk \<Longrightarrow> record_member (zod_parse fmt sk (JStr k)) w = Some (k', y) \<Longrightarrow> k' = k"
  using scalar_returns_input [of sk fmt "JStr k"]
  by (cases "zod_parse fmt sk (JStr k)") (auto simp: record_member_def split: option.splits json.splits)

lemma record_members_keys:
  "scalar sk \<Longrightarrow> list_all2 (\<lambda>p y. (case p of (k, x) \<Rightarrow>
      record_member (zod_parse fmt sk (JStr k)) (zod_parse fmt s x)) = Some y) kvs ys \<Longrightarrow>
    map fst ys = map fst kvs"
proof (induction kvs arbitrary: ys)
  case (Cons p kvs)
  then show ?case by (cases ys; cases p) (auto dest: record_member_fst)
qed simp

lemma zod_parse_idem:
  "stable fmt s \<Longrightarrow> zod_parse fmt s v = Some w \<Longrightarrow> zod_parse fmt s w = Some w"
proof (induction s arbitrary: v w)
  case (ZString cs)
  then show ?case by (auto split: json.splits dest: run_str_checks_idem)
next
  case (ZArray s as)
  then obtain xs ys where "v = JArr xs" "w = JArr ys" "list_all (\<lambda>c. run_arr_check c xs) as"
    and all: "list_all2 (\<lambda>x y. zod_parse fmt s x = Some y) xs ys"
    by (auto split: json.splits if_splits simp: those_map_iff)
  moreover have "run_arr_check c ys = run_arr_check c xs" for c
    using list_all2_lengthD [OF all] by (cases c) auto
  moreover have "list_all2 (\<lambda>x y. zod_parse fmt s x = Some y) ys ys"
    using all ZArray by (intro list_all2_refl_map [OF all]) auto
  ultimately show ?case by (simp add: those_map_iff)
next
  case (ZRecord sk s)
  from ZRecord.prems(2) obtain kvs ys where "v = JObj kvs" and w: "w = JObj ys"
    and all: "list_all2 (\<lambda>p y. (case p of (k, x) \<Rightarrow>
      record_member (zod_parse fmt sk (JStr k)) (zod_parse fmt s x)) = Some y) kvs ys"
    by (cases v) (auto simp: those_map_iff)
  have "list_all2 (\<lambda>p y. (case p of (k, x) \<Rightarrow>
      record_member (zod_parse fmt sk (JStr k)) (zod_parse fmt s x)) = Some y) ys ys"
  proof (rule list_all2_refl_map)
    show "list_all2 (\<lambda>p y. (case p of (k, x) \<Rightarrow>
      record_member (zod_parse fmt sk (JStr k)) (zod_parse fmt s x)) = Some y) kvs ys" by (rule all)
    fix p y assume "(case p of (k, x) \<Rightarrow>
      record_member (zod_parse fmt sk (JStr k)) (zod_parse fmt s x)) = Some y"
    with ZRecord.prems(1) ZRecord.IH(2) show "(case y of (k, x) \<Rightarrow>
      record_member (zod_parse fmt sk (JStr k)) (zod_parse fmt s x)) = Some y"
      by (auto simp: record_member_def split: option.splits json.splits prod.splits
          dest: scalar_returns_input)
  qed
  with w show ?case by (simp add: those_map_iff)
next
  case (ZStrict shape)
  then show ?case
    by (intro strict_idem [OF ZStrict.prems(2)]) (auto simp: list_all_iff)
next
  case (ZUnion ss)
  then obtain as s bs where ss: "ss = as @ s # bs" and s: "zod_parse fmt s v = Some w"
    and before: "\<forall>a\<in>set as. zod_parse fmt a v = None" and st: "list_all (stable fmt) ss"
    by (auto simp: first_some_iff)
  have "zod_parse fmt s w = Some w" using ZUnion.IH s st ss by (auto simp: list_all_iff)
  moreover have "\<forall>a\<in>set as. zod_parse fmt a w = None"
  proof (cases "list_all scalar ss")
    case True
    with s ss have "w = v" by (auto dest: scalar_returns_input)
    with before show ?thesis by simp
  next
    case False
    with ZUnion.prems(1) obtain k where k: "discriminated k ss" by auto
    have "s \<notin> set as" using k ss by (auto simp: discriminated_def)
    moreover have "jprop w k = jprop v k"
    proof -
      from k ss obtain l where "discriminant k s = Some l" by (auto simp: discriminated_def)
      with s st ss show ?thesis by (auto simp: list_all_iff dest: zod_parse_discriminant)
    qed
    ultimately show ?thesis using discriminated_unique [OF k st _ _ _ _ s] ss by auto
  qed
  ultimately show ?case unfolding ss zod_parse.simps by (intro first_some_hit)
qed (auto split: json.splits if_splits option.splits)

text \<open>
  Parsing a JSON document (no \<open>undefined\<close>, no non-finite number, distinct keys) yields one, so that
  \<open>canonicalJson\<close> accepts the result. A missing property may yield \<open>undefined\<close>, which adds no key.
\<close>

lemma zod_parse_json:
  "\<lbrakk> stable fmt s; encodable v \<or> v = JUndefined; json_wf v; zod_parse fmt s v = Some w \<rbrakk> \<Longrightarrow>
    json_wf w \<and> (encodable w \<or> w = JUndefined \<and> v = JUndefined)"
proof (induction s arbitrary: v w)
  case (ZArray s as)
  then obtain xs ys where v: "v = JArr xs" and w: "w = JArr ys"
    and all: "list_all2 (\<lambda>x y. zod_parse fmt s x = Some y) xs ys"
    by (auto split: json.splits if_splits simp: those_map_iff)
  have "json_wf y \<and> encodable y" if "y \<in> set ys" for y
  proof -
    from list_all2_source [OF all that] obtain x where "x \<in> set xs" "zod_parse fmt s x = Some y" by blast
    moreover from this ZArray.prems(2,3) v have "encodable x" "json_wf x" by auto
    ultimately show ?thesis using ZArray.IH [of x y] ZArray.prems(1) by auto
  qed
  with w show ?case by simp
next
  case (ZRecord sk s)
  from ZRecord.prems(4) obtain kvs ys where v: "v = JObj kvs" and w: "w = JObj ys"
    and all: "list_all2 (\<lambda>p y. (case p of (k, x) \<Rightarrow>
      record_member (zod_parse fmt sk (JStr k)) (zod_parse fmt s x)) = Some y) kvs ys"
    by (cases v) (auto simp: those_map_iff)
  have "map fst ys = map fst kvs"
    using record_members_keys [OF _ all] ZRecord.prems(1) by simp
  moreover have "json_wf y \<and> encodable y" if "(k, y) \<in> set ys" for k y
  proof -
    from list_all2_source [OF all that] obtain k' x where "(k', x) \<in> set kvs"
      and "record_member (zod_parse fmt sk (JStr k')) (zod_parse fmt s x) = Some (k, y)" by auto
    then have "(k', x) \<in> set kvs" "zod_parse fmt s x = Some y" by (auto dest: record_member_snd)
    moreover from this ZRecord.prems(2,3) v have "encodable x" "json_wf x" by auto
    ultimately show ?thesis using ZRecord.IH(2) [of x y] ZRecord.prems(1) by auto
  qed
  ultimately show ?case using w v ZRecord.prems(3) by auto
next
  case (ZStrict shape)
  from ZStrict.prems(1) have "distinct (map fst shape)" by simp
  with ZStrict.prems(4) obtain kvs ms where v: "v = JObj kvs" and w: "w = JObj (concat ms)"
    and dist: "distinct (map fst (concat ms))"
    and all: "list_all2 (\<lambda>(k, s) m. \<exists>x. zod_parse fmt s (jprop v k) = Some x \<and> m = strict_member kvs k x) shape ms"
    by (rule strict_parse_cases)
  have "json_wf y \<and> encodable y" if "m \<in> set ms" "(k, y) \<in> set m" for k y m
  proof -
    from that(1) obtain i where i: "i < length ms" "ms ! i = m" by (auto simp: in_set_conv_nth)
    obtain k' s where si: "shape ! i = (k', s)" by (cases "shape ! i")
    from i list_all2_lengthD [OF all] si have ks: "(k', s) \<in> set shape" by (metis nth_mem)
    from list_all2_nthD2 [OF all i(1)] si i(2)
    have x: "\<exists>x. zod_parse fmt s (jprop v k') = Some x \<and> m = strict_member kvs k' x" by simp
    with that(2) have y: "zod_parse fmt s (jprop v k') = Some y" and m: "m = strict_member kvs k' y"
      by (auto simp: strict_member_def split: if_splits)
    have jp: "json_wf (jprop v k') \<and> (encodable (jprop v k') \<or> jprop v k' = JUndefined)"
      using ZStrict.prems(2,3) v by (auto simp: jprop_def split: option.split dest: map_of_SomeD)
    from ks ZStrict.prems(1) have "stable fmt s" by (auto simp: list_all_iff)
    with ZStrict.IH [of "(k', s)" s "jprop v k'" y] ks jp y
    have r: "json_wf y \<and> (encodable y \<or> y = JUndefined \<and> jprop v k' = JUndefined)" by auto
    moreover have "map_of kvs k' \<noteq> Some JUndefined"
      using v ZStrict.prems(2) by (auto dest!: map_of_SomeD)
    then have "jprop v k' \<noteq> JUndefined \<or> y \<noteq> JUndefined"
      using that(2) m v by (auto simp: strict_member_def jprop_def split: if_splits option.splits)
    ultimately show ?thesis by auto
  qed
  with w dist show ?case by auto
next
  case (ZUnion ss)
  from zod_union_member [OF ZUnion.prems(4)] obtain s
    where "s \<in> set ss" "zod_parse fmt s v = Some w" by blast
  moreover from this ZUnion.prems(1) have "stable fmt s" by (simp add: list_all_iff)
  ultimately show ?case using ZUnion.IH [of s v w] ZUnion.prems(2,3) by blast
qed (auto split: json.splits if_splits option.splits)

end
