(* ===== verification/Mlp3_Schema.thy ===== *)
theory Mlp3_Schema
  imports Zod
begin

text \<open>
  The MLP/3 command schema of \<open>packages/protocol/src/mlp-v3.ts\<close> with every schema it is built from
  (\<open>schema.ts\<close>, \<open>conversation-reference.ts\<close>, \<open>extension-crypto.ts\<close>, \<open>batch-archive.ts\<close>), and the
  event, pointer and project-key schemas around it. Each definition is the schema value of the
  source, combinator by combinator; refinements are predicates on the parsed value. The regular
  expressions of the source are predicates on strings. \<open>new URL\<close> is the platform's, the argument
  \<open>new_URL\<close>. The payload schema of events is the argument \<open>payload\<close> of \<open>mlp3EventSchema\<close>.
\<close>

section \<open>JavaScript helpers of the refinements\<close>

fun truthy :: "json \<Rightarrow> bool" where
  "truthy JNull = False"
| "truthy JUndefined = False"
| "truthy (JBool b) = b"
| "truthy (JNum n) = (n \<noteq> 0)"
| "truthy (JStr s) = (s \<noteq> [])"
| "truthy JNonFinite = True" \<comment> \<open>an infinity; parsed values hold neither infinities nor NaN\<close>
| "truthy (JArr xs) = True"
| "truthy (JObj kvs) = True"

fun items_of :: "json \<Rightarrow> json list" where
  "items_of (JArr xs) = xs"
| "items_of _ = []"

fun entries_of :: "json \<Rightarrow> (string \<times> json) list" where
  "entries_of (JObj kvs) = kvs"
| "entries_of _ = []"

text \<open>\<open>value?.length ?? 0\<close> of an optional array, and \<open>value.length\<close> of a string.\<close>

definition optional_length :: "json \<Rightarrow> nat" where
  "optional_length v = length (items_of v)"

definition string_length :: "json \<Rightarrow> nat" where
  "string_length v = (case v of JStr s \<Rightarrow> length s | _ \<Rightarrow> 0)"

text \<open>\<open>JSON.stringify(value).length\<close> of a parsed value: insertion order, no spaces.\<close>

definition stringify_length :: "json \<Rightarrow> nat" where
  "stringify_length v = length (render v)"

definition some_field_defined :: "json \<Rightarrow> bool" where
  "some_field_defined v = list_ex (\<lambda>(k, x). x \<noteq> JUndefined) (entries_of v)"

section \<open>Regular expressions\<close>

definition alpha :: "char \<Rightarrow> bool" where
  "alpha c \<longleftrightarrow> CHR ''A'' \<le> c \<and> c \<le> CHR ''Z'' \<or> CHR ''a'' \<le> c \<and> c \<le> CHR ''z''"

definition digit :: "char \<Rightarrow> bool" where
  "digit c \<longleftrightarrow> CHR ''0'' \<le> c \<and> c \<le> CHR ''9''"

definition base64url_char :: "char \<Rightarrow> bool" where
  "base64url_char c \<longleftrightarrow> alpha c \<or> digit c \<or> c = CHR ''_'' \<or> c = CHR ''-''"

definition base64url_regex :: "string \<Rightarrow> bool" where
  "base64url_regex s \<longleftrightarrow> s \<noteq> [] \<and> list_all base64url_char s"

definition base64url_exactly :: "nat \<Rightarrow> string \<Rightarrow> bool" where
  "base64url_exactly n s \<longleftrightarrow> length s = n \<and> list_all base64url_char s"

definition identifier_regex :: "string \<Rightarrow> bool" where
  "identifier_regex s \<longleftrightarrow> (case s of [] \<Rightarrow> False
     | c # cs \<Rightarrow> (alpha c \<or> digit c) \<and> list_all (\<lambda>d. base64url_char d \<or> d = CHR ''.'') cs)"

definition releaseId_regex :: "string \<Rightarrow> bool" where
  "releaseId_regex s \<longleftrightarrow> identifier_regex s \<and> length s \<le> 128"

definition totp_regex :: "string \<Rightarrow> bool" where
  "totp_regex s \<longleftrightarrow> length s = 6 \<and> list_all digit s"

definition mxc_char :: "char \<Rightarrow> bool" where
  "mxc_char c \<longleftrightarrow> c \<noteq> CHR ''/'' \<and> \<not> js_space c"

definition mxc_regex :: "string \<Rightarrow> bool" where
  "mxc_regex s \<longleftrightarrow> take 6 s = ''mxc://'' \<and>
     (let r = drop 6 s; rest = dropWhile mxc_char r in
      takeWhile mxc_char r \<noteq> [] \<and>
      (case rest of [] \<Rightarrow> False | c # m \<Rightarrow> c = CHR ''/'' \<and> m \<noteq> [] \<and> list_all mxc_char m))"

section \<open>Common fields\<close>

definition opaqueId :: zschema where
  "opaqueId = ZString [Str_min 1, Str_max 256]"

definition text_schema :: "nat \<Rightarrow> zschema" where
  "text_schema n = ZString [Str_min 1, Str_max n]"

definition requiredProjectId :: zschema where
  "requiredProjectId = ZString [Str_min 1, Str_max 256]"

definition requiredSessionId :: zschema where
  "requiredSessionId = ZString [Str_min 1, Str_max 256]"

definition matrixRoomId :: zschema where
  "matrixRoomId = ZString [Str_min 1, Str_max 512]"

definition matrixEventId :: zschema where
  "matrixEventId = ZString [Str_min 1, Str_max 512]"

definition timestamp :: zschema where
  "timestamp = ZNumber [Num_int, Num_nonnegative]"

definition base64Url :: "str_check list \<Rightarrow> zschema" where
  "base64Url cs = ZString (Str_regex base64url_regex # cs)"

definition literal :: "string \<Rightarrow> zschema" where
  "literal s = ZLiteral (JStr s)"

lemmas field_defs = opaqueId_def text_schema_def requiredProjectId_def requiredSessionId_def
  matrixRoomId_def matrixEventId_def timestamp_def base64Url_def literal_def

section \<open>\<open>schema.ts\<close>: controls, extensions, attachments, signatures\<close>

definition MAX_MALINK_ATTACHMENT_BYTES :: int where
  "MAX_MALINK_ATTACHMENT_BYTES = 50 * 1024 * 1024"

definition providerControlIdSchema :: zschema where
  "providerControlIdSchema = ZString [Str_min 1, Str_max 128, Str_regex identifier_regex]"

definition providerControlValueSchema :: zschema where
  "providerControlValueSchema = ZUnion [ZString [Str_max 4096], ZBoolean]"

definition providerControlValuesSchema :: zschema where
  "providerControlValuesSchema =
     ZRefine
       (ZRefine (ZRecord providerControlIdSchema providerControlValueSchema)
         (\<lambda>values. length (entries_of values) \<le> 64))
       (\<lambda>values. stringify_length values \<le> 32 * 1024)"

definition sessionExtensionConfigSchema :: zschema where
  "sessionExtensionConfigSchema =
     ZRefine
       (ZRefine (ZRecord (ZString [Str_min 1, Str_max 128]) ZJsonValue)
         (\<lambda>config. length (entries_of config) \<le> 32))
       (\<lambda>config. stringify_length config \<le> 32 * 1024)"

definition sessionExtensionBindingSchema :: zschema where
  "sessionExtensionBindingSchema = ZStrict
     [(''id'', opaqueId),
      (''config'', ZOptional sessionExtensionConfigSchema)]"

definition encryptedMediaSchema :: zschema where
  "encryptedMediaSchema = ZStrict
     [(''url'', ZString [Str_regex mxc_regex]),
      (''key'', ZString [Str_regex (base64url_exactly 43)]),
      (''iv'', ZString [Str_regex (base64url_exactly 16)]),
      (''sha256'', ZString [Str_regex (base64url_exactly 43)]),
      (''size'', ZNumber [Num_int, Num_positive, Num_max (MAX_MALINK_ATTACHMENT_BYTES + 16)])]"

definition attachmentSchema :: zschema where
  "attachmentSchema = ZStrict
     [(''id'', opaqueId),
      (''name'', text_schema 1024),
      (''mimeType'', text_schema 256),
      (''size'', ZNumber [Num_int, Num_nonnegative, Num_max MAX_MALINK_ATTACHMENT_BYTES]),
      (''sha256'', ZString [Str_regex (base64url_exactly 43)]),
      (''media'', encryptedMediaSchema)]"

definition attachmentsSchema :: zschema where
  "attachmentsSchema = ZOptional (ZArray attachmentSchema [Arr_max 10])"

definition signatureSchema :: zschema where
  "signatureSchema = ZStrict
     [(''algorithm'', literal ''ES256''),
      (''keyId'', opaqueId),
      (''value'', ZString [Str_regex base64url_regex])]"

section \<open>\<open>conversation-reference.ts\<close>, \<open>extension-crypto.ts\<close>, \<open>batch-archive.ts\<close>\<close>

definition conversationReferenceSchema :: zschema where
  "conversationReferenceSchema =
     ZRefine
       (ZStrict
         [(''id'', ZString [Str_format ''uuid'']),
          (''sessionId'', text_schema 256),
          (''title'', text_schema 512),
          (''kind'', ZEnum [''session'', ''message'']),
          (''messageId'', ZOptional (text_schema 512)),
          (''text'', ZOptional (ZString [Str_max 12000]))])
       (\<lambda>value.
          \<not> (jprop value ''kind'' = JStr ''message''
             \<and> (\<not> truthy (jprop value ''messageId'') \<or> \<not> truthy (jprop value ''text'')))
        \<and> \<not> (jprop value ''kind'' = JStr ''session''
             \<and> (jprop value ''messageId'' \<noteq> JUndefined \<or> jprop value ''text'' \<noteq> JUndefined)))"

definition conversationReferencesSchema :: zschema where
  "conversationReferencesSchema =
     ZRefine (ZArray conversationReferenceSchema [Arr_max 8])
       (\<lambda>values. distinct (map (\<lambda>v. jprop v ''id'') (items_of values)))"

definition extensionCryptoGrantRequestSchema :: zschema where
  "extensionCryptoGrantRequestSchema = ZStrict
     [(''operation'', literal ''extension.crypto.grant''),
      (''extensionId'', text_schema 256),
      (''requestId'', text_schema 256),
      (''recipientPublicKey'', base64Url [Str_min 100, Str_max 600])]"

definition batchArchiveTargetSchema :: zschema where
  "batchArchiveTargetSchema = ZStrict
     [(''projectId'', text_schema 512), (''sessionId'', text_schema 512)]"

definition batchArchiveRequestSchema :: zschema where
  "batchArchiveRequestSchema =
     ZRefine
       (ZStrict
         [(''operation'', literal ''session.archive.batch''),
          (''targets'', ZArray batchArchiveTargetSchema [Arr_min 1, Arr_max 100])])
       (\<lambda>value. distinct (map (\<lambda>t. render (JArr [jprop t ''projectId'', jprop t ''sessionId'']))
          (items_of (jprop value ''targets''))))"

section \<open>Command payloads of \<open>mlp-v3.ts\<close>\<close>

text \<open>The properties of a WHATWG \<open>URL\<close> the sources read.\<close>

record url =
  url_protocol :: string
  url_username :: string
  url_password :: string
  url_hash :: string

type_synonym url_parser = "string \<Rightarrow> url option"

definition credential_free_https :: "url_parser \<Rightarrow> json \<Rightarrow> bool" where
  "credential_free_https new_URL value =
     (case value of
        JStr s \<Rightarrow> (case new_URL s of
            None \<Rightarrow> False
          | Some endpoint \<Rightarrow> url_protocol endpoint = ''https:'' \<and> url_username endpoint = []
              \<and> url_password endpoint = [] \<and> url_hash endpoint = [])
      | _ \<Rightarrow> False)"

definition webPushSubscriptionSchema :: "url_parser \<Rightarrow> zschema" where
  "webPushSubscriptionSchema new_URL = ZStrict
     [(''endpoint'', ZRefine (ZString [Str_format ''url'', Str_max 4096]) (credential_free_https new_URL)),
      (''expirationTime'', ZOptional (ZNullable timestamp)),
      (''keys'', ZStrict
         [(''p256dh'', base64Url [Str_min 32, Str_max 256]),
          (''auth'', base64Url [Str_min 16, Str_max 128])])]"

definition permissionModeSchema :: zschema where
  "permissionModeSchema = ZEnum [''default'', ''accept_edits'', ''plan'', ''bypass_permissions'']"

definition extensionBindingsSchema :: zschema where
  "extensionBindingsSchema = ZOptional (ZArray sessionExtensionBindingSchema [Arr_max 8])"

definition sessionSettingsPatchSchema :: zschema where
  "sessionSettingsPatchSchema =
     ZRefine
       (ZStrict
         [(''title'', ZOptional (text_schema 512)),
          (''model'', ZOptional (ZNullable (text_schema 256))),
          (''reasoningEffort'', ZOptional (ZNullable (text_schema 64))),
          (''permissionMode'', ZOptional permissionModeSchema),
          (''extensions'', extensionBindingsSchema),
          (''controls'', ZOptional providerControlValuesSchema)])
       some_field_defined"

definition initialPromptSchema :: zschema where
  "initialPromptSchema = ZOptional (ZStrict
     [(''text'', ZString []),
      (''attachments'', attachmentsSchema)])"

definition sessionCreatePayloadSchema :: zschema where
  "sessionCreatePayloadSchema =
     ZRefine
       (ZStrict
         [(''operation'', literal ''session.create''),
          (''scope'', ZOptional (ZEnum [''project'', ''scratch''])),
          (''title'', ZOptional (text_schema 512)),
          (''model'', ZOptional (text_schema 256)),
          (''provider'', ZOptional (text_schema 256)),
          (''providerSessionId'', ZOptional opaqueId),
          (''forkFromSessionId'', ZOptional opaqueId),
          (''reasoningEffort'', ZOptional (text_schema 64)),
          (''permissionMode'', ZOptional permissionModeSchema),
          (''extensions'', extensionBindingsSchema),
          (''controls'', ZOptional providerControlValuesSchema),
          (''initialPrompt'', initialPromptSchema)])
       (\<lambda>value.
          \<not> (truthy (jprop value ''forkFromSessionId'')
             \<and> (truthy (jprop value ''providerSessionId'') \<or> truthy (jprop value ''initialPrompt'')
                \<or> jprop value ''scope'' = JStr ''scratch''))
        \<and> \<not> (truthy (jprop value ''initialPrompt'')
             \<and> string_length (jprop (jprop value ''initialPrompt'') ''text'') = 0
             \<and> optional_length (jprop (jprop value ''initialPrompt'') ''attachments'') = 0))"

definition promptSubmitPayloadSchema :: zschema where
  "promptSubmitPayloadSchema =
     ZRefine
       (ZStrict
         [(''operation'', literal ''prompt.submit''),
          (''references'', ZOptional conversationReferencesSchema),
          (''text'', ZString []),
          (''attachments'', attachmentsSchema)])
       (\<lambda>value. string_length (jprop value ''text'') > 0
          \<or> optional_length (jprop value ''attachments'') > 0)"

definition turnCancelPayloadSchema :: zschema where
  "turnCancelPayloadSchema = ZStrict [(''operation'', literal ''turn.cancel''), (''turnId'', opaqueId)]"

definition decisionAnswerPayloadSchema :: zschema where
  "decisionAnswerPayloadSchema = ZStrict
     [(''operation'', literal ''decision.answer''),
      (''requestId'', opaqueId),
      (''decision'', text_schema 256),
      (''totp'', ZOptional (ZString [Str_regex totp_regex]))]"

definition artifactMaterializePayloadSchema :: zschema where
  "artifactMaterializePayloadSchema = ZStrict
     [(''operation'', literal ''artifact.materialize''),
      (''referenceId'', opaqueId),
      (''expectedStatRevision'', opaqueId)]"

definition sessionUpdatePayloadSchema :: zschema where
  "sessionUpdatePayloadSchema = ZStrict
     [(''operation'', literal ''session.update''), (''patch'', sessionSettingsPatchSchema)]"

definition sessionLifecyclePayloadSchema :: zschema where
  "sessionLifecyclePayloadSchema = ZStrict
     [(''operation'', literal ''session.set_lifecycle''),
      (''state'', ZEnum [''active'', ''archived'', ''deleted''])]"

definition lifetimeMsSchema :: zschema where
  "lifetimeMsSchema = ZOptional (ZNumber [Num_int, Num_min 30000, Num_max (10 * 60000)])"

definition deviceInvitationPayloadSchema :: zschema where
  "deviceInvitationPayloadSchema = ZStrict
     [(''operation'', literal ''device.invitation.create''), (''lifetimeMs'', lifetimeMsSchema)]"

definition gatewayEnrollmentInvitationPayloadSchema :: zschema where
  "gatewayEnrollmentInvitationPayloadSchema = ZStrict
     [(''operation'', literal ''gateway.enrollment.invitation.create''),
      (''lifetimeMs'', lifetimeMsSchema)]"

definition gatewayEnrollmentApprovePayloadSchema :: zschema where
  "gatewayEnrollmentApprovePayloadSchema = ZStrict
     [(''operation'', literal ''gateway.enrollment.approve''), (''enrollmentId'', opaqueId)]"

definition gatewayEnrollmentCancelPayloadSchema :: zschema where
  "gatewayEnrollmentCancelPayloadSchema = ZStrict
     [(''operation'', literal ''gateway.enrollment.cancel''), (''enrollmentId'', opaqueId)]"

definition gatewayProfileUpdatePayloadSchema :: zschema where
  "gatewayProfileUpdatePayloadSchema = ZStrict
     [(''operation'', literal ''gateway.profile.update''),
      (''gatewayNodeId'', opaqueId),
      (''gatewayName'', ZString [Str_trim, Str_min 1, Str_max 128])]"

definition gatewayRetirePayloadSchema :: zschema where
  "gatewayRetirePayloadSchema = ZStrict
     [(''operation'', literal ''gateway.retire''),
      (''gatewayNodeId'', opaqueId),
      (''expectedDirectoryRevision'', ZNumber [Num_int, Num_nonnegative]),
      (''expectedGatewayKeyId'', base64Url [Str_length 43])]"

definition projectCreatePayloadSchema :: zschema where
  "projectCreatePayloadSchema = ZStrict
     [(''operation'', literal ''project.create''),
      (''name'', text_schema 256),
      (''cwd'', text_schema 8192),
      (''provider'', ZOptional (text_schema 256)),
      (''createDirectory'', ZOptional ZBoolean)]"

definition projectUpdatePayloadSchema :: zschema where
  "projectUpdatePayloadSchema = ZStrict
     [(''operation'', literal ''project.update''),
      (''patch'',
        ZRefine
          (ZStrict
            [(''name'', ZOptional (ZString [Str_trim, Str_min 1, Str_max 256])),
             (''model'', ZOptional (ZNullable (text_schema 256))),
             (''reasoningEffort'', ZOptional (ZNullable (text_schema 64))),
             (''defaultExtensions'', extensionBindingsSchema),
             (''controls'', ZOptional providerControlValuesSchema)])
          some_field_defined)]"

definition projectDeletePayloadSchema :: zschema where
  "projectDeletePayloadSchema = ZStrict [(''operation'', literal ''project.delete'')]"

definition providerSessionsListPayloadSchema :: zschema where
  "providerSessionsListPayloadSchema = ZStrict
     [(''operation'', literal ''provider.sessions.list''),
      (''provider'', text_schema 256),
      (''cursor'', ZOptional (text_schema 4096))]"

definition providerSessionInspectPayloadSchema :: zschema where
  "providerSessionInspectPayloadSchema = ZStrict
     [(''operation'', literal ''provider.session.inspect''),
      (''provider'', text_schema 256),
      (''providerSessionId'', opaqueId)]"

definition providerHistoryMaterializePayloadSchema :: zschema where
  "providerHistoryMaterializePayloadSchema = ZStrict
     [(''operation'', literal ''provider.history.materialize''),
      (''expectedFrontier'', ZNumber [Num_int, Num_nonnegative]),
      (''limit'', ZOptional (ZNumber [Num_int, Num_min 1, Num_max 100]))]"

definition notificationSubscribePayloadSchema :: "url_parser \<Rightarrow> zschema" where
  "notificationSubscribePayloadSchema new_URL = ZStrict
     [(''operation'', literal ''notification.subscribe''),
      (''subscription'', webPushSubscriptionSchema new_URL)]"

definition notificationUnsubscribePayloadSchema :: zschema where
  "notificationUnsubscribePayloadSchema = ZStrict
     [(''operation'', literal ''notification.unsubscribe''),
      (''endpoint'', ZOptional (ZString [Str_format ''url'', Str_max 4096]))]"

definition releaseIdSchema :: zschema where
  "releaseIdSchema = ZString [Str_regex releaseId_regex]"

definition gatewayUpdateStagePayloadSchema :: zschema where
  "gatewayUpdateStagePayloadSchema = ZStrict
     [(''operation'', literal ''gateway.update.stage''), (''releaseId'', releaseIdSchema)]"

definition gatewayUpdateApplyPayloadSchema :: zschema where
  "gatewayUpdateApplyPayloadSchema = ZStrict
     [(''operation'', literal ''gateway.update.apply''),
      (''releaseId'', releaseIdSchema),
      (''mode'', ZDefault (ZEnum [''when_idle'', ''force'']) (JStr ''when_idle'')),
      (''allowForwardOnly'', ZOptional (ZLiteral (JBool True))),
      (''executionGeneration'', ZOptional (ZNumber [Num_int, Num_nonnegative]))]"

definition gatewayUpdateStatusPayloadSchema :: zschema where
  "gatewayUpdateStatusPayloadSchema = ZStrict
     [(''operation'', literal ''gateway.update.status''),
      (''includeExecutionTracks'', ZOptional (ZLiteral (JBool True))),
      (''includeOperationCapabilities'', ZOptional (ZLiteral (JBool True)))]"

definition gatewayUpdatePreparePayloadSchema :: zschema where
  "gatewayUpdatePreparePayloadSchema = ZStrict
     [(''operation'', literal ''gateway.update.prepare''), (''releaseId'', releaseIdSchema)]"

definition gatewayUpdatePromotePayloadSchema :: zschema where
  "gatewayUpdatePromotePayloadSchema = ZStrict
     [(''operation'', literal ''gateway.update.promote''),
      (''updateId'', opaqueId),
      (''mode'', ZDefault (ZEnum [''when_idle'', ''force'']) (JStr ''when_idle''))]"

definition gatewayUpdateDiscardPayloadSchema :: zschema where
  "gatewayUpdateDiscardPayloadSchema = ZStrict
     [(''operation'', literal ''gateway.update.discard''), (''updateId'', opaqueId)]"

definition gatewayDeploymentStatusPayloadSchema :: zschema where
  "gatewayDeploymentStatusPayloadSchema = ZStrict [(''operation'', literal ''gateway.deployment.status'')]"

definition gatewayRestartPayloadSchema :: zschema where
  "gatewayRestartPayloadSchema = ZStrict
     [(''operation'', literal ''gateway.restart''), (''mode'', ZEnum [''when_idle'', ''force''])]"

definition gatewayRestartStatusPayloadSchema :: zschema where
  "gatewayRestartStatusPayloadSchema = ZStrict [(''operation'', literal ''gateway.restart.status'')]"

section \<open>\<open>mlp3CommandSchema\<close>\<close>

definition MALINK_PROTOCOL_VERSION :: int where
  "MALINK_PROTOCOL_VERSION = 3"

definition commandCommon :: "(string \<times> zschema) list" where
  "commandCommon =
     [(''kind'', literal ''malink.command''),
      (''version'', ZLiteral (JNum MALINK_PROTOCOL_VERSION)),
      (''commandId'', opaqueId),
      (''workspaceId'', opaqueId),
      (''deviceId'', opaqueId),
      (''certificateId'', opaqueId),
      (''createdAt'', timestamp)]"

definition projectCommandCommon :: "(string \<times> zschema) list" where
  "projectCommandCommon = commandCommon @ [(''projectId'', requiredProjectId)]"

definition sessionCommandCommon :: "(string \<times> zschema) list" where
  "sessionCommandCommon = projectCommandCommon @ [(''sessionId'', requiredSessionId)]"

text \<open>The four forms of the members of the union: the scope fields, then operation and payload.\<close>

definition project_command :: "string \<Rightarrow> zschema \<Rightarrow> zschema" where
  "project_command operation payload = ZStrict (projectCommandCommon @
     [(''sessionId'', ZOptional ZUndefined), (''operation'', literal operation), (''payload'', payload)])"

definition session_command :: "string \<Rightarrow> zschema \<Rightarrow> zschema" where
  "session_command operation payload = ZStrict (sessionCommandCommon @
     [(''operation'', literal operation), (''payload'', payload)])"

definition workspace_command :: "string \<Rightarrow> zschema \<Rightarrow> zschema" where
  "workspace_command operation payload = ZStrict (commandCommon @
     [(''projectId'', ZOptional opaqueId), (''sessionId'', ZOptional opaqueId),
      (''operation'', literal operation), (''payload'', payload)])"

definition batch_command :: "string \<Rightarrow> zschema \<Rightarrow> zschema" where
  "batch_command operation payload = ZStrict (commandCommon @
     [(''projectId'', opaqueId), (''sessionId'', ZOptional ZNever),
      (''operation'', literal operation), (''payload'', payload)])"

definition mlp3CommandMembers :: "url_parser \<Rightarrow> zschema list" where
  "mlp3CommandMembers new_URL =
     [session_command ''session.create'' sessionCreatePayloadSchema,
      session_command ''prompt.submit'' promptSubmitPayloadSchema,
      project_command ''project.create'' projectCreatePayloadSchema,
      project_command ''project.update'' projectUpdatePayloadSchema,
      project_command ''project.delete'' projectDeletePayloadSchema,
      project_command ''extension.crypto.grant'' extensionCryptoGrantRequestSchema,
      project_command ''provider.sessions.list'' providerSessionsListPayloadSchema,
      project_command ''provider.session.inspect'' providerSessionInspectPayloadSchema,
      session_command ''provider.history.materialize'' providerHistoryMaterializePayloadSchema,
      session_command ''turn.cancel'' turnCancelPayloadSchema,
      session_command ''decision.answer'' decisionAnswerPayloadSchema,
      session_command ''artifact.materialize'' artifactMaterializePayloadSchema,
      session_command ''session.update'' sessionUpdatePayloadSchema,
      session_command ''session.set_lifecycle'' sessionLifecyclePayloadSchema,
      batch_command ''session.archive.batch'' batchArchiveRequestSchema,
      workspace_command ''device.invitation.create'' deviceInvitationPayloadSchema,
      workspace_command ''gateway.enrollment.invitation.create'' gatewayEnrollmentInvitationPayloadSchema,
      workspace_command ''gateway.enrollment.approve'' gatewayEnrollmentApprovePayloadSchema,
      workspace_command ''gateway.enrollment.cancel'' gatewayEnrollmentCancelPayloadSchema,
      project_command ''gateway.profile.update'' gatewayProfileUpdatePayloadSchema,
      project_command ''gateway.retire'' gatewayRetirePayloadSchema,
      project_command ''notification.subscribe'' (notificationSubscribePayloadSchema new_URL),
      project_command ''notification.unsubscribe'' notificationUnsubscribePayloadSchema,
      project_command ''gateway.update.stage'' gatewayUpdateStagePayloadSchema,
      project_command ''gateway.update.apply'' gatewayUpdateApplyPayloadSchema,
      project_command ''gateway.update.status'' gatewayUpdateStatusPayloadSchema,
      project_command ''gateway.update.prepare'' gatewayUpdatePreparePayloadSchema,
      project_command ''gateway.update.promote'' gatewayUpdatePromotePayloadSchema,
      project_command ''gateway.update.discard'' gatewayUpdateDiscardPayloadSchema,
      project_command ''gateway.deployment.status'' gatewayDeploymentStatusPayloadSchema,
      project_command ''gateway.restart'' gatewayRestartPayloadSchema,
      project_command ''gateway.restart.status'' gatewayRestartStatusPayloadSchema]"

definition mlp3CommandSchema :: "url_parser \<Rightarrow> zschema" where
  "mlp3CommandSchema new_URL = ZUnion (mlp3CommandMembers new_URL)"

definition signedMlp3CommandSchema :: "url_parser \<Rightarrow> zschema" where
  "signedMlp3CommandSchema new_URL = ZStrict
     [(''command'', mlp3CommandSchema new_URL), (''signature'', signatureSchema)]"

section \<open>Events, pointers, content envelopes and project keys\<close>

definition mlp3EventSchema :: "zschema \<Rightarrow> zschema" where
  "mlp3EventSchema payload = ZStrict
     [(''kind'', literal ''malink.event''),
      (''version'', ZLiteral (JNum MALINK_PROTOCOL_VERSION)),
      (''eventId'', opaqueId),
      (''workspaceId'', opaqueId),
      (''projectId'', ZOptional opaqueId),
      (''sessionId'', ZOptional opaqueId),
      (''occurredAt'', timestamp),
      (''causationCommandId'', ZOptional opaqueId),
      (''payload'', payload)]"

definition signedMlp3EventSchema :: "zschema \<Rightarrow> zschema" where
  "signedMlp3EventSchema payload = ZStrict
     [(''event'', mlp3EventSchema payload), (''signature'', signatureSchema)]"

definition mlp3ContentEnvelopeSchema :: zschema where
  "mlp3ContentEnvelopeSchema = ZStrict
     [(''kind'', literal ''malink.project-envelope''),
      (''version'', ZLiteral (JNum MALINK_PROTOCOL_VERSION)),
      (''roomId'', matrixRoomId),
      (''projectId'', opaqueId),
      (''keyId'', opaqueId),
      (''logicalEventId'', opaqueId),
      (''nonce'', base64Url [Str_length 16]),
      (''ciphertext'', base64Url [Str_min 22, Str_max (128 * 1024)])]"

definition mlp3TimelineContentSchema :: zschema where
  "mlp3TimelineContentSchema = ZStrict
     [(''msgtype'', literal ''m.notice''),
      (''body'', literal ''Encrypted Malink event''),
      (''m.new_content'', ZOptional (ZStrict
         [(''msgtype'', literal ''m.notice''), (''body'', literal ''Encrypted Malink event'')])),
      (''m.relates_to'', ZOptional (ZRecord (ZString []) ZJsonValue)),
      (''io.malink'', ZStrict
         [(''version'', ZLiteral (JNum MALINK_PROTOCOL_VERSION)),
          (''envelope'', mlp3ContentEnvelopeSchema)])]"

definition mlp3CurrentPointerDocumentSchema :: zschema where
  "mlp3CurrentPointerDocumentSchema = ZStrict
     [(''kind'', ZEnum [''workspace.current'', ''project.current'']),
      (''version'', ZLiteral (JNum MALINK_PROTOCOL_VERSION)),
      (''workspaceId'', opaqueId),
      (''projectId'', ZOptional opaqueId),
      (''roomId'', matrixRoomId),
      (''eventId'', matrixEventId),
      (''logicalEventId'', opaqueId),
      (''snapshotVersion'', ZNumber [Num_int, Num_positive]),
      (''gatewayKeyId'', opaqueId),
      (''updatedAt'', timestamp)]"

definition mlp3CurrentPointerSchema :: zschema where
  "mlp3CurrentPointerSchema = ZStrict
     [(''document'', mlp3CurrentPointerDocumentSchema), (''signature'', signatureSchema)]"

definition mlp3ProjectKeyGrantEnvelopeSchema :: zschema where
  "mlp3ProjectKeyGrantEnvelopeSchema = ZStrict
     [(''envelope'', ZStrict
        [(''kind'', literal ''malink.project-key-grant-envelope''),
         (''version'', ZLiteral (JNum MALINK_PROTOCOL_VERSION)),
         (''grantId'', opaqueId),
         (''workspaceId'', opaqueId),
         (''projectId'', opaqueId),
         (''roomId'', matrixRoomId),
         (''deviceId'', opaqueId),
         (''certificateId'', opaqueId),
         (''senderKeyId'', base64Url [Str_length 43]),
         (''recipientKeyId'', base64Url [Str_length 43]),
         (''nonce'', base64Url [Str_length 16]),
         (''ciphertext'', base64Url [Str_min 22, Str_max (64 * 1024)])]),
      (''signature'', signatureSchema)]"

definition mlp3ProjectKeyGrantStateSchema :: zschema where
  "mlp3ProjectKeyGrantStateSchema = ZStrict
     [(''kind'', literal ''project.key_grant''),
      (''version'', ZLiteral (JNum MALINK_PROTOCOL_VERSION)),
      (''workspaceId'', opaqueId),
      (''projectId'', opaqueId),
      (''roomId'', matrixRoomId),
      (''deviceId'', opaqueId),
      (''certificateId'', opaqueId),
      (''grantId'', opaqueId),
      (''sealedGrant'', mlp3ProjectKeyGrantEnvelopeSchema)]"

definition mlp3ProjectKeyGrantPlaintextSchema :: zschema where
  "mlp3ProjectKeyGrantPlaintextSchema =
     ZRefine
       (ZStrict
         [(''kind'', literal ''project.key_grant''),
          (''version'', ZLiteral (JNum MALINK_PROTOCOL_VERSION)),
          (''workspaceId'', opaqueId),
          (''projectId'', opaqueId),
          (''roomId'', matrixRoomId),
          (''deviceId'', opaqueId),
          (''certificateId'', opaqueId),
          (''activeKeyId'', opaqueId),
          (''keys'', ZArray (ZStrict
             [(''keyId'', opaqueId),
              (''key'', base64Url [Str_length 43]),
              (''createdAt'', timestamp)]) [Arr_min 1, Arr_max 64])])
       (\<lambda>grant. let ids = map (\<lambda>key. jprop key ''keyId'') (items_of (jprop grant ''keys'')) in
          distinct ids \<and> jprop grant ''activeKeyId'' \<in> set ids)"

section \<open>The version 1 envelope of \<open>schema.ts\<close>\<close>

text \<open>
  \<open>commandSchema\<close> and \<open>eventSchema\<close> around their payload unions \<open>commandPayloadSchema\<close> and
  \<open>eventPayloadSchema\<close>, which are the argument \<open>payload\<close>.
\<close>

definition PROTOCOL_VERSION :: int where
  "PROTOCOL_VERSION = 1"

definition MAX_MALINK_PROMPT_ATTACHMENT_BYTES :: int where
  "MAX_MALINK_PROMPT_ATTACHMENT_BYTES = 100 * 1024 * 1024"

definition num_of :: "json \<Rightarrow> int" where
  "num_of v = (case v of JNum n \<Rightarrow> n | _ \<Rightarrow> 0)"

definition command_refinement :: "json \<Rightarrow> bool" where
  "command_refinement command \<longleftrightarrow>
     jprop command ''operation'' = jprop (jprop command ''payload'') ''operation''
   \<and> num_of (jprop command ''issuedAt'') < num_of (jprop command ''expiresAt'')
   \<and> (jprop (jprop command ''payload'') ''operation'' = JStr ''prompt'' \<longrightarrow>
       (let attachments = items_of (jprop (jprop command ''payload'') ''attachments'') in
          sum_list (map (\<lambda>a. num_of (jprop a ''size'')) attachments) \<le> MAX_MALINK_PROMPT_ATTACHMENT_BYTES
        \<and> \<not> (string_length (jprop (jprop command ''payload'') ''text'') = 0 \<and> attachments = [])))"

definition commandSchema :: "zschema \<Rightarrow> zschema" where
  "commandSchema payload =
     ZRefine
       (ZStrict
         [(''kind'', literal ''malink.command''),
          (''version'', ZLiteral (JNum PROTOCOL_VERSION)),
          (''commandId'', opaqueId),
          (''gatewayId'', opaqueId),
          (''deviceId'', opaqueId),
          (''sequenceEpoch'', opaqueId),
          (''conversationId'', opaqueId),
          (''revisionEpoch'', opaqueId),
          (''sequence'', ZNumber [Num_int, Num_positive]),
          (''baseRevision'', ZNumber [Num_int, Num_nonnegative]),
          (''operation'', ZEnum
            [''prompt'', ''cancel'', ''decision'', ''session.settings'', ''session.create'',
             ''project.settings'', ''project.delete'', ''provider.sessions.list'',
             ''provider.session.inspect'', ''session.archive'', ''session.archive.batch'',
             ''session.restore'', ''session.delete'', ''device.invite'',
             ''gateway.enrollment.invite'', ''gateway.enrollment.approve'',
             ''gateway.enrollment.cancel'', ''gateway.profile.update'', ''gateway.retire'',
             ''gateway.update.stage'', ''gateway.update.apply'', ''gateway.update.status'',
             ''gateway.restart'', ''gateway.restart.status'']),
          (''issuedAt'', timestamp),
          (''expiresAt'', timestamp),
          (''nonce'', ZString [Str_min 16, Str_max 256]),
          (''payload'', payload)])
       command_refinement"

definition signedCommandSchema :: "zschema \<Rightarrow> zschema" where
  "signedCommandSchema payload = ZStrict
     [(''command'', commandSchema payload), (''signature'', signatureSchema)]"

definition eventSchema :: "zschema \<Rightarrow> zschema" where
  "eventSchema payload = ZStrict
     [(''kind'', literal ''malink.event''),
      (''version'', ZLiteral (JNum PROTOCOL_VERSION)),
      (''eventId'', opaqueId),
      (''gatewayId'', opaqueId),
      (''conversationId'', opaqueId),
      (''sequence'', ZNumber [Num_int, Num_positive]),
      (''occurredAt'', timestamp),
      (''causationCommandId'', ZOptional opaqueId),
      (''payload'', payload)]"

definition signedEventSchema :: "zschema \<Rightarrow> zschema" where
  "signedEventSchema payload = ZStrict
     [(''event'', eventSchema payload), (''signature'', signatureSchema)]"

section \<open>Stability\<close>

lemmas payload_defs =
  providerControlIdSchema_def providerControlValueSchema_def providerControlValuesSchema_def
  sessionExtensionConfigSchema_def sessionExtensionBindingSchema_def encryptedMediaSchema_def
  attachmentSchema_def attachmentsSchema_def signatureSchema_def conversationReferenceSchema_def
  conversationReferencesSchema_def extensionCryptoGrantRequestSchema_def
  batchArchiveTargetSchema_def batchArchiveRequestSchema_def webPushSubscriptionSchema_def
  permissionModeSchema_def extensionBindingsSchema_def sessionSettingsPatchSchema_def
  initialPromptSchema_def sessionCreatePayloadSchema_def promptSubmitPayloadSchema_def
  turnCancelPayloadSchema_def decisionAnswerPayloadSchema_def artifactMaterializePayloadSchema_def
  sessionUpdatePayloadSchema_def sessionLifecyclePayloadSchema_def lifetimeMsSchema_def
  deviceInvitationPayloadSchema_def gatewayEnrollmentInvitationPayloadSchema_def
  gatewayEnrollmentApprovePayloadSchema_def gatewayEnrollmentCancelPayloadSchema_def
  gatewayProfileUpdatePayloadSchema_def gatewayRetirePayloadSchema_def
  projectCreatePayloadSchema_def projectUpdatePayloadSchema_def projectDeletePayloadSchema_def
  providerSessionsListPayloadSchema_def providerSessionInspectPayloadSchema_def
  providerHistoryMaterializePayloadSchema_def notificationSubscribePayloadSchema_def
  notificationUnsubscribePayloadSchema_def releaseIdSchema_def gatewayUpdateStagePayloadSchema_def
  gatewayUpdateApplyPayloadSchema_def gatewayUpdateStatusPayloadSchema_def
  gatewayUpdatePreparePayloadSchema_def gatewayUpdatePromotePayloadSchema_def
  gatewayUpdateDiscardPayloadSchema_def gatewayDeploymentStatusPayloadSchema_def
  gatewayRestartPayloadSchema_def gatewayRestartStatusPayloadSchema_def

lemmas member_defs = project_command_def session_command_def workspace_command_def batch_command_def
  projectCommandCommon_def sessionCommandCommon_def commandCommon_def

lemma stable_members_of:
  "stable fmt payload \<Longrightarrow> stable fmt (project_command op payload)"
  "stable fmt payload \<Longrightarrow> stable fmt (session_command op payload)"
  "stable fmt payload \<Longrightarrow> stable fmt (workspace_command op payload)"
  "stable fmt payload \<Longrightarrow> stable fmt (batch_command op payload)"
  by (simp_all add: member_defs field_defs stable_checks_def)

lemma discriminant_members_of [simp]:
  "discriminant ''operation'' (project_command op payload) = Some (JStr op)"
  "discriminant ''operation'' (session_command op payload) = Some (JStr op)"
  "discriminant ''operation'' (workspace_command op payload) = Some (JStr op)"
  "discriminant ''operation'' (batch_command op payload) = Some (JStr op)"
  by (simp_all add: member_defs field_defs)

lemma stable_members: "list_all (stable fmt) (mlp3CommandMembers new_URL)"
  unfolding mlp3CommandMembers_def list.pred_inject
  by (intro conjI TrueI stable_members_of) (simp_all add: payload_defs field_defs stable_checks_def)

lemma discriminated_members: "discriminated ''operation'' (mlp3CommandMembers new_URL)"
  by (simp add: discriminated_def mlp3CommandMembers_def)

lemma stable_mlp3CommandSchema: "stable fmt (mlp3CommandSchema new_URL)"
  unfolding mlp3CommandSchema_def stable.simps using stable_members discriminated_members by blast

lemma stable_signatureSchema: "stable fmt signatureSchema"
  by (simp add: signatureSchema_def field_defs stable_checks_def)

section \<open>Parsed commands\<close>

text \<open>
  C28: parsing a command is idempotent: what \<open>mlp3CommandSchema.parse\<close> returns is accepted again and
  returned unchanged, defaults and trimmed names included.
\<close>

theorem mlp3_command_parse_stable:
  assumes "zod fmt parse" and "parse (mlp3CommandSchema new_URL) v = Some c"
  shows "parse (mlp3CommandSchema new_URL) c = Some c"
  using assms zod_parse_idem [OF stable_mlp3CommandSchema] by (simp only: zod.parse_unique)

fun opaque :: "json \<Rightarrow> bool" where
  "opaque (JStr s) \<longleftrightarrow> 1 \<le> length s \<and> length s \<le> 256"
| "opaque _ \<longleftrightarrow> False"

lemma parse_opaqueId: "zod_parse fmt opaqueId v = Some w \<longleftrightarrow> w = v \<and> opaque v"
  by (cases v) (auto simp: opaqueId_def split: if_splits)

lemma opaque_string: "opaque v \<longleftrightarrow> (\<exists>s. v = JStr s \<and> 1 \<le> length s \<and> length s \<le> 256)"
  by (cases v) auto

definition session_operations :: "string list" where
  "session_operations = [''session.create'', ''prompt.submit'', ''provider.history.materialize'',
     ''turn.cancel'', ''decision.answer'', ''artifact.materialize'', ''session.update'',
     ''session.set_lifecycle'']"

definition workspace_operations :: "string list" where
  "workspace_operations = [''device.invitation.create'', ''gateway.enrollment.invitation.create'',
     ''gateway.enrollment.approve'', ''gateway.enrollment.cancel'']"

text \<open>The scope a command's operation asks for.\<close>

definition scope_ok :: "string \<Rightarrow> json \<Rightarrow> bool" where
  "scope_ok op c \<longleftrightarrow>
     (if op \<in> set session_operations then opaque (jprop c ''projectId'') \<and> opaque (jprop c ''sessionId'')
      else if op \<in> set workspace_operations
        then (jprop c ''projectId'' = JUndefined \<or> opaque (jprop c ''projectId''))
           \<and> (jprop c ''sessionId'' = JUndefined \<or> opaque (jprop c ''sessionId''))
      else opaque (jprop c ''projectId'') \<and> jprop c ''sessionId'' = JUndefined)"

definition common_ok :: "json \<Rightarrow> bool" where
  "common_ok c \<longleftrightarrow> jprop c ''kind'' = JStr ''malink.command'' \<and> jprop c ''version'' = JNum 3
     \<and> opaque (jprop c ''commandId'') \<and> opaque (jprop c ''workspaceId'')
     \<and> opaque (jprop c ''deviceId'') \<and> opaque (jprop c ''certificateId'')
     \<and> (\<exists>t. jprop c ''createdAt'' = JNum t \<and> 0 \<le> t \<and> isSafeInteger t)"

text \<open>A member of the union, seen as its scope fields, its operation and its payload schema.\<close>

definition member_of :: "string \<Rightarrow> zschema \<Rightarrow> zschema \<Rightarrow> bool" where
  "member_of op payload m \<longleftrightarrow>
     (if op \<in> set session_operations then m = session_command op payload
      else if op \<in> set workspace_operations then m = workspace_command op payload
      else m = project_command op payload \<or> m = batch_command op payload)"

definition covered :: "(string \<Rightarrow> string \<Rightarrow> bool) \<Rightarrow> zschema \<Rightarrow> bool" where
  "covered fmt m \<longleftrightarrow> (\<exists>op payload. member_of op payload m
     \<and> discriminant ''operation'' payload = Some (JStr op) \<and> stable fmt payload)"

lemma covered_intros:
  "\<lbrakk> op \<in> set session_operations; discriminant ''operation'' p = Some (JStr op); stable fmt p \<rbrakk>
    \<Longrightarrow> covered fmt (session_command op p)"
  "\<lbrakk> op \<notin> set session_operations; op \<in> set workspace_operations;
     discriminant ''operation'' p = Some (JStr op); stable fmt p \<rbrakk> \<Longrightarrow> covered fmt (workspace_command op p)"
  "\<lbrakk> op \<notin> set session_operations; op \<notin> set workspace_operations;
     discriminant ''operation'' p = Some (JStr op); stable fmt p \<rbrakk> \<Longrightarrow> covered fmt (project_command op p)"
  "\<lbrakk> op \<notin> set session_operations; op \<notin> set workspace_operations;
     discriminant ''operation'' p = Some (JStr op); stable fmt p \<rbrakk> \<Longrightarrow> covered fmt (batch_command op p)"
  by (auto simp: covered_def member_of_def)

lemma members_covered: "list_all (covered fmt) (mlp3CommandMembers new_URL)"
  unfolding mlp3CommandMembers_def list.pred_inject
  by (intro conjI TrueI covered_intros)
    (simp_all add: session_operations_def workspace_operations_def payload_defs field_defs stable_checks_def)

lemma parse_timestamp:
  "zod_parse fmt timestamp v = Some w \<longleftrightarrow> w = v \<and> (\<exists>t. v = JNum t \<and> 0 \<le> t \<and> isSafeInteger t)"
  by (cases v) (auto simp: timestamp_def)

lemma strict_common:
  assumes "zod_parse fmt (ZStrict (commandCommon @ rest)) v = Some c"
    and "distinct (map fst (commandCommon @ rest))"
  shows "common_ok c"
proof -
  note p = strict_parse_prop [OF assms]
  have "(''kind'', literal ''malink.command'') \<in> set (commandCommon @ rest)"
    "(''version'', ZLiteral (JNum 3)) \<in> set (commandCommon @ rest)"
    "(''commandId'', opaqueId) \<in> set (commandCommon @ rest)"
    "(''workspaceId'', opaqueId) \<in> set (commandCommon @ rest)"
    "(''deviceId'', opaqueId) \<in> set (commandCommon @ rest)"
    "(''certificateId'', opaqueId) \<in> set (commandCommon @ rest)"
    "(''createdAt'', timestamp) \<in> set (commandCommon @ rest)"
    by (simp_all add: commandCommon_def MALINK_PROTOCOL_VERSION_def)
  from this [THEN p] show ?thesis
    by (auto simp: common_ok_def literal_def parse_opaqueId parse_timestamp split: if_splits)
qed

lemma parse_optional_id:
  "zod_parse fmt (ZOptional opaqueId) v = Some w \<longleftrightarrow> w = v \<and> (v = JUndefined \<or> opaque v)"
  by (auto simp: parse_opaqueId)

lemma required_ids: "requiredProjectId = opaqueId" "requiredSessionId = opaqueId"
  by (simp_all add: requiredProjectId_def requiredSessionId_def opaqueId_def)

lemma member_form:
  assumes m: "m = ZStrict (commandCommon @ rest)" and st: "stable fmt m" and p: "zod_parse fmt m v = Some c"
    and rest: "(''operation'', literal op) \<in> set rest" "(''payload'', payload) \<in> set rest"
  shows "common_ok c" and "jprop c ''operation'' = JStr op"
    and "zod_parse fmt payload (jprop v ''payload'') = Some (jprop c ''payload'')"
    and "\<And>k s. (k, s) \<in> set rest \<Longrightarrow> zod_parse fmt s (jprop v k) = Some (jprop c k)"
proof -
  have d: "distinct (map fst (commandCommon @ rest))" using st unfolding m stable.simps by blast
  note p' = p [unfolded m]
  show "common_ok c" by (rule strict_common [OF p' d])
  show each: "zod_parse fmt s (jprop v k) = Some (jprop c k)" if "(k, s) \<in> set rest" for k s
    using that by (intro strict_parse_prop [OF p' d]) simp
  from each [OF rest(1)] show "jprop c ''operation'' = JStr op" by (simp add: literal_def split: if_splits)
  from each [OF rest(2)] show "zod_parse fmt payload (jprop v ''payload'') = Some (jprop c ''payload'')" .
qed

text \<open>What the four forms of members put after the common fields.\<close>

definition member_rest :: "string \<Rightarrow> zschema \<Rightarrow> zschema \<Rightarrow> zschema \<Rightarrow> (string \<times> zschema) list" where
  "member_rest op payload project session =
     [(''projectId'', project), (''sessionId'', session), (''operation'', literal op), (''payload'', payload)]"

lemma member_of_cases:
  assumes "member_of op payload m"
  obtains project session where "m = ZStrict (commandCommon @ member_rest op payload project session)"
    and "\<And>v c. \<lbrakk> zod_parse fmt project (jprop v ''projectId'') = Some (jprop c ''projectId'');
         zod_parse fmt session (jprop v ''sessionId'') = Some (jprop c ''sessionId'') \<rbrakk> \<Longrightarrow> scope_ok op c"
proof (cases "op \<in> set session_operations")
  case True
  with assms show thesis
    by (intro that [of opaqueId opaqueId])
      (auto simp: member_of_def session_command_def sessionCommandCommon_def projectCommandCommon_def
        member_rest_def required_ids scope_ok_def parse_opaqueId)
next
  case session: False
  show thesis
  proof (cases "op \<in> set workspace_operations")
    case True
    with session assms show thesis
      by (intro that [of "ZOptional opaqueId" "ZOptional opaqueId"])
        (auto simp: member_of_def workspace_command_def member_rest_def scope_ok_def parse_optional_id
          simp del: zod_parse.simps)
  next
    case False
    with session assms consider "m = project_command op payload" | "m = batch_command op payload"
      by (auto simp: member_of_def)
    then show thesis
    proof cases
      case 1
      with session False show thesis
        by (intro that [of opaqueId "ZOptional ZUndefined"])
          (auto simp: project_command_def projectCommandCommon_def member_rest_def required_ids
            scope_ok_def parse_opaqueId split: if_splits)
    next
      case 2
      with session False show thesis
        by (intro that [of opaqueId "ZOptional ZNever"])
          (auto simp: batch_command_def member_rest_def scope_ok_def parse_opaqueId split: if_splits)
    qed
  qed
qed

lemma zod_command_form:
  assumes "zod_parse fmt (mlp3CommandSchema new_URL) v = Some c"
  shows "common_ok c \<and> (\<exists>op. jprop c ''operation'' = JStr op \<and>
    jprop (jprop c ''payload'') ''operation'' = JStr op \<and> scope_ok op c)"
proof -
  from assms obtain m where mem: "m \<in> set (mlp3CommandMembers new_URL)" and p: "zod_parse fmt m v = Some c"
    unfolding mlp3CommandSchema_def by (blast dest: zod_union_member)
  from mem have st: "stable fmt m" using stable_members [of fmt new_URL] by (simp add: list_all_iff)
  from mem members_covered [of fmt new_URL] have "covered fmt m" by (simp add: list_all_iff)
  then obtain op payload where mo: "member_of op payload m" "stable fmt payload"
    and disc: "discriminant ''operation'' payload = Some (JStr op)" unfolding covered_def by blast
  obtain project session where m: "m = ZStrict (commandCommon @ member_rest op payload project session)"
    and scope: "\<lbrakk> zod_parse fmt project (jprop v ''projectId'') = Some (jprop c ''projectId'');
         zod_parse fmt session (jprop v ''sessionId'') = Some (jprop c ''sessionId'') \<rbrakk> \<Longrightarrow> scope_ok op c"
    using member_of_cases [OF mo(1)] by metis
  have rest: "(''operation'', literal op) \<in> set (member_rest op payload project session)"
    "(''payload'', payload) \<in> set (member_rest op payload project session)"
    by (simp_all add: member_rest_def)
  note form = member_form [OF m st p rest]
  have "scope_ok op c" by (rule scope; rule form(4)) (simp_all add: member_rest_def)
  moreover have "jprop (jprop c ''payload'') ''operation'' = JStr op"
    using zod_parse_discriminant [OF disc mo(2) form(3)] by simp
  ultimately show ?thesis using form(1,2) by blast
qed

text \<open>
  C29: every accepted command has the wire form of MLP/3: kind and version, four identifiers of 1 to
  256 characters, a creation time that is a non-negative safe integer, an operation that is also the
  operation of its payload, and exactly the project and session scope that operation requires.
\<close>

theorem mlp3_command_form:
  assumes "zod fmt parse" and "parse (mlp3CommandSchema new_URL) v = Some c"
  shows "common_ok c \<and> (\<exists>op. jprop c ''operation'' = JStr op \<and>
    jprop (jprop c ''payload'') ''operation'' = JStr op \<and> scope_ok op c)"
  using assms zod_command_form by (simp only: zod.parse_unique)

text \<open>A concrete command: a promotion that leaves its mode to the default.\<close>

definition sample_promote :: json where
  "sample_promote = JObj
     [(''operation'', JStr ''gateway.update.promote''), (''kind'', JStr ''malink.command''),
      (''version'', JNum 3), (''commandId'', JStr ''c1''), (''workspaceId'', JStr ''w''),
      (''deviceId'', JStr ''d''), (''certificateId'', JStr ''e''), (''createdAt'', JNum 5),
      (''projectId'', JStr ''p''),
      (''payload'', JObj [(''updateId'', JStr ''u''), (''operation'', JStr ''gateway.update.promote'')])]"

definition sample_promote_parsed :: json where
  "sample_promote_parsed = JObj
     [(''kind'', JStr ''malink.command''), (''version'', JNum 3), (''commandId'', JStr ''c1''),
      (''workspaceId'', JStr ''w''), (''deviceId'', JStr ''d''), (''certificateId'', JStr ''e''),
      (''createdAt'', JNum 5), (''projectId'', JStr ''p''),
      (''operation'', JStr ''gateway.update.promote''),
      (''payload'', JObj [(''operation'', JStr ''gateway.update.promote''), (''updateId'', JStr ''u''),
         (''mode'', JStr ''when_idle'')])]"

lemma sample_promote_parse:
  "zod_parse fmt (mlp3CommandSchema new_URL) sample_promote = Some sample_promote_parsed"
  unfolding mlp3CommandSchema_def
proof (rule discriminated_union_hit [OF discriminated_members stable_members])
  show "project_command ''gateway.update.promote'' gatewayUpdatePromotePayloadSchema
      \<in> set (mlp3CommandMembers new_URL)"
    by (simp add: mlp3CommandMembers_def)
  show "zod_parse fmt (project_command ''gateway.update.promote'' gatewayUpdatePromotePayloadSchema)
      sample_promote = Some sample_promote_parsed"
    by (simp add: member_defs field_defs gatewayUpdatePromotePayloadSchema_def
      sample_promote_def sample_promote_parsed_def jprop_def known_keys_def strict_member_def
      MALINK_PROTOCOL_VERSION_def isSafeInteger_def max_safe_integer_def)
qed

theorem mlp3_command_parse_stable_witness:
  "zod_parse (\<lambda>_ _. True) (mlp3CommandSchema (\<lambda>_. None)) sample_promote_parsed = Some sample_promote_parsed
   \<and> sample_promote_parsed \<noteq> sample_promote"
  using mlp3_command_parse_stable [OF zod_model.zod_axioms sample_promote_parse]
  by (simp add: sample_promote_def sample_promote_parsed_def)

theorem mlp3_command_form_witness:
  "common_ok sample_promote_parsed \<and> (\<exists>op. jprop sample_promote_parsed ''operation'' = JStr op \<and>
    jprop (jprop sample_promote_parsed ''payload'') ''operation'' = JStr op \<and>
    scope_ok op sample_promote_parsed)"
  by (rule mlp3_command_form [OF zod_model.zod_axioms sample_promote_parse])

end
