(* ===== verification/Encoding.thy ===== *)
theory Encoding
  imports Mlp3_Schema
begin

text \<open>
  Model of \<open>packages/security/src/encoding.ts\<close>: base64url over the platform's \<open>btoa\<close> and \<open>atob\<close>,
  digests and key identifiers. Bytes are natural numbers below 256. \<open>btoa\<close> and \<open>atob\<close> are written
  out as the WHATWG algorithms (sextets of three-byte groups, padding, forgiving decode); a raised
  exception is \<open>None\<close>.
\<close>

section \<open>\<open>btoa\<close> and \<open>atob\<close>\<close>

definition b64_alphabet :: string where
  "b64_alphabet = ''ABCDEFGHIJKLMNOPQRSTUVWXYZabcdefghijklmnopqrstuvwxyz0123456789+/''"

definition b64_char :: "nat \<Rightarrow> char" where
  "b64_char n = b64_alphabet ! n"

fun index_of :: "char \<Rightarrow> string \<Rightarrow> nat option" where
  "index_of c [] = None"
| "index_of c (d # ds) = (if c = d then Some 0 else map_option Suc (index_of c ds))"

definition b64_value :: "char \<Rightarrow> nat option" where
  "b64_value c = index_of c b64_alphabet"

fun sextets :: "nat list \<Rightarrow> nat list" where
  "sextets [] = []"
| "sextets [x] = [x div 4, (x mod 4) * 16]"
| "sextets [x, y] = [x div 4, (x mod 4) * 16 + y div 16, (y mod 16) * 4]"
| "sextets (x # y # z # bs) =
     (x div 4) # ((x mod 4) * 16 + y div 16) # ((y mod 16) * 4 + z div 64) # (z mod 64) # sextets bs"

definition b64_padding :: "nat \<Rightarrow> string" where
  "b64_padding n = replicate ((4 - n mod 4) mod 4) (CHR ''='')"

definition btoa :: "nat list \<Rightarrow> string" where
  "btoa bytes = map b64_char (sextets bytes) @ b64_padding (length (sextets bytes))"

fun octets :: "nat list \<Rightarrow> nat list" where
  "octets (a # b # c # d # ss) =
     (a * 4 + b div 16) # ((b mod 16) * 16 + c div 4) # ((c mod 4) * 64 + d) # octets ss"
| "octets [a, b, c] = [a * 4 + b div 16, (b mod 16) * 16 + c div 4]"
| "octets [a, b] = [a * 4 + b div 16]"
| "octets _ = []"

definition strip_one_padding :: "string \<Rightarrow> string" where
  "strip_one_padding s = (if s \<noteq> [] \<and> last s = CHR ''='' then butlast s else s)"

definition atob :: "string \<Rightarrow> nat list option" where
  "atob s =
     (let t = (if length s mod 4 = 0 then strip_one_padding (strip_one_padding s) else s) in
      if length t mod 4 = 1 then None else map_option octets (those (map b64_value t)))"

section \<open>base64url\<close>

definition url_safe :: "char \<Rightarrow> char" where
  "url_safe c = (if c = CHR ''+'' then CHR ''-'' else if c = CHR ''/'' then CHR ''_'' else c)"

definition url_unsafe :: "char \<Rightarrow> char" where
  "url_unsafe c = (if c = CHR ''-'' then CHR ''+'' else if c = CHR ''_'' then CHR ''/'' else c)"

definition base64UrlEncode :: "nat list \<Rightarrow> string" where
  "base64UrlEncode bytes =
     rev (dropWhile (\<lambda>c. c = CHR ''='') (rev (map url_safe (btoa bytes))))"

definition base64UrlDecode :: "string \<Rightarrow> nat list option" where
  "base64UrlDecode value =
     (if \<not> base64url_regex value then None
      else atob (map url_unsafe value @ b64_padding (length value)))"

section \<open>Digests and key identifiers\<close>

text \<open>\<open>TextEncoder\<close>, and the digest of a string over the platform's SHA-256 \<open>digest\<close>.\<close>

definition utf8 :: "string \<Rightarrow> nat list" where
  "utf8 s = concat (map utf8_char s)"

definition sha256 :: "(nat list \<Rightarrow> nat list) \<Rightarrow> string \<Rightarrow> string" where
  "sha256 digest value = base64UrlEncode (digest (utf8 value))"

text \<open>A JSON web key; \<open>None\<close> is a missing member.\<close>

record jwk =
  jwk_kty :: "string option"
  jwk_crv :: "string option"
  jwk_x :: "string option"
  jwk_y :: "string option"

definition publicKeyId :: "(nat list \<Rightarrow> nat list) \<Rightarrow> jwk \<Rightarrow> string option" where
  "publicKeyId digest k =
     (case (jwk_kty k, jwk_crv k, jwk_x k, jwk_y k) of
        (Some kty, Some crv, Some x, Some y) \<Rightarrow>
          if kty \<noteq> ''EC'' \<or> crv \<noteq> ''P-256'' \<or> x = [] \<or> y = [] then None
          else map_option (sha256 digest)
            (canonicalJson (JObj [(''crv'', JStr crv), (''kty'', JStr kty), (''x'', JStr x), (''y'', JStr y)]))
      | _ \<Rightarrow> None)"

section \<open>Round trip\<close>

abbreviation bytes :: "nat list \<Rightarrow> bool" where
  "bytes bs \<equiv> list_all (\<lambda>b. b < 256) bs"

lemma byte_high_bits:
  assumes "(y::nat) < 256"
  shows "y div 16 div 16 = 0" "y div 16 mod 16 = y div 16" "y div 64 div 4 = 0" "y div 64 mod 4 = y div 64"
proof -
  have "y div 16 < 16" "y div 64 < 4" using assms by (simp_all add: less_mult_imp_div_less)
  then show "y div 16 div 16 = 0" "y div 16 mod 16 = y div 16" "y div 64 div 4 = 0" "y div 64 mod 4 = y div 64"
    by simp_all
qed

lemma octets_sextets: "bytes bs \<Longrightarrow> octets (sextets bs) = bs"
  by (induction bs rule: sextets.induct) (simp_all add: byte_high_bits)

lemma sextets_bound: "bytes bs \<Longrightarrow> list_all (\<lambda>n. n < 64) (sextets bs)"
  by (induction bs rule: sextets.induct) (auto simp: less_mult_imp_div_less)

lemma sextets_length: "length (sextets bs) mod 4 \<noteq> 1"
  by (induction bs rule: sextets.induct) simp_all

lemma sextets_nonempty: "bs \<noteq> [] \<Longrightarrow> sextets bs \<noteq> []"
  by (cases bs rule: sextets.cases) simp_all

lemma b64_all: "list_all (\<lambda>n. b64_value (b64_char n) = Some n \<and> url_unsafe (url_safe (b64_char n)) = b64_char n
    \<and> base64url_char (url_safe (b64_char n)) \<and> url_safe (b64_char n) \<noteq> CHR ''='' \<and> b64_char n \<noteq> CHR ''='')
    [0..<64]"
  by code_simp

lemma b64_char_facts:
  assumes "n < 64"
  shows "b64_value (b64_char n) = Some n" "url_unsafe (url_safe (b64_char n)) = b64_char n"
    "base64url_char (url_safe (b64_char n))" "url_safe (b64_char n) \<noteq> CHR ''=''" "b64_char n \<noteq> CHR ''=''"
  using b64_all assms by (auto simp: list_all_iff)

lemma strip_padding_char [simp]: "strip_one_padding (s @ [CHR ''='']) = s"
  by (simp add: strip_one_padding_def)

lemma strip_no_padding: "list_all (\<lambda>n. n < 64) ss \<Longrightarrow> strip_one_padding (map b64_char ss) = map b64_char ss"
  by (cases ss rule: rev_cases) (auto simp: strip_one_padding_def b64_char_facts)

lemma those_b64_value: "list_all (\<lambda>n. n < 64) ss \<Longrightarrow> those (map b64_value (map b64_char ss)) = Some ss"
  by (induction ss) (auto simp: b64_char_facts)

lemma atob_padded:
  assumes "list_all (\<lambda>n. n < 64) ss" "length ss mod 4 \<noteq> 1"
  shows "atob (map b64_char ss @ b64_padding (length ss)) = Some (octets ss)"
proof -
  let ?s = "map b64_char ss @ b64_padding (length ss)"
  have "length ss mod 4 < 4" by simp
  with assms(2) consider "length ss mod 4 = 0" | "length ss mod 4 = 2" | "length ss mod 4 = 3" by linarith
  then have "length ?s mod 4 = 0 \<and> strip_one_padding (strip_one_padding ?s) = map b64_char ss"
  proof cases
    case 1
    then show ?thesis using assms(1) by (simp add: b64_padding_def strip_no_padding)
  next
    case 2
    then have p: "b64_padding (length ss) = [CHR ''='', CHR ''='']"
      by (simp add: b64_padding_def numeral_2_eq_2)
    have "?s = (map b64_char ss @ [CHR ''='']) @ [CHR ''='']" by (simp add: p)
    then have "strip_one_padding ?s = map b64_char ss @ [CHR ''='']" by (simp only: strip_padding_char)
    then show ?thesis using 2 by (simp add: p) presburger
  next
    case 3
    then have "b64_padding (length ss) = [CHR ''='']" by (simp add: b64_padding_def)
    with 3 assms(1) show ?thesis by (simp add: strip_no_padding) presburger
  qed
  with assms those_b64_value [OF assms(1)] show ?thesis by (simp add: atob_def del: map_map)
qed

lemma base64UrlEncode_sextets:
  assumes "bytes bs"
  shows "base64UrlEncode bs = map (\<lambda>n. url_safe (b64_char n)) (sextets bs)"
proof -
  let ?t = "map (\<lambda>n. url_safe (b64_char n)) (sextets bs)"
  have eq: "rev (map url_safe (btoa bs)) = replicate ((4 - length (sextets bs) mod 4) mod 4) (CHR ''='') @ rev ?t"
    by (simp add: btoa_def b64_padding_def url_safe_def)
  have "dropWhile (\<lambda>c. c = CHR ''='') (rev ?t) = rev ?t"
    using sextets_bound [OF assms]
    by (cases "sextets bs" rule: rev_cases) (auto simp: b64_char_facts)
  moreover have "dropWhile (\<lambda>c. c = CHR ''='') (replicate n (CHR ''='') @ xs) = dropWhile (\<lambda>c. c = CHR ''='') xs" for n xs
    by (induction n) auto
  ultimately show ?thesis by (simp add: base64UrlEncode_def eq)
qed

lemma base64UrlEncode_regex:
  assumes "bytes bs" "bs \<noteq> []"
  shows "base64url_regex (base64UrlEncode bs)"
  using sextets_bound [OF assms(1)] sextets_nonempty [OF assms(2)]
  by (auto simp: base64url_regex_def base64UrlEncode_sextets [OF assms(1)] list_all_iff b64_char_facts)

lemma base64_decode_encode:
  assumes "bytes bs" "bs \<noteq> []"
  shows "base64UrlDecode (base64UrlEncode bs) = Some bs"
proof -
  note bound = sextets_bound [OF assms(1)]
  have "map url_unsafe (base64UrlEncode bs) = map b64_char (sextets bs)"
    using bound by (auto simp: base64UrlEncode_sextets [OF assms(1)] list_all_iff b64_char_facts)
  moreover have "length (base64UrlEncode bs) = length (sextets bs)"
    by (simp add: base64UrlEncode_sextets [OF assms(1)])
  ultimately show ?thesis
    using atob_padded [OF bound sextets_length] base64UrlEncode_regex [OF assms] octets_sextets [OF assms(1)]
    by (simp add: base64UrlDecode_def)
qed

text \<open>
  Base64url decodes what it encodes: every non-empty byte string comes back unchanged, and its
  encoding uses the URL alphabet only, without padding.
\<close>

theorem base64Url_roundtrip:
  assumes "list_all (\<lambda>b. b < 256) bs" "bs \<noteq> []"
  shows "base64UrlDecode (base64UrlEncode bs) = Some bs \<and> base64url_regex (base64UrlEncode bs)"
  using base64_decode_encode base64UrlEncode_regex assms by blast

text \<open>UTF-8 of the code units of the model is injective.\<close>

lemma utf8_char_prefix:
  assumes "utf8_char c @ xs = utf8_char d @ ys"
  shows "c = d \<and> xs = ys"
proof -
  let ?m = "of_char c :: nat" and ?n = "of_char d :: nat"
  have "?m = ?n \<and> xs = ys"
  proof (cases "?m < 128 \<or> ?n < 128")
    case True
    with assms show ?thesis by (auto simp: utf8_char_def Let_def split: if_splits)
  next
    case False
    with assms have "?m div 64 = ?n div 64" "?m mod 64 = ?n mod 64" "xs = ys"
      by (simp_all add: utf8_char_def Let_def)
    then show ?thesis by (metis div_mult_mod_eq)
  qed
  then show ?thesis by (metis char_of_char)
qed

lemma utf8_inj: "utf8 s = utf8 t \<longleftrightarrow> s = t"
proof (induction s arbitrary: t)
  case Nil
  then show ?case by (cases t) (auto simp: utf8_def utf8_char_def Let_def)
next
  case (Cons c s)
  show ?case
  proof (cases t)
    case (Cons d t')
    then show ?thesis using Cons.IH utf8_char_prefix [of c "utf8 s" d "utf8 t'"] by (auto simp: utf8_def)
  qed (auto simp: utf8_def utf8_char_def Let_def)
qed

end
