(* ===== verification/Execution_Ledger.thy ===== *)
theory Execution_Ledger
  imports Canonical_Json
begin

text \<open>
  Model of \<open>packages/security/src/idempotency.ts\<close> and \<open>packages/security/src/replay.ts\<close>: the
  execution-once ledger and the replay guard of signed commands, over a store they only know through
  an interface. The TypeScript interfaces \<open>IdempotencyStore\<close> and \<open>ReplayStore\<close> are records of
  operations; what the comments of the source demand of a store is a locale, the behaviour of the
  ledger and of the guard is proved inside it, and the in-memory stores of the source interpret it.

  \<open>sha256\<close> is the platform's digest, an argument of the definitions that call it.
\<close>

section \<open>Errors and commands\<close>

text \<open>\<open>SecurityErrorCode\<close> of \<open>packages/security/src/errors.ts\<close>.\<close>

datatype security_error_code =
    Invalid_signature | Key_mismatch | Binding_mismatch | Expired | Issued_in_future
  | Lifetime_exceeded | Replay | Sequence | Revision_conflict | Idempotency_conflict
  | Idempotency_state

text \<open>
  \<open>MalinkCommand\<close>: the scalar fields of \<open>commandSchema\<close>; \<open>mc_payload\<close> is the operation's payload.
\<close>

record malink_command =
  mc_commandId :: string
  mc_gatewayId :: string
  mc_deviceId :: string
  mc_sequenceEpoch :: string
  mc_conversationId :: string
  mc_revisionEpoch :: string
  mc_sequence :: int
  mc_baseRevision :: int
  mc_operation :: string
  mc_issuedAt :: int
  mc_expiresAt :: int
  mc_nonce :: string
  mc_payload :: json

definition malink_command_json :: "malink_command \<Rightarrow> json" where
  "malink_command_json c = JObj
     [(''kind'', JStr ''malink.command''), (''version'', JNum 1),
      (''commandId'', JStr (mc_commandId c)), (''gatewayId'', JStr (mc_gatewayId c)),
      (''deviceId'', JStr (mc_deviceId c)), (''sequenceEpoch'', JStr (mc_sequenceEpoch c)),
      (''conversationId'', JStr (mc_conversationId c)),
      (''revisionEpoch'', JStr (mc_revisionEpoch c)), (''sequence'', JNum (mc_sequence c)),
      (''baseRevision'', JNum (mc_baseRevision c)), (''operation'', JStr (mc_operation c)),
      (''issuedAt'', JNum (mc_issuedAt c)), (''expiresAt'', JNum (mc_expiresAt c)),
      (''nonce'', JStr (mc_nonce c)), (''payload'', mc_payload c)]"

text \<open>\<open>canonicalJson\<close> of an array of strings never fails.\<close>

definition canonical_strings :: "string list \<Rightarrow> string" where
  "canonical_strings xs = the (canonicalJson (JArr (map JStr xs)))"

lemma canonical_strings_render: "canonical_strings xs = render (JArr (map JStr xs))"
  by (simp add: canonical_strings_def canonicalJson_def serialize_render comp_def del: serialize.simps)

lemma canonicalJson_strings: "canonicalJson (JArr (map JStr xs)) = Some (canonical_strings xs)"
  by (simp add: canonical_strings_render canonicalJson_def serialize_render comp_def
      del: serialize.simps)

lemma canonical_strings_prefix:
  assumes "canonical_strings xs @ s = canonical_strings ys @ t"
  shows "xs = ys \<and> s = t"
proof -
  have "render_items (map JStr xs) @ s = render_items (map JStr ys) @ t"
    using assms by (simp add: canonical_strings_render)
  from render_items_prefix [OF render_prefix this] have "map JStr xs = map JStr ys \<and> s = t"
    by auto
  then show ?thesis by (auto dest: map_injective intro: injI)
qed

lemma canonical_strings_inject [simp]: "canonical_strings xs = canonical_strings ys \<longleftrightarrow> xs = ys"
  using canonical_strings_prefix [of xs "[]" ys "[]"] by auto

section \<open>The ledger and its store\<close>

datatype 'r ledger_record =
    Pending_record (lr_fingerprint: string) (lr_createdAt: int) (lr_expiresAt: int)
  | Completed_record (lr_fingerprint: string) (lr_createdAt: int) (lr_expiresAt: int)
      (lr_completedAt: int) (lr_result: 'r)
  | Failed_record (lr_fingerprint: string) (lr_createdAt: int) (lr_expiresAt: int)
      (lr_completedAt: int) (lr_error: string)

datatype 'r claim_result = Claimed | Not_claimed "'r ledger_record"

datatype 'r settlement = Settle_completed int 'r | Settle_failed int string

record ('s, 'r) idempotency_store_ops =
  claim_op :: "'s \<Rightarrow> string \<Rightarrow> string \<Rightarrow> int \<Rightarrow> int \<Rightarrow> 'r claim_result \<times> 's"
  settle_op :: "'s \<Rightarrow> string \<Rightarrow> string \<Rightarrow> 'r settlement \<Rightarrow> (security_error_code, 's) result"
  prune_op :: "'s \<Rightarrow> int \<Rightarrow> 's"

datatype 'r begin_result =
    Execute (claim_key: string) (claim_fingerprint: string)
  | In_progress
  | Already_completed 'r
  | Already_failed string

definition retentionMs_default :: int where
  "retentionMs_default = 24 * 60 * 60000"

definition ledger_key :: "malink_command \<Rightarrow> string" where
  "ledger_key c = canonical_strings [mc_gatewayId c, mc_deviceId c, mc_conversationId c, mc_commandId c]"

text \<open>The payload may hold a value \<open>canonicalJson\<close> refuses; then \<open>begin\<close> throws before any claim.\<close>

definition ledger_fingerprint :: "(string \<Rightarrow> string) \<Rightarrow> malink_command \<Rightarrow> string option" where
  "ledger_fingerprint sha256 c = map_option sha256 (canonicalJson (malink_command_json c))"

datatype ledger_error = Type_error | Security_error security_error_code

definition ledger_begin ::
  "('s, 'r) idempotency_store_ops \<Rightarrow> (string \<Rightarrow> string) \<Rightarrow> int \<Rightarrow> 's \<Rightarrow> malink_command \<Rightarrow> int
     \<Rightarrow> (ledger_error, 'r begin_result) result \<times> 's" where
  "ledger_begin store sha256 retentionMs s c now =
     (case ledger_fingerprint sha256 c of
        None \<Rightarrow> (Inl Type_error, s)
      | Some fp \<Rightarrow>
         (let key = ledger_key c;
              (r, s') = claim_op store s key fp now (now + retentionMs)
          in (case r of
                Claimed \<Rightarrow> Inr (Execute key fp)
              | Not_claimed rec \<Rightarrow>
                  if lr_fingerprint rec \<noteq> fp then Inl (Security_error Idempotency_conflict)
                  else (case rec of
                          Pending_record _ _ _ \<Rightarrow> Inr In_progress
                        | Completed_record _ _ _ _ v \<Rightarrow> Inr (Already_completed v)
                        | Failed_record _ _ _ _ e \<Rightarrow> Inr (Already_failed e)), s')))"

definition ledger_complete ::
  "('s, 'r) idempotency_store_ops \<Rightarrow> 's \<Rightarrow> string \<Rightarrow> string \<Rightarrow> 'r \<Rightarrow> int \<Rightarrow> (security_error_code, 's) result" where
  "ledger_complete store s key fp v now = settle_op store s key fp (Settle_completed now v)"

definition ledger_fail ::
  "('s, 'r) idempotency_store_ops \<Rightarrow> 's \<Rightarrow> string \<Rightarrow> string \<Rightarrow> string \<Rightarrow> int \<Rightarrow> (security_error_code, 's) result" where
  "ledger_fail store s key fp e now = settle_op store s key fp (Settle_failed now e)"

definition ledger_prune :: "('s, 'r) idempotency_store_ops \<Rightarrow> 's \<Rightarrow> int \<Rightarrow> 's" where
  "ledger_prune store s now = prune_op store s now"

section \<open>The in-memory store\<close>

type_synonym 'r memory_records = "(string, 'r ledger_record) jsmap"

definition memory_prune :: "'r memory_records \<Rightarrow> int \<Rightarrow> 'r memory_records" where
  "memory_prune m now = filter (\<lambda>(k, rec). \<not> lr_expiresAt rec \<le> now) m"

definition memory_claim ::
  "'r memory_records \<Rightarrow> string \<Rightarrow> string \<Rightarrow> int \<Rightarrow> int \<Rightarrow> 'r claim_result \<times> 'r memory_records" where
  "memory_claim m key fp createdAt expiresAt =
     (let m' = memory_prune m createdAt
      in case js_get m' key of
           Some existing \<Rightarrow> (Not_claimed existing, m')
         | None \<Rightarrow> (Claimed, js_set key (Pending_record fp createdAt expiresAt) m'))"

fun settled_record :: "'r settlement \<Rightarrow> string \<Rightarrow> int \<Rightarrow> int \<Rightarrow> 'r ledger_record" where
  "settled_record (Settle_completed t v) fp c e = Completed_record fp c e t v"
| "settled_record (Settle_failed t err) fp c e = Failed_record fp c e t err"

fun is_pending :: "'r ledger_record \<Rightarrow> bool" where
  "is_pending (Pending_record _ _ _) = True"
| "is_pending _ = False"

definition memory_settle ::
  "'r memory_records \<Rightarrow> string \<Rightarrow> string \<Rightarrow> 'r settlement
     \<Rightarrow> (security_error_code, 'r memory_records) result" where
  "memory_settle m key fp st =
     (case js_get m key of
        None \<Rightarrow> Inl Idempotency_state
      | Some cur \<Rightarrow>
          if lr_fingerprint cur \<noteq> fp \<or> \<not> is_pending cur then Inl Idempotency_state
          else Inr (js_set key (settled_record st fp (lr_createdAt cur) (lr_expiresAt cur)) m))"

definition memory_store :: "('r memory_records, 'r) idempotency_store_ops" where
  "memory_store = \<lparr>claim_op = memory_claim, settle_op = memory_settle, prune_op = memory_prune\<rparr>"

section \<open>The contract of a store\<close>

text \<open>
  \<open>look\<close> is what the store has recorded under a key and \<open>inv\<close> its representation invariant. A
  record is live at a time when it has not expired. \<open>claim\<close> is atomic: it records a pending
  execution exactly when no live record exists, and otherwise returns that record.
\<close>

definition live_at :: "int \<Rightarrow> 'r ledger_record option \<Rightarrow> 'r ledger_record option" where
  "live_at now r = (case r of None \<Rightarrow> None | Some x \<Rightarrow> if lr_expiresAt x \<le> now then None else Some x)"

locale idempotency_store =
  fixes ops :: "('s, 'r) idempotency_store_ops"
    and look :: "'s \<Rightarrow> string \<Rightarrow> 'r ledger_record option"
    and inv :: "'s \<Rightarrow> bool"
  assumes claim_fresh: "inv s \<Longrightarrow> live_at now (look s k) = None \<Longrightarrow>
      \<exists>s'. claim_op ops s k fp now e = (Claimed, s') \<and> inv s' \<and>
        (\<forall>k'. look s' k' = (if k' = k then Some (Pending_record fp now e) else live_at now (look s k')))"
    and claim_taken: "inv s \<Longrightarrow> live_at now (look s k) = Some rec \<Longrightarrow>
      \<exists>s'. claim_op ops s k fp now e = (Not_claimed rec, s') \<and> inv s' \<and>
        (\<forall>k'. look s' k' = live_at now (look s k'))"
    and settle_pending: "inv s \<Longrightarrow> look s k = Some (Pending_record fp c e) \<Longrightarrow>
      \<exists>s'. settle_op ops s k fp st = Inr s' \<and> inv s' \<and>
        (\<forall>k'. look s' k' = (if k' = k then Some (settled_record st fp c e) else look s k'))"
    and settle_other: "inv s \<Longrightarrow> \<nexists>c e. look s k = Some (Pending_record fp c e) \<Longrightarrow>
      settle_op ops s k fp st = Inl Idempotency_state"
    and prune_live: "inv s \<Longrightarrow> inv (prune_op ops s now) \<and> look (prune_op ops s now) k = live_at now (look s k)"
begin

text \<open>What a client may do with the ledger, at the times it does it.\<close>

lemma begin_fresh:
  assumes "inv s" and "ledger_fingerprint sha256 c = Some fp"
    and "live_at now (look s (ledger_key c)) = None"
  shows "\<exists>s'. ledger_begin ops sha256 ret s c now = (Inr (Execute (ledger_key c) fp), s') \<and> inv s'
    \<and> look s' (ledger_key c) = Some (Pending_record fp now (now + ret))"
  using claim_fresh [OF assms(1,3), of fp "now + ret"] assms(2)
  by (auto simp: ledger_begin_def)

lemma begin_taken:
  assumes "inv s" and "ledger_fingerprint sha256 c = Some fp"
    and "live_at now (look s (ledger_key c)) = Some rec"
  shows "\<exists>r s'. ledger_begin ops sha256 ret s c now = (r, s') \<and> inv s' \<and>
      (\<forall>k fp'. r \<noteq> Inr (Execute k fp')) \<and>
      r = (if lr_fingerprint rec \<noteq> fp then Inl (Security_error Idempotency_conflict)
           else case rec of Pending_record _ _ _ \<Rightarrow> Inr In_progress
                | Completed_record _ _ _ _ v \<Rightarrow> Inr (Already_completed v)
                | Failed_record _ _ _ _ e \<Rightarrow> Inr (Already_failed e)) \<and>
      (\<forall>k'. look s' k' = live_at now (look s k'))"
  using claim_taken [OF assms(1,3), of fp "now + ret"] assms(2)
  by (auto simp: ledger_begin_def split: ledger_record.splits)

end

text \<open>One call of a client, and the store after it.\<close>

datatype 'r ledger_call =
    Call_begin malink_command int
  | Call_complete string string 'r int
  | Call_fail string string string int
  | Call_prune int

fun call_time :: "'r ledger_call \<Rightarrow> int" where
  "call_time (Call_begin _ t) = t"
| "call_time (Call_complete _ _ _ t) = t"
| "call_time (Call_fail _ _ _ t) = t"
| "call_time (Call_prune t) = t"

definition or_else :: "'s \<Rightarrow> ('e, 's) result \<Rightarrow> 's" where
  "or_else s r = (case r of Inl _ \<Rightarrow> s | Inr s' \<Rightarrow> s')"

fun ledger_step :: "('s, 'r) idempotency_store_ops \<Rightarrow> (string \<Rightarrow> string) \<Rightarrow> int \<Rightarrow> 'r ledger_call \<Rightarrow> 's \<Rightarrow> 's" where
  "ledger_step ops sha256 ret (Call_begin c t) s = snd (ledger_begin ops sha256 ret s c t)"
| "ledger_step ops sha256 ret (Call_complete k fp v t) s = or_else s (ledger_complete ops s k fp v t)"
| "ledger_step ops sha256 ret (Call_fail k fp e t) s = or_else s (ledger_fail ops s k fp e t)"
| "ledger_step ops sha256 ret (Call_prune t) s = ledger_prune ops s t"

definition ledger_run :: "('s, 'r) idempotency_store_ops \<Rightarrow> (string \<Rightarrow> string) \<Rightarrow> int \<Rightarrow> 'r ledger_call list \<Rightarrow> 's \<Rightarrow> 's" where
  "ledger_run ops sha256 ret = fold (ledger_step ops sha256 ret)"

context idempotency_store
begin

text \<open>A live record of a key survives every call made before it expires; only its status may settle.\<close>

lemma settle_keeps:
  assumes "inv s" and "look s k = Some rec"
  shows "inv (or_else s (settle_op ops s k' fp st)) \<and>
    (\<exists>rec'. look (or_else s (settle_op ops s k' fp st)) k = Some rec' \<and>
       lr_fingerprint rec' = lr_fingerprint rec \<and> lr_expiresAt rec' = lr_expiresAt rec \<and>
       (\<not> is_pending rec \<longrightarrow> rec' = rec))"
proof (cases "\<exists>c e. look s k' = Some (Pending_record fp c e)")
  case True
  then obtain c e where p: "look s k' = Some (Pending_record fp c e)" by blast
  from settle_pending [OF assms(1) p, of st] obtain s' where
    "settle_op ops s k' fp st = Inr s'" "inv s'"
    "\<forall>x. look s' x = (if x = k' then Some (settled_record st fp c e) else look s x)" by blast
  then show ?thesis using p assms(2) by (cases st) (auto simp: or_else_def)
next
  case False
  then show ?thesis using settle_other [OF assms(1)] assms by (auto simp: or_else_def)
qed

lemma call_keeps:
  assumes "inv s" and "look s k = Some rec" and "call_time x < lr_expiresAt rec"
  shows "inv (ledger_step ops sha256 ret x s) \<and>
    (\<exists>rec'. look (ledger_step ops sha256 ret x s) k = Some rec' \<and>
       lr_fingerprint rec' = lr_fingerprint rec \<and> lr_expiresAt rec' = lr_expiresAt rec \<and>
       (\<not> is_pending rec \<longrightarrow> rec' = rec))"
proof (cases x)
  case (Call_begin c t)
  have live: "live_at t (look s k) = Some rec"
    using assms Call_begin by (simp add: live_at_def)
  show ?thesis
  proof (cases "ledger_fingerprint sha256 c")
    case None
    with Call_begin assms show ?thesis by (auto simp: ledger_begin_def)
  next
    case (Some fp)
    show ?thesis
    proof (cases "live_at t (look s (ledger_key c))")
      case None
      with claim_fresh [OF assms(1) None, of fp "t + ret"] Some live Call_begin
      show ?thesis by (auto simp: ledger_begin_def)
    next
      case (Some rec')
      with begin_taken [OF assms(1) \<open>ledger_fingerprint sha256 c = Some fp\<close> Some, of ret] live Call_begin
      show ?thesis by auto
    qed
  qed
next
  case (Call_complete k' fp v t)
  then show ?thesis
    using settle_keeps [OF assms(1,2), of k' fp "Settle_completed t v"] by (simp add: ledger_complete_def)
next
  case (Call_fail k' fp e t)
  then show ?thesis
    using settle_keeps [OF assms(1,2), of k' fp "Settle_failed t e"] by (simp add: ledger_fail_def)
next
  case (Call_prune t)
  then show ?thesis
    using prune_live [OF assms(1), of t k] assms by (simp add: ledger_prune_def live_at_def)
qed

lemma run_keeps:
  assumes "inv s" and "look s k = Some rec" and "\<forall>x\<in>set xs. call_time x < lr_expiresAt rec"
  shows "inv (ledger_run ops sha256 ret xs s) \<and>
    (\<exists>rec'. look (ledger_run ops sha256 ret xs s) k = Some rec' \<and>
       lr_fingerprint rec' = lr_fingerprint rec \<and> lr_expiresAt rec' = lr_expiresAt rec \<and>
       (\<not> is_pending rec \<longrightarrow> rec' = rec))"
  using assms
proof (induction xs arbitrary: s rec)
  case Nil
  then show ?case by (auto simp: ledger_run_def)
next
  case (Cons x xs)
  let ?s = "ledger_step ops sha256 ret x s"
  from call_keeps [OF Cons.prems(1,2), of x sha256 ret] Cons.prems(3) obtain rec'
    where r: "inv ?s" "look ?s k = Some rec'" "lr_fingerprint rec' = lr_fingerprint rec"
      "lr_expiresAt rec' = lr_expiresAt rec" "\<not> is_pending rec \<longrightarrow> rec' = rec" by auto
  from Cons.IH [OF r(1,2)] Cons.prems(3) r show ?case by (auto simp: ledger_run_def)
qed

lemma begin_execute:
  assumes "inv s" and "ledger_begin ops sha256 ret s c now = (Inr (Execute k fp), s')"
  shows "k = ledger_key c" and "ledger_fingerprint sha256 c = Some fp" and "inv s'"
    and "look s' (ledger_key c) = Some (Pending_record fp now (now + ret))"
proof -
  from assms(2) obtain fp' where fp': "ledger_fingerprint sha256 c = Some fp'"
    by (auto simp: ledger_begin_def split: option.splits)
  have "live_at now (look s (ledger_key c)) = None"
    using begin_taken [OF assms(1) fp', of now _ ret] assms(2)
    by (cases "live_at now (look s (ledger_key c))") auto
  from begin_fresh [OF assms(1) fp' this, of ret] assms(2) fp'
  show "k = ledger_key c" "ledger_fingerprint sha256 c = Some fp" "inv s'"
    "look s' (ledger_key c) = Some (Pending_record fp now (now + ret))" by auto
qed

lemma execute_once:
  assumes "inv s" and "ledger_begin ops sha256 ret s c now = (Inr (Execute k fp), s')"
    and "\<forall>x\<in>set xs. call_time x < now + ret" and "later < now + ret"
    and "ledger_key c' = ledger_key c"
  shows "fst (ledger_begin ops sha256 ret (ledger_run ops sha256 ret xs s') c' later) \<noteq> Inr (Execute k' fp')"
proof -
  note b = begin_execute [OF assms(1,2)]
  from run_keeps [OF b(3,4), of xs sha256 ret] assms(3) obtain rec' where
    u: "inv (ledger_run ops sha256 ret xs s')"
      "look (ledger_run ops sha256 ret xs s') (ledger_key c) = Some rec'"
      "lr_expiresAt rec' = now + ret" by auto
  then have live: "live_at later (look (ledger_run ops sha256 ret xs s') (ledger_key c')) = Some rec'"
    using assms(4,5) by (simp add: live_at_def)
  show ?thesis
  proof (cases "ledger_fingerprint sha256 c'")
    case None
    then show ?thesis by (simp add: ledger_begin_def)
  next
    case (Some fp2)
    from begin_taken [OF u(1) this live, of ret] show ?thesis by auto
  qed
qed

lemma completed_is_replayed:
  assumes "inv s" and "ledger_begin ops sha256 ret s c now = (Inr (Execute k fp), s')"
    and "ledger_complete ops s' k fp v t = Inr s2"
    and "\<forall>x\<in>set xs. call_time x < now + ret" and "later < now + ret"
  shows "fst (ledger_begin ops sha256 ret (ledger_run ops sha256 ret xs s2) c later) = Inr (Already_completed v)"
proof -
  note b = begin_execute [OF assms(1,2)]
  from settle_pending [OF b(3,4), of "Settle_completed t v"] assms(3) b(1)
  have s2: "inv s2" "look s2 (ledger_key c) = Some (Completed_record fp now (now + ret) t v)"
    by (auto simp: ledger_complete_def)
  from run_keeps [OF s2, of xs sha256 ret] assms(4) have
    u: "inv (ledger_run ops sha256 ret xs s2)"
      "look (ledger_run ops sha256 ret xs s2) (ledger_key c) = Some (Completed_record fp now (now + ret) t v)"
    by auto
  then have "live_at later (look (ledger_run ops sha256 ret xs s2) (ledger_key c))
      = Some (Completed_record fp now (now + ret) t v)"
    using assms(5) by (simp add: live_at_def)
  from begin_taken [OF u(1) b(2) this, of ret] show ?thesis by auto
qed

end

section \<open>The in-memory store keeps the contract\<close>

lemma memory_prune_get: "js_wf m \<Longrightarrow> js_get (memory_prune m now) k = live_at now (js_get m k)"
  by (simp add: memory_prune_def js_get_filter live_at_def split: option.splits)

lemma memory_prune_wf [simp]: "js_wf m \<Longrightarrow> js_wf (memory_prune m now)"
  by (simp add: memory_prune_def js_wf_filter)

interpretation memory: idempotency_store memory_store js_get js_wf
proof unfold_locales
  fix s :: "'r memory_records" and k fp st
  assume "js_wf s" and "\<nexists>c e. js_get s k = Some (Pending_record fp c e)"
  then show "settle_op memory_store s k fp st = Inl Idempotency_state"
    by (cases "the (js_get s k)") (auto simp: memory_store_def memory_settle_def split: option.splits)
qed (auto simp: memory_store_def memory_claim_def memory_settle_def memory_prune_get jsmap_simps)

text \<open>
  Execution happens once. When \<open>begin\<close> has granted the execution of a command at time \<open>now\<close>, no
  later \<open>begin\<close> under the same key grants it again within the retention window, whatever calls
  (begins of any commands, completions, failures, prunings) happen in between.
\<close>

theorem memory_execute_once:
  assumes "js_wf s"
    and "ledger_begin memory_store sha256 ret s c now = (Inr (Execute k fp), s')"
    and "\<forall>x\<in>set xs. call_time x < now + ret" and "later < now + ret"
    and "ledger_key c' = ledger_key c"
  shows "fst (ledger_begin memory_store sha256 ret (ledger_run memory_store sha256 ret xs s') c' later)
     \<noteq> Inr (Execute k' fp')"
  by (rule memory.execute_once [OF assms])

definition sample_command :: malink_command where
  "sample_command = \<lparr>mc_commandId = ''c1'', mc_gatewayId = ''g'', mc_deviceId = ''d'',
     mc_sequenceEpoch = ''e'', mc_conversationId = ''v'', mc_revisionEpoch = ''r'', mc_sequence = 1,
     mc_baseRevision = 0, mc_operation = ''prompt'', mc_issuedAt = 0, mc_expiresAt = 100,
     mc_nonce = ''0123456789abcdef'', mc_payload = JNull\<rparr>"

lemma ledger_fingerprint_encodable:
  "encodable (mc_payload c) \<Longrightarrow>
   ledger_fingerprint sha256 c = Some (sha256 (render (json_normal (malink_command_json c))))"
  by (simp add: ledger_fingerprint_def canonicalJson_def serialize_render malink_command_json_def
      del: serialize.simps)

lemma sample_begin:
  "ledger_begin memory_store id 1000 [] sample_command 0 =
    (Inr (Execute (ledger_key sample_command) (render (json_normal (malink_command_json sample_command)))),
     [(ledger_key sample_command,
       Pending_record (render (json_normal (malink_command_json sample_command))) 0 1000)])"
  by (simp add: ledger_begin_def ledger_fingerprint_encodable sample_command_def [THEN arg_cong [where f = mc_payload]]
      memory_store_def memory_claim_def memory_prune_def Let_def)

text \<open>
  A completed command is answered from the ledger. Once an execution has been completed with a
  value, every later \<open>begin\<close> of the same command within the retention window returns that value, so a
  redelivered command observes its first result.
\<close>

theorem memory_completed_is_replayed:
  assumes "js_wf s"
    and "ledger_begin memory_store sha256 ret s c now = (Inr (Execute k fp), s')"
    and "ledger_complete memory_store s' k fp v t = Inr s2"
    and "\<forall>x\<in>set xs. call_time x < now + ret" and "later < now + ret"
  shows "fst (ledger_begin memory_store sha256 ret (ledger_run memory_store sha256 ret xs s2) c later)
     = Inr (Already_completed v)"
  by (rule memory.completed_is_replayed [OF assms])

lemma sample_complete:
  "ledger_complete memory_store
     [(ledger_key sample_command,
       Pending_record (render (json_normal (malink_command_json sample_command))) 0 1000)]
     (ledger_key sample_command) (render (json_normal (malink_command_json sample_command))) (42 :: nat) 3
   = Inr [(ledger_key sample_command,
       Completed_record (render (json_normal (malink_command_json sample_command))) 0 1000 3 42)]"
  by (simp add: ledger_complete_def memory_store_def memory_settle_def)

section \<open>The replay guard\<close>

record 's replay_store_ops =
  claimAll_op :: "'s \<Rightarrow> (string \<times> int) list \<Rightarrow> int \<Rightarrow> bool \<times> 's"
  replay_prune_op :: "'s \<Rightarrow> int \<Rightarrow> 's"

definition replay_scope :: "malink_command \<Rightarrow> string" where
  "replay_scope c = canonical_strings [mc_gatewayId c, mc_deviceId c, mc_conversationId c]"

definition nonce_key :: "malink_command \<Rightarrow> string" where
  "nonce_key c = replay_scope c @ '':nonce:'' @ mc_nonce c"

definition command_key :: "malink_command \<Rightarrow> string" where
  "command_key c = replay_scope c @ '':command:'' @ mc_commandId c"

definition replay_guard_claim ::
  "'s replay_store_ops \<Rightarrow> 's \<Rightarrow> malink_command \<Rightarrow> int \<Rightarrow> (security_error_code, unit) result \<times> 's" where
  "replay_guard_claim ops s c now =
     (if mc_expiresAt c \<le> now then (Inl Expired, s)
      else let (accepted, s') = claimAll_op ops s
                 [(nonce_key c, mc_expiresAt c), (command_key c, mc_expiresAt c)] now
           in (if accepted then Inr () else Inl Replay, s'))"

definition replay_guard_prune :: "'s replay_store_ops \<Rightarrow> 's \<Rightarrow> int \<Rightarrow> 's" where
  "replay_guard_prune ops s now = replay_prune_op ops s now"

type_synonym memory_claims = "(string, int) jsmap"

definition memory_claims_prune :: "memory_claims \<Rightarrow> int \<Rightarrow> memory_claims" where
  "memory_claims_prune m now = filter (\<lambda>(k, expiresAt). \<not> expiresAt \<le> now) m"

definition memory_claimAll :: "memory_claims \<Rightarrow> (string \<times> int) list \<Rightarrow> int \<Rightarrow> bool \<times> memory_claims" where
  "memory_claimAll m claims now =
     (let m' = memory_claims_prune m now
      in if \<exists>c\<in>set claims. js_has m' (fst c) then (False, m')
         else (True, fold (\<lambda>c. js_set (fst c) (snd c)) claims m'))"

definition memory_replay_store :: "memory_claims replay_store_ops" where
  "memory_replay_store = \<lparr>claimAll_op = memory_claimAll, replay_prune_op = memory_claims_prune\<rparr>"

text \<open>A key is taken at a time when a claim of it has not expired.\<close>

definition taken_at :: "int \<Rightarrow> int option \<Rightarrow> bool" where
  "taken_at now e = (case e of None \<Rightarrow> False | Some t \<Rightarrow> now < t)"

text \<open>
  The contract of \<open>ReplayStore\<close>: all keys are claimed or none; a refused batch claims nothing; a claim
  is forgotten only when it expires.
\<close>

locale replay_store =
  fixes ops :: "'s replay_store_ops"
    and look :: "'s \<Rightarrow> string \<Rightarrow> int option"
    and inv :: "'s \<Rightarrow> bool"
  assumes claim_all: "inv s \<Longrightarrow> \<forall>c\<in>set cs. \<not> taken_at now (look s (fst c)) \<Longrightarrow>
      \<exists>s'. claimAll_op ops s cs now = (True, s') \<and> inv s' \<and> (\<forall>k. look s' k =
        (case map_of (rev cs) k of Some e \<Rightarrow> Some e
          | None \<Rightarrow> if taken_at now (look s k) then look s k else None))"
    and claim_none: "inv s \<Longrightarrow> \<exists>c\<in>set cs. taken_at now (look s (fst c)) \<Longrightarrow>
      \<exists>s'. claimAll_op ops s cs now = (False, s') \<and> inv s' \<and>
        (\<forall>k. look s' k = (if taken_at now (look s k) then look s k else None))"
    and prune_claims: "inv s \<Longrightarrow> inv (replay_prune_op ops s now) \<and>
      look (replay_prune_op ops s now) k = (if taken_at now (look s k) then look s k else None)"
begin

lemma guard_keeps:
  assumes "inv s" and "look s k = Some e" and "now < e"
  shows "inv (snd (replay_guard_claim ops s c now)) \<and> look (snd (replay_guard_claim ops s c now)) k = Some e"
proof (cases "\<exists>x\<in>set [(nonce_key c, mc_expiresAt c), (command_key c, mc_expiresAt c)].
    taken_at now (look s (fst x))")
  case True
  from claim_none [OF assms(1) True] assms show ?thesis
    by (auto simp: replay_guard_claim_def taken_at_def)
next
  case False
  then have free: "\<forall>x\<in>set [(nonce_key c, mc_expiresAt c), (command_key c, mc_expiresAt c)].
      \<not> taken_at now (look s (fst x))" by blast
  then have "k \<noteq> nonce_key c" "k \<noteq> command_key c" using assms by (auto simp: taken_at_def)
  with claim_all [OF assms(1) free] assms show ?thesis
    by (auto simp: replay_guard_claim_def taken_at_def)
qed

lemma accepted_claims_keys:
  assumes "inv s" and "replay_guard_claim ops s c now = (Inr (), s')"
    and "nonce_key c \<noteq> command_key c"
  shows "inv s'" and "look s' (nonce_key c) = Some (mc_expiresAt c)"
    and "look s' (command_key c) = Some (mc_expiresAt c)" and "now < mc_expiresAt c"
proof -
  let ?cs = "[(nonce_key c, mc_expiresAt c), (command_key c, mc_expiresAt c)]"
  have live: "now < mc_expiresAt c" using assms(2) by (auto simp: replay_guard_claim_def split: if_splits)
  have free: "\<forall>x\<in>set ?cs. \<not> taken_at now (look s (fst x))"
    using claim_none [OF assms(1), of ?cs now] assms(2) live
    by (auto simp: replay_guard_claim_def)
  from claim_all [OF assms(1) free] assms(2,3) live
  show "inv s'" "look s' (nonce_key c) = Some (mc_expiresAt c)"
    "look s' (command_key c) = Some (mc_expiresAt c)" "now < mc_expiresAt c"
    by (auto simp: replay_guard_claim_def)
qed

lemma guard_refuses:
  assumes "inv s" and "look s k = Some e" and "now < e" and "k = nonce_key c \<or> k = command_key c"
  shows "\<exists>code. fst (replay_guard_claim ops s c now) = Inl code"
proof (cases "mc_expiresAt c \<le> now")
  case False
  have "\<exists>x\<in>set [(nonce_key c, mc_expiresAt c), (command_key c, mc_expiresAt c)].
      taken_at now (look s (fst x))" using assms by (auto simp: taken_at_def)
  from claim_none [OF assms(1) this] False show ?thesis by (auto simp: replay_guard_claim_def)
qed (simp add: replay_guard_claim_def)

end

text \<open>Later claims of other commands, at their times.\<close>

definition replay_run :: "'s replay_store_ops \<Rightarrow> (malink_command \<times> int) list \<Rightarrow> 's \<Rightarrow> 's" where
  "replay_run ops = fold (\<lambda>(c, now) s. snd (replay_guard_claim ops s c now))"

context replay_store
begin

lemma replay_run_keeps:
  assumes "inv s" and "look s k = Some e" and "\<forall>x\<in>set xs. snd x < e"
  shows "inv (replay_run ops xs s) \<and> look (replay_run ops xs s) k = Some e"
  using assms
proof (induction xs arbitrary: s)
  case (Cons x xs)
  obtain c now where x: "x = (c, now)" by (cases x)
  from guard_keeps [OF Cons.prems(1,2), of now c] Cons.prems(3) x
  have "inv (snd (replay_guard_claim ops s c now))"
    "look (snd (replay_guard_claim ops s c now)) k = Some e" by auto
  from Cons.IH [OF this] Cons.prems(3) x show ?case by (simp add: replay_run_def)
qed (simp add: replay_run_def)

end

lemma replay_key_cases:
  "nonce_key c = nonce_key d \<longleftrightarrow> replay_scope c = replay_scope d \<and> mc_nonce c = mc_nonce d"
  "command_key c = command_key d \<longleftrightarrow> replay_scope c = replay_scope d \<and> mc_commandId c = mc_commandId d"
  "nonce_key c \<noteq> command_key d"
  by (auto simp: nonce_key_def command_key_def replay_scope_def dest!: canonical_strings_prefix)

lemma memory_claims_prune_get:
  "js_wf m \<Longrightarrow> js_get (memory_claims_prune m now) k =
     (if taken_at now (js_get m k) then js_get m k else None)"
  by (auto simp: memory_claims_prune_def js_get_filter taken_at_def split: option.splits)

lemma memory_claims_prune_wf [simp]: "js_wf m \<Longrightarrow> js_wf (memory_claims_prune m now)"
  by (simp add: memory_claims_prune_def js_wf_filter)

lemma fold_js_set_wf: "js_wf m \<Longrightarrow> js_wf (fold (\<lambda>c. js_set (fst c) (snd c)) cs m)"
  by (induction cs arbitrary: m) auto

lemma fold_js_set_get:
  "js_get (fold (\<lambda>c. js_set (fst c) (snd c)) cs m) k =
     (case map_of (rev cs) k of Some e \<Rightarrow> Some e | None \<Rightarrow> js_get m k)"
proof (induction cs arbitrary: m)
  case (Cons c cs)
  then show ?case
    by (auto simp: jsmap_simps map_add_def split: option.splits)
qed simp

lemma memory_claims_prune_has:
  "js_wf m \<Longrightarrow> js_has (memory_claims_prune m now) k \<longleftrightarrow> taken_at now (js_get m k)"
  by (auto simp: js_has_get memory_claims_prune_get taken_at_def split: option.splits)

interpretation memory_replay: replay_store memory_replay_store js_get js_wf
  by unfold_locales
    (auto simp: memory_replay_store_def memory_claimAll_def memory_claims_prune_get
      memory_claims_prune_has Let_def fold_js_set_get intro!: fold_js_set_wf split: option.splits)

text \<open>
  No replay. After the guard has accepted a command, it accepts no command of the same gateway,
  device and conversation that reuses its nonce or its command id, at any time before the accepted
  command expires and whatever was claimed in between.
\<close>

theorem replay_rejected:
  assumes "js_wf s" and "replay_guard_claim memory_replay_store s c now = (Inr (), s')"
    and "\<forall>x\<in>set xs. snd x < mc_expiresAt c" and "later < mc_expiresAt c"
    and "mc_gatewayId c' = mc_gatewayId c" "mc_deviceId c' = mc_deviceId c"
      "mc_conversationId c' = mc_conversationId c"
    and "mc_nonce c' = mc_nonce c \<or> mc_commandId c' = mc_commandId c"
  shows "\<exists>code. fst (replay_guard_claim memory_replay_store
           (replay_run memory_replay_store xs s') c' later) = Inl code"
proof -
  note a = memory_replay.accepted_claims_keys [OF assms(1,2) replay_key_cases(3)]
  have scope: "replay_scope c' = replay_scope c" using assms(5-7) by (simp add: replay_scope_def)
  from assms(8) scope obtain k where k: "js_get s' k = Some (mc_expiresAt c)"
    "k = nonce_key c' \<or> k = command_key c'"
    using a(2,3) by (metis replay_key_cases(1,2))
  from memory_replay.replay_run_keeps [OF a(1) k(1) assms(3)]
  show ?thesis using memory_replay.guard_refuses [OF _ _ assms(4) k(2)] by blast
qed

end
