(* ===== verification/Signatures.thy ===== *)
theory Signatures
  imports Encoding Execution_Ledger
begin

text \<open>
  Model of \<open>packages/security/src/signatures.ts\<close>: signing and verifying MLP/3 commands, events and
  state pointers, and the clocked verification of version 1 commands. Every document is parsed with
  its schema, serialized canonically and signed over the UTF-8 bytes.

  WebCrypto is not part of the repository: its operations are the record \<open>web_crypto\<close>, an argument
  of every definition. \<open>web_key\<close> is a key given as a JSON web key or as an imported key.
\<close>

section \<open>WebCrypto\<close>

record ('pub, 'priv) web_crypto =
  wc_digest :: "nat list \<Rightarrow> nat list"
  wc_sign :: "'priv \<Rightarrow> nat list \<Rightarrow> nat list"
  wc_verify :: "'pub \<Rightarrow> nat list \<Rightarrow> nat list \<Rightarrow> bool"
  wc_importKey :: "jwk \<Rightarrow> 'pub option"
  wc_exportKey :: "'pub \<Rightarrow> jwk"

datatype 'pub web_key = Crypto_key 'pub | Web_key jwk

datatype signature_failure =
    Schema_failure
  | Type_failure
  | Key_failure
  | Security_failure security_error_code

definition key_jwk :: "('pub, 'priv) web_crypto \<Rightarrow> 'pub web_key \<Rightarrow> jwk" where
  "key_jwk wc key = (case key of Crypto_key k \<Rightarrow> wc_exportKey wc k | Web_key j \<Rightarrow> j)"

definition importPublicKey :: "('pub, 'priv) web_crypto \<Rightarrow> 'pub web_key \<Rightarrow> (signature_failure, 'pub) result" where
  "importPublicKey wc key =
     (case key of
        Crypto_key k \<Rightarrow> Inr k
      | Web_key j \<Rightarrow> (case wc_importKey wc j of None \<Rightarrow> Inl Key_failure | Some k \<Rightarrow> Inr k))"

definition key_id :: "('pub, 'priv) web_crypto \<Rightarrow> 'pub web_key \<Rightarrow> (signature_failure, string) result" where
  "key_id wc key =
     (case publicKeyId (wc_digest wc) (key_jwk wc key) of None \<Rightarrow> Inl Type_failure | Some i \<Rightarrow> Inr i)"

section \<open>Signing and verifying a document\<close>

definition sign_document :: "('pub, 'priv) web_crypto \<Rightarrow> json \<Rightarrow> 'priv \<Rightarrow> (signature_failure, string) result" where
  "sign_document wc document privateKey =
     (case canonicalJsonBytes document of
        None \<Rightarrow> Inl Type_failure
      | Some m \<Rightarrow> Inr (base64UrlEncode (wc_sign wc privateKey m)))"

definition verify_document ::
  "('pub, 'priv) web_crypto \<Rightarrow> json \<Rightarrow> string \<Rightarrow> 'pub web_key \<Rightarrow> (signature_failure, bool) result" where
  "verify_document wc document signature publicKey =
     rbind (importPublicKey wc publicKey) (\<lambda>k.
       case base64UrlDecode signature of
         None \<Rightarrow> Inl Type_failure
       | Some s \<Rightarrow> (case canonicalJsonBytes document of
             None \<Rightarrow> Inl Type_failure
           | Some m \<Rightarrow> Inr (wc_verify wc k s m)))"

definition text_of :: "json \<Rightarrow> string" where
  "text_of v = (case v of JStr s \<Rightarrow> s | _ \<Rightarrow> [])"

text \<open>The key identifier check and the signature check every verifier starts with.\<close>

definition check_signature ::
  "('pub, 'priv) web_crypto \<Rightarrow> json \<Rightarrow> json \<Rightarrow> 'pub web_key \<Rightarrow> (signature_failure, unit) result" where
  "check_signature wc document signature key =
     rbind (key_id wc key) (\<lambda>expectedKeyId.
       if jprop signature ''keyId'' \<noteq> JStr expectedKeyId then Inl (Security_failure Key_mismatch)
       else rbind (verify_document wc document (text_of (jprop signature ''value'')) key) (\<lambda>valid.
         if \<not> valid then Inl (Security_failure Invalid_signature) else Inr ()))"

definition signature_json :: "string \<Rightarrow> string \<Rightarrow> json" where
  "signature_json keyId value = JObj
     [(''algorithm'', JStr ''ES256''), (''keyId'', JStr keyId), (''value'', JStr value)]"

section \<open>MLP/3 commands\<close>

definition signMlp3Command ::
  "('pub, 'priv) web_crypto \<Rightarrow> (zschema \<Rightarrow> json \<Rightarrow> json option) \<Rightarrow> url_parser \<Rightarrow>
   json \<Rightarrow> 'priv \<Rightarrow> string \<Rightarrow> (signature_failure, json) result" where
  "signMlp3Command wc parse new_URL input privateKey keyId =
     (case parse (mlp3CommandSchema new_URL) input of
        None \<Rightarrow> Inl Schema_failure
      | Some command \<Rightarrow> rbind (sign_document wc command privateKey) (\<lambda>value.
          case parse (signedMlp3CommandSchema new_URL)
                 (JObj [(''command'', command), (''signature'', signature_json keyId value)]) of
            None \<Rightarrow> Inl Schema_failure
          | Some signed \<Rightarrow> Inr signed))"

record command_bindings =
  bind_workspaceId :: string
  bind_deviceId :: string
  bind_certificateId :: string
  bind_projectId :: "string option"
  bind_allowedOperations :: "string list option"

definition command_bound :: "command_bindings \<Rightarrow> json \<Rightarrow> bool" where
  "command_bound b command \<longleftrightarrow>
     jprop command ''workspaceId'' = JStr (bind_workspaceId b)
   \<and> jprop command ''deviceId'' = JStr (bind_deviceId b)
   \<and> jprop command ''certificateId'' = JStr (bind_certificateId b)
   \<and> (case bind_projectId b of None \<Rightarrow> True | Some p \<Rightarrow> jprop command ''projectId'' = JStr p)
   \<and> (case bind_allowedOperations b of None \<Rightarrow> True
        | Some ops \<Rightarrow> list_ex (\<lambda>op. jprop command ''operation'' = JStr op) ops)"

definition verifyMlp3Command ::
  "('pub, 'priv) web_crypto \<Rightarrow> (zschema \<Rightarrow> json \<Rightarrow> json option) \<Rightarrow> url_parser \<Rightarrow>
   json \<Rightarrow> 'pub web_key \<Rightarrow> command_bindings \<Rightarrow> (signature_failure, json) result" where
  "verifyMlp3Command wc parse new_URL input trustedDeviceKey bindings =
     (case parse (signedMlp3CommandSchema new_URL) input of
        None \<Rightarrow> Inl Schema_failure
      | Some signed \<Rightarrow>
          let command = jprop signed ''command'' in
          rbind (check_signature wc command (jprop signed ''signature'') trustedDeviceKey) (\<lambda>_.
            if \<not> command_bound bindings command then Inl (Security_failure Binding_mismatch)
            else Inr command))"

section \<open>MLP/3 events and pointers\<close>

definition signMlp3Event ::
  "('pub, 'priv) web_crypto \<Rightarrow> (zschema \<Rightarrow> json \<Rightarrow> json option) \<Rightarrow> zschema \<Rightarrow>
   json \<Rightarrow> 'priv \<Rightarrow> string \<Rightarrow> (signature_failure, json) result" where
  "signMlp3Event wc parse payload input privateKey keyId =
     (case parse (mlp3EventSchema payload) input of
        None \<Rightarrow> Inl Schema_failure
      | Some event \<Rightarrow> rbind (sign_document wc event privateKey) (\<lambda>value.
          case parse (signedMlp3EventSchema payload)
                 (JObj [(''event'', event), (''signature'', signature_json keyId value)]) of
            None \<Rightarrow> Inl Schema_failure
          | Some signed \<Rightarrow> Inr signed))"

definition verifyMlp3Event ::
  "('pub, 'priv) web_crypto \<Rightarrow> (zschema \<Rightarrow> json \<Rightarrow> json option) \<Rightarrow> zschema \<Rightarrow>
   json \<Rightarrow> 'pub web_key \<Rightarrow> string \<Rightarrow> string option \<Rightarrow> (signature_failure, json) result" where
  "verifyMlp3Event wc parse payload input trustedGatewayKey workspaceId projectId =
     (case parse (signedMlp3EventSchema payload) input of
        None \<Rightarrow> Inl Schema_failure
      | Some signed \<Rightarrow>
          let event = jprop signed ''event'' in
          rbind (check_signature wc event (jprop signed ''signature'') trustedGatewayKey) (\<lambda>_.
            if jprop event ''workspaceId'' \<noteq> JStr workspaceId
              \<or> (case projectId of None \<Rightarrow> False | Some p \<Rightarrow> jprop event ''projectId'' \<noteq> JStr p)
            then Inl (Security_failure Binding_mismatch)
            else Inr event))"

definition signMlp3Pointer ::
  "('pub, 'priv) web_crypto \<Rightarrow> (zschema \<Rightarrow> json \<Rightarrow> json option) \<Rightarrow>
   json \<Rightarrow> 'priv \<Rightarrow> string \<Rightarrow> (signature_failure, json) result" where
  "signMlp3Pointer wc parse input privateKey keyId =
     (case parse mlp3CurrentPointerDocumentSchema input of
        None \<Rightarrow> Inl Schema_failure
      | Some document \<Rightarrow> rbind (sign_document wc document privateKey) (\<lambda>value.
          case parse mlp3CurrentPointerSchema
                 (JObj [(''document'', document), (''signature'', signature_json keyId value)]) of
            None \<Rightarrow> Inl Schema_failure
          | Some signed \<Rightarrow> Inr signed))"

definition verifyMlp3Pointer ::
  "('pub, 'priv) web_crypto \<Rightarrow> (zschema \<Rightarrow> json \<Rightarrow> json option) \<Rightarrow>
   json \<Rightarrow> 'pub web_key \<Rightarrow> (signature_failure, json) result" where
  "verifyMlp3Pointer wc parse input trustedGatewayKey =
     (case parse mlp3CurrentPointerSchema input of
        None \<Rightarrow> Inl Schema_failure
      | Some pointer \<Rightarrow>
          let document = jprop pointer ''document'' in
          rbind (check_signature wc document (jprop pointer ''signature'') trustedGatewayKey)
            (\<lambda>_. Inr document))"

section \<open>Version 1 commands and their clock\<close>

record command_bindings_v1 =
  bind1_gatewayId :: string
  bind1_deviceId :: string
  bind1_conversationId :: "string option"
  bind1_allowedOperations :: "string list option"

record verification_clock =
  clock_now :: int
  clock_maxFutureSkewMs :: "int option"
  clock_maxLifetimeMs :: "int option"
  clock_allowExpired :: bool

definition DEFAULT_MAX_FUTURE_SKEW_MS :: int where
  "DEFAULT_MAX_FUTURE_SKEW_MS = 30000"

definition DEFAULT_MAX_LIFETIME_MS :: int where
  "DEFAULT_MAX_LIFETIME_MS = 5 * 60000"

definition or_default :: "'a option \<Rightarrow> 'a \<Rightarrow> 'a" where
  "or_default x d = (case x of None \<Rightarrow> d | Some y \<Rightarrow> y)"

definition command_bound_v1 :: "command_bindings_v1 \<Rightarrow> json \<Rightarrow> bool" where
  "command_bound_v1 b command \<longleftrightarrow>
     jprop command ''gatewayId'' = JStr (bind1_gatewayId b)
   \<and> jprop command ''deviceId'' = JStr (bind1_deviceId b)
   \<and> (case bind1_conversationId b of None \<Rightarrow> True | Some c \<Rightarrow> jprop command ''conversationId'' = JStr c)
   \<and> (case bind1_allowedOperations b of None \<Rightarrow> True
        | Some ops \<Rightarrow> list_ex (\<lambda>op. jprop command ''operation'' = JStr op) ops)"

definition check_clock :: "verification_clock \<Rightarrow> json \<Rightarrow> (signature_failure, unit) result" where
  "check_clock clock command =
     (let now = clock_now clock;
          issuedAt = num_of (jprop command ''issuedAt'');
          expiresAt = num_of (jprop command ''expiresAt'') in
      if \<not> clock_allowExpired clock \<and> expiresAt \<le> now then Inl (Security_failure Expired)
      else if issuedAt > now + or_default (clock_maxFutureSkewMs clock) DEFAULT_MAX_FUTURE_SKEW_MS
        then Inl (Security_failure Issued_in_future)
      else if expiresAt - issuedAt > or_default (clock_maxLifetimeMs clock) DEFAULT_MAX_LIFETIME_MS
        then Inl (Security_failure Lifetime_exceeded)
      else Inr ())"

definition signCommand ::
  "('pub, 'priv) web_crypto \<Rightarrow> (zschema \<Rightarrow> json \<Rightarrow> json option) \<Rightarrow> zschema \<Rightarrow>
   json \<Rightarrow> 'priv \<Rightarrow> string \<Rightarrow> (signature_failure, json) result" where
  "signCommand wc parse payload input privateKey keyId =
     (case parse (commandSchema payload) input of
        None \<Rightarrow> Inl Schema_failure
      | Some command \<Rightarrow> rbind (sign_document wc command privateKey) (\<lambda>value.
          Inr (JObj [(''command'', command), (''signature'', signature_json keyId value)])))"

definition verifyCommand ::
  "('pub, 'priv) web_crypto \<Rightarrow> (zschema \<Rightarrow> json \<Rightarrow> json option) \<Rightarrow> zschema \<Rightarrow>
   json \<Rightarrow> 'pub web_key \<Rightarrow> command_bindings_v1 \<Rightarrow> verification_clock \<Rightarrow> (signature_failure, json) result" where
  "verifyCommand wc parse payload input trustedDeviceKey bindings clock =
     (case parse (signedCommandSchema payload) input of
        None \<Rightarrow> Inl Schema_failure
      | Some signed \<Rightarrow>
          let command = jprop signed ''command'' in
          rbind (check_signature wc command (jprop signed ''signature'') trustedDeviceKey) (\<lambda>_.
            if \<not> command_bound_v1 bindings command then Inl (Security_failure Binding_mismatch)
            else rbind (check_clock clock command) (\<lambda>_. Inr command)))"

definition signEvent ::
  "('pub, 'priv) web_crypto \<Rightarrow> (zschema \<Rightarrow> json \<Rightarrow> json option) \<Rightarrow> zschema \<Rightarrow>
   json \<Rightarrow> 'priv \<Rightarrow> string \<Rightarrow> (signature_failure, json) result" where
  "signEvent wc parse payload input privateKey keyId =
     (case parse (eventSchema payload) input of
        None \<Rightarrow> Inl Schema_failure
      | Some event \<Rightarrow> rbind (sign_document wc event privateKey) (\<lambda>value.
          Inr (JObj [(''event'', event), (''signature'', signature_json keyId value)])))"

definition verifyEvent ::
  "('pub, 'priv) web_crypto \<Rightarrow> (zschema \<Rightarrow> json \<Rightarrow> json option) \<Rightarrow> zschema \<Rightarrow>
   json \<Rightarrow> 'pub web_key \<Rightarrow> string \<Rightarrow> string \<Rightarrow> (signature_failure, json) result" where
  "verifyEvent wc parse payload input trustedGatewayKey gatewayId conversationId =
     (case parse (signedEventSchema payload) input of
        None \<Rightarrow> Inl Schema_failure
      | Some signed \<Rightarrow>
          let event = jprop signed ''event'' in
          rbind (check_signature wc event (jprop signed ''signature'') trustedGatewayKey) (\<lambda>_.
            if jprop event ''gatewayId'' \<noteq> JStr gatewayId
              \<or> jprop event ''conversationId'' \<noteq> JStr conversationId
            then Inl (Security_failure Binding_mismatch)
            else Inr event))"

section \<open>What verification establishes\<close>

text \<open>\<open>signed_by wc key document\<close>: some signature over exactly the canonical bytes of the document
  verifies under the key.\<close>

definition signed_by :: "('pub, 'priv) web_crypto \<Rightarrow> 'pub web_key \<Rightarrow> json \<Rightarrow> bool" where
  "signed_by wc key document \<longleftrightarrow>
     (\<exists>k s m. importPublicKey wc key = Inr k \<and> canonicalJsonBytes document = Some m \<and> wc_verify wc k s m)"

lemma check_signature_signed: "check_signature wc d sg key = Inr u \<Longrightarrow> signed_by wc key d"
  unfolding check_signature_def verify_document_def signed_by_def
  by (auto simp: rbind_eq_Inr split: if_splits option.splits) blast

lemma check_signature_key:
  "check_signature wc d sg key = Inr u \<Longrightarrow> \<exists>i. key_id wc key = Inr i \<and> jprop sg ''keyId'' = JStr i"
  unfolding check_signature_def by (auto simp: rbind_eq_Inr split: if_splits)

lemma canonicalJsonBytes_utf8: "canonicalJsonBytes v = map_option utf8 (canonicalJson v)"
  by (simp add: canonicalJsonBytes_def utf8_def [abs_def])

lemma stable_signed:
  assumes "stable fmt s" "k \<noteq> ''signature''"
  shows "stable fmt (ZStrict [(k, s), (''signature'', signatureSchema)])"
  using assms stable_signatureSchema by auto

lemma signed_command_parsed:
  assumes "zod_parse fmt (signedMlp3CommandSchema new_URL) input = Some signed"
  shows "zod_parse fmt (mlp3CommandSchema new_URL) (jprop signed ''command'') = Some (jprop signed ''command'')"
proof -
  have "zod_parse fmt (mlp3CommandSchema new_URL) (jprop input ''command'') = Some (jprop signed ''command'')"
    using assms unfolding signedMlp3CommandSchema_def
    by (rule strict_parse_prop) auto
  then show ?thesis by (rule zod_parse_idem [OF stable_mlp3CommandSchema])
qed

lemma verifyMlp3Command_sound:
  assumes "verifyMlp3Command wc (zod_parse fmt) new_URL input key b = Inr c"
  shows "signed_by wc key c" "command_bound b c" "zod_parse fmt (mlp3CommandSchema new_URL) c = Some c"
proof -
  from assms obtain signed u where
    s: "zod_parse fmt (signedMlp3CommandSchema new_URL) input = Some signed"
    and c: "c = jprop signed ''command''" and b: "command_bound b c"
    and u: "check_signature wc c (jprop signed ''signature'') key = Inr u"
    unfolding verifyMlp3Command_def
    by (auto simp: rbind_eq_Inr Let_def split: option.splits if_splits)
  from u show "signed_by wc key c" by (rule check_signature_signed)
  from b show "command_bound b c" .
  from signed_command_parsed [OF s] c show "zod_parse fmt (mlp3CommandSchema new_URL) c = Some c" by simp
qed

text \<open>
  C6: what \<open>verifyMlp3Command\<close> returns is authentic. A returned command is signed under the trusted
  key over exactly its canonical bytes, is bound to the expected workspace, device, certificate,
  project and operations, and has the wire form of MLP/3, so it is a fixed point of the schema.
\<close>

theorem verifyMlp3Command_authentic:
  assumes "zod fmt parse" and "verifyMlp3Command wc parse new_URL input key b = Inr c"
  shows "signed_by wc key c \<and> command_bound b c \<and> parse (mlp3CommandSchema new_URL) c = Some c \<and> common_ok c"
proof -
  have eq: "parse = zod_parse fmt" using zod.parse_unique [OF assms(1)] by (simp add: fun_eq_iff)
  from verifyMlp3Command_sound [OF assms(2) [unfolded eq]] show ?thesis
    unfolding eq using zod_command_form by blast
qed

text \<open>A key pair of the platform: signatures verify, are non-empty byte strings, and digests have
  32 bytes.\<close>

definition key_pair :: "('pub, 'priv) web_crypto \<Rightarrow> 'pub web_key \<Rightarrow> 'priv \<Rightarrow> string \<Rightarrow> bool" where
  "key_pair wc key sk keyId \<longleftrightarrow>
     (\<exists>k. importPublicKey wc key = Inr k \<and> (\<forall>m. wc_verify wc k (wc_sign wc sk m) m))
   \<and> (\<forall>m. bytes (wc_sign wc sk m) \<and> wc_sign wc sk m \<noteq> [])
   \<and> (\<forall>m. bytes (wc_digest wc m) \<and> length (wc_digest wc m) = 32)
   \<and> key_id wc key = Inr keyId"

lemma length_sextets: "length (sextets bs) = (length bs * 4 + 2) div 3"
  by (induction bs rule: sextets.induct) simp_all

lemma key_pair_id_opaque:
  assumes "key_pair wc key sk keyId"
  shows "opaque (JStr keyId)"
proof -
  from assms have "\<exists>s. keyId = base64UrlEncode (wc_digest wc s)"
    by (auto simp: key_pair_def key_id_def publicKeyId_def sha256_def split: option.splits if_splits)
  then obtain s where "keyId = base64UrlEncode (wc_digest wc s)" ..
  moreover from assms have "bytes (wc_digest wc s)" "length (wc_digest wc s) = 32"
    by (simp_all add: key_pair_def)
  ultimately have "length keyId = 43" by (simp add: base64UrlEncode_sextets length_sextets)
  then show ?thesis by simp
qed

text \<open>A document that its schema leaves alone, signed and wrapped, is left alone by the signed
  schema and passes the signature check.\<close>

lemma signed_wrapper_parse:
  assumes doc: "zod_parse fmt s c = Some c" "c \<noteq> JUndefined" "k \<noteq> ''signature''"
    and id: "opaque (JStr keyId)" and val: "base64url_regex value"
  shows "zod_parse fmt (ZStrict [(k, s), (''signature'', signatureSchema)])
      (JObj [(k, c), (''signature'', signature_json keyId value)])
    = Some (JObj [(k, c), (''signature'', signature_json keyId value)])"
proof -
  have sig: "zod_parse fmt signatureSchema (signature_json keyId value) = Some (signature_json keyId value)"
    using id val by (simp add: signatureSchema_def signature_json_def known_keys_def jprop_def
        strict_member_def literal_def opaqueId_def)
  have "signature_json keyId value \<noteq> JUndefined" by (simp add: signature_json_def)
  with sig doc show ?thesis by (simp add: known_keys_def jprop_def strict_member_def)
qed

lemma check_signature_own:
  assumes "key_pair wc key sk keyId" "canonicalJsonBytes c = Some m"
  shows "check_signature wc c (signature_json keyId (base64UrlEncode (wc_sign wc sk m))) key = Inr ()"
proof -
  from assms(1) obtain k where "importPublicKey wc key = Inr k" "wc_verify wc k (wc_sign wc sk m) m"
    "bytes (wc_sign wc sk m)" "wc_sign wc sk m \<noteq> []" "key_id wc key = Inr keyId"
    by (auto simp: key_pair_def)
  with assms(2) show ?thesis
    by (simp add: check_signature_def verify_document_def signature_json_def jprop_def text_of_def
        base64_decode_encode)
qed

lemma parsed_document_bytes:
  assumes "stable fmt s" "zod_parse fmt s input = Some c" "encodable input" "json_wf input"
  shows "\<exists>m. canonicalJsonBytes c = Some m" "c \<noteq> JUndefined"
proof -
  from zod_parse_json [OF assms(1) _ assms(4,2)] assms(3) have "encodable c" by auto
  then show "\<exists>m. canonicalJsonBytes c = Some m" "c \<noteq> JUndefined"
    using canonicalJson_None_iff [of c] by (auto simp: canonicalJsonBytes_def)
qed

lemma sign_verify:
  assumes key: "key_pair wc key sk keyId"
    and p: "zod_parse fmt (mlp3CommandSchema new_URL) input = Some c" and json: "encodable input" "json_wf input"
    and bound: "command_bound b c"
  shows "\<exists>signed. signMlp3Command wc (zod_parse fmt) new_URL input sk keyId = Inr signed
    \<and> verifyMlp3Command wc (zod_parse fmt) new_URL signed key b = Inr c"
proof -
  obtain m where m: "canonicalJsonBytes c = Some m" and ne: "c \<noteq> JUndefined"
    using parsed_document_bytes [OF stable_mlp3CommandSchema p json] by blast
  let ?sig = "base64UrlEncode (wc_sign wc sk m)"
  let ?signed = "JObj [(''command'', c), (''signature'', signature_json keyId ?sig)]"
  have "base64url_regex ?sig"
    using key by (intro base64UrlEncode_regex) (simp_all add: key_pair_def)
  then have wrap: "zod_parse fmt (signedMlp3CommandSchema new_URL) ?signed = Some ?signed"
    unfolding signedMlp3CommandSchema_def
    using zod_parse_idem [OF stable_mlp3CommandSchema p] ne key_pair_id_opaque [OF key]
    by (intro signed_wrapper_parse) auto
  have "signMlp3Command wc (zod_parse fmt) new_URL input sk keyId = Inr ?signed"
    using p wrap m by (simp add: signMlp3Command_def sign_document_def)
  moreover have "verifyMlp3Command wc (zod_parse fmt) new_URL ?signed key b = Inr c"
    using wrap check_signature_own [OF key m] bound by (simp add: verifyMlp3Command_def jprop_def)
  ultimately show ?thesis by blast
qed

text \<open>
  C20: signing and verifying round trip. A JSON document the command schema accepts can be signed, and
  verification under the matching key and bindings returns exactly the parsed command, with its
  defaults filled in and its names trimmed.
\<close>

theorem mlp3_sign_verify_roundtrip:
  assumes "zod fmt parse" and "key_pair wc key sk keyId"
    and "parse (mlp3CommandSchema new_URL) input = Some c" "encodable input" "json_wf input"
    and "command_bound b c"
  shows "\<exists>signed. signMlp3Command wc parse new_URL input sk keyId = Inr signed
    \<and> verifyMlp3Command wc parse new_URL signed key b = Inr c"
proof -
  have eq: "parse = zod_parse fmt" using zod.parse_unique [OF assms(1)] by (simp add: fun_eq_iff)
  show ?thesis unfolding eq using assms(2) assms(3) [unfolded eq] assms(4-6) by (rule sign_verify)
qed

text \<open>
  The signed bytes identify the command. If two documents returned by verification have the same
  canonical bytes, they are the same command up to the order of object keys, so a signature cannot be
  moved to a different command.
\<close>

theorem signed_bytes_identify_command:
  assumes "canonicalJsonBytes c = Some m" "canonicalJsonBytes c' = Some m"
  shows "json_normal c = json_normal c'"
proof -
  from assms obtain s s' where "canonicalJson c = Some s" "canonicalJson c' = Some s'" "utf8 s = utf8 s'"
    by (auto simp: canonicalJsonBytes_utf8)
  then have "canonicalJson c = canonicalJson c'" "encodable c" "encodable c'"
    using canonicalJson_None_iff [of c] canonicalJson_None_iff [of c'] by (auto simp: utf8_inj)
  then show ?thesis using serialize_eq_iff [of c c'] by (simp add: canonicalJson_def)
qed

text \<open>
  C30: version 1 verification bounds how long a command stays usable. With the default policy a
  returned command has not expired, was issued at most 30 seconds ahead of the verifier's clock and
  expires at most 5 minutes after it was issued, hence at most 330 seconds after now.
\<close>

theorem verifyCommand_window:
  assumes "verifyCommand wc parse payload input key b
      \<lparr>clock_now = now, clock_maxFutureSkewMs = None, clock_maxLifetimeMs = None, clock_allowExpired = False\<rparr>
    = Inr c"
  shows "now < num_of (jprop c ''expiresAt'') \<and> num_of (jprop c ''expiresAt'') \<le> now + 330000
    \<and> num_of (jprop c ''issuedAt'') \<le> now + 30000 \<and> command_bound_v1 b c \<and> signed_by wc key c"
  using assms unfolding verifyCommand_def
  by (auto simp: rbind_eq_Inr Let_def check_clock_def or_default_def DEFAULT_MAX_FUTURE_SKEW_MS_def
      DEFAULT_MAX_LIFETIME_MS_def split: option.splits if_splits dest: check_signature_signed)

section \<open>A concrete key pair and concrete documents\<close>

definition sample_jwk :: jwk where
  "sample_jwk = \<lparr>jwk_kty = Some ''EC'', jwk_crv = Some ''P-256'', jwk_x = Some ''a'', jwk_y = Some ''b''\<rparr>"

definition sample_crypto :: "(nat, nat) web_crypto" where
  "sample_crypto = \<lparr>wc_digest = (\<lambda>m. replicate 32 (length m mod 256)),
     wc_sign = (\<lambda>k m. [k mod 256, length m mod 256]),
     wc_verify = (\<lambda>k s m. s = [k mod 256, length m mod 256]),
     wc_importKey = (\<lambda>j. Some 7), wc_exportKey = (\<lambda>k. sample_jwk)\<rparr>"

definition sample_key_id :: string where
  "sample_key_id = the (publicKeyId (wc_digest sample_crypto) sample_jwk)"

lemma sample_key_pair: "key_pair sample_crypto (Web_key sample_jwk) 7 sample_key_id"
proof -
  let ?doc = "JObj [(''crv'', JStr ''P-256''), (''kty'', JStr ''EC''), (''x'', JStr ''a''), (''y'', JStr ''b'')]"
  have "canonicalJson ?doc \<noteq> None" using canonicalJson_None_iff [of ?doc] by simp
  then obtain t where "canonicalJson ?doc = Some t" by blast
  then have "publicKeyId (wc_digest sample_crypto) sample_jwk = Some (sha256 (wc_digest sample_crypto) t)"
    by (simp add: publicKeyId_def sample_jwk_def)
  then have "key_id sample_crypto (Web_key sample_jwk) = Inr sample_key_id"
    by (simp add: key_id_def key_jwk_def sample_key_id_def)
  then show ?thesis by (simp add: key_pair_def importPublicKey_def sample_crypto_def list_all_iff)
qed

definition sample_bindings :: command_bindings where
  "sample_bindings = \<lparr>bind_workspaceId = ''w'', bind_deviceId = ''d'', bind_certificateId = ''e'',
     bind_projectId = Some ''p'', bind_allowedOperations = Some [''gateway.update.promote'']\<rparr>"

lemma sample_facts:
  "encodable sample_promote" "json_wf sample_promote" "command_bound sample_bindings sample_promote_parsed"
  by (simp_all add: sample_promote_def sample_promote_parsed_def command_bound_def sample_bindings_def jprop_def)

theorem mlp3_sign_verify_roundtrip_witness:
  "\<exists>signed. signMlp3Command sample_crypto (zod_parse (\<lambda>_ _. True)) (\<lambda>_. None) sample_promote 7 sample_key_id
      = Inr signed
    \<and> verifyMlp3Command sample_crypto (zod_parse (\<lambda>_ _. True)) (\<lambda>_. None) signed (Web_key sample_jwk) sample_bindings
      = Inr sample_promote_parsed"
  by (rule mlp3_sign_verify_roundtrip [OF zod_model.zod_axioms sample_key_pair sample_promote_parse sample_facts])

theorem verifyMlp3Command_authentic_witness:
  "\<exists>input. verifyMlp3Command sample_crypto (zod_parse (\<lambda>_ _. True)) (\<lambda>_. None) input (Web_key sample_jwk) sample_bindings
      = Inr sample_promote_parsed
    \<and> signed_by sample_crypto (Web_key sample_jwk) sample_promote_parsed
    \<and> command_bound sample_bindings sample_promote_parsed"
  using sign_verify [OF sample_key_pair sample_promote_parse sample_facts]
    verifyMlp3Command_authentic [OF zod_model.zod_axioms] by blast

text \<open>A version 1 cancel command, signed with the sample key.\<close>

definition sample_cancel_payload :: zschema where
  "sample_cancel_payload = ZStrict [(''operation'', literal ''cancel'')]"

definition sample_cancel :: json where
  "sample_cancel = JObj
     [(''kind'', JStr ''malink.command''), (''version'', JNum 1), (''commandId'', JStr ''c''),
      (''gatewayId'', JStr ''g''), (''deviceId'', JStr ''d''), (''sequenceEpoch'', JStr ''e''),
      (''conversationId'', JStr ''v''), (''revisionEpoch'', JStr ''r''), (''sequence'', JNum 1),
      (''baseRevision'', JNum 0), (''operation'', JStr ''cancel''), (''issuedAt'', JNum 1000),
      (''expiresAt'', JNum 61000), (''nonce'', JStr ''0123456789abcdef''),
      (''payload'', JObj [(''operation'', JStr ''cancel'')])]"

lemma sample_cancel_parse:
  "zod_parse fmt (commandSchema sample_cancel_payload) sample_cancel = Some sample_cancel"
  by (simp add: commandSchema_def sample_cancel_payload_def sample_cancel_def field_defs known_keys_def
    jprop_def strict_member_def PROTOCOL_VERSION_def isSafeInteger_def max_safe_integer_def
    command_refinement_def num_of_def)

definition sample_bindings_v1 :: command_bindings_v1 where
  "sample_bindings_v1 = \<lparr>bind1_gatewayId = ''g'', bind1_deviceId = ''d'', bind1_conversationId = None,
     bind1_allowedOperations = None\<rparr>"

definition sample_clock :: "int \<Rightarrow> verification_clock" where
  "sample_clock now = \<lparr>clock_now = now, clock_maxFutureSkewMs = None, clock_maxLifetimeMs = None,
     clock_allowExpired = False\<rparr>"

lemma sample_cancel_verified:
  "\<exists>input. verifyCommand sample_crypto (zod_parse fmt) sample_cancel_payload input (Web_key sample_jwk)
     sample_bindings_v1 (sample_clock 2000) = Inr sample_cancel"
proof -
  obtain m where m: "canonicalJsonBytes sample_cancel = Some m"
    using canonicalJson_None_iff [of sample_cancel]
    by (auto simp: canonicalJsonBytes_def sample_cancel_def)
  let ?sig = "base64UrlEncode (wc_sign sample_crypto 7 m)"
  let ?signed = "JObj [(''command'', sample_cancel), (''signature'', signature_json sample_key_id ?sig)]"
  have "base64url_regex ?sig"
    using sample_key_pair by (intro base64UrlEncode_regex) (simp_all add: key_pair_def)
  then have wrap: "zod_parse fmt (signedCommandSchema sample_cancel_payload) ?signed = Some ?signed"
    unfolding signedCommandSchema_def using sample_cancel_parse key_pair_id_opaque [OF sample_key_pair]
    by (intro signed_wrapper_parse) (auto simp: sample_cancel_def)
  have "command_bound_v1 sample_bindings_v1 sample_cancel" "check_clock (sample_clock 2000) sample_cancel = Inr ()"
    by (simp_all add: command_bound_v1_def sample_bindings_v1_def sample_cancel_def jprop_def check_clock_def
        sample_clock_def or_default_def num_of_def DEFAULT_MAX_FUTURE_SKEW_MS_def DEFAULT_MAX_LIFETIME_MS_def)
  with wrap check_signature_own [OF sample_key_pair m]
  have "verifyCommand sample_crypto (zod_parse fmt) sample_cancel_payload ?signed (Web_key sample_jwk)
     sample_bindings_v1 (sample_clock 2000) = Inr sample_cancel"
    by (simp add: verifyCommand_def jprop_def)
  then show ?thesis by blast
qed

theorem verifyCommand_window_witness:
  "2000 < num_of (jprop sample_cancel ''expiresAt'') \<and> num_of (jprop sample_cancel ''expiresAt'') \<le> 2000 + 330000
    \<and> num_of (jprop sample_cancel ''issuedAt'') \<le> 2000 + 30000
    \<and> command_bound_v1 sample_bindings_v1 sample_cancel \<and> signed_by sample_crypto (Web_key sample_jwk) sample_cancel"
  using sample_cancel_verified [of "\<lambda>_ _. True"] verifyCommand_window unfolding sample_clock_def by blast

end
