(* ===== verification/Log_File.thy ===== *)
theory Log_File
  imports Canonical_Json
begin

text \<open>
  Files that grow line by line, one JSON text per line: what the command journal and the Matrix outbox
  write. A line is blank, torn (bytes that are not a JSON text) or the value \<open>JSON.parse\<close> yields for
  it; also the checks on parsed values that the parsers of both logs share.
\<close>

section \<open>Values written and read back\<close>

text \<open>\<open>JSON.parse (JSON.stringify v)\<close>: undefined properties vanish, undefined items and non-finite
  numbers become \<open>null\<close>.\<close>

function reparse :: "json \<Rightarrow> json" where
  "reparse (JArr xs) = JArr (map (\<lambda>x. if x = JUndefined then JNull else reparse x) xs)"
| "reparse (JObj kvs) = JObj (map (\<lambda>(k, v). (k, reparse v)) (filter (\<lambda>(k, v). v \<noteq> JUndefined) kvs))"
| "reparse JNonFinite = JNull"
| "reparse JNull = JNull"
| "reparse JUndefined = JUndefined"
| "reparse (JBool b) = JBool b"
| "reparse (JNum n) = JNum n"
| "reparse (JStr s) = JStr s"
  by pat_completeness auto
termination
  by (relation "measure size") (auto simp: size_json_member less_Suc_eq_le intro: size_list_estimation')

lemma reparse_encodable [simp]: "encodable v \<Longrightarrow> reparse v = v"
proof (induction v rule: reparse.induct)
  case (1 xs)
  then have "map (\<lambda>x. if x = JUndefined then JNull else reparse x) xs = map id xs"
    by (intro map_cong) auto
  then show ?case by simp
next
  case (2 kvs)
  have "filter (\<lambda>(k, v). v \<noteq> JUndefined) kvs = kvs" using 2(2) by (intro filter_True) auto
  moreover have "map (\<lambda>(k, v). (k, reparse v)) kvs = map id kvs"
  proof (intro map_cong refl)
    fix p assume p: "p \<in> set kvs"
    obtain k v where kv: "p = (k, v)" by (cases p)
    from p kv 2(2) have "encodable v" "v \<noteq> JUndefined" by auto
    with 2(1) [of "(k, v)" k v] p kv show "(case p of (k, v) \<Rightarrow> (k, reparse v)) = id p" by auto
  qed
  ultimately show ?case by simp
qed auto

text \<open>\<open>String(value)\<close>.\<close>

function js_string :: "json \<Rightarrow> string" where
  "js_string (JStr s) = s"
| "js_string JNull = ''null''"
| "js_string JUndefined = ''undefined''"
| "js_string (JBool b) = (if b then ''true'' else ''false'')"
| "js_string (JNum n) = stringify_int n"
| "js_string JNonFinite = ''NaN''"
| "js_string (JObj kvs) = ''[object Object]''"
| "js_string (JArr xs) = join_comma (map (\<lambda>x. if x = JNull \<or> x = JUndefined then [] else js_string x) xs)"
  by pat_completeness auto
termination
  by (relation "measure size") (auto simp: less_Suc_eq_le intro: size_list_estimation')

section \<open>Lines\<close>

datatype journal_line = Blank_line | Torn_line | Json_line json

text \<open>Text appended after a torn line continues it.\<close>

definition add_line :: "journal_line \<Rightarrow> journal_line list option \<Rightarrow> journal_line list" where
  "add_line line file =
     (case file of None \<Rightarrow> [line]
      | Some lines \<Rightarrow> if lines \<noteq> [] \<and> last lines = Torn_line then lines else lines @ [line])"

section \<open>Checks on parsed values\<close>

definition is_string :: "json \<Rightarrow> bool" where
  "is_string v = (case v of JStr _ \<Rightarrow> True | _ \<Rightarrow> False)"

definition nonempty_string :: "json \<Rightarrow> bool" where
  "nonempty_string v = (case v of JStr s \<Rightarrow> s \<noteq> [] | _ \<Rightarrow> False)"

definition is_safe_integer :: "json \<Rightarrow> bool" where
  "is_safe_integer v = (case v of JNum n \<Rightarrow> isSafeInteger n | _ \<Rightarrow> False)"

definition undefined_or :: "(json \<Rightarrow> bool) \<Rightarrow> json \<Rightarrow> bool" where
  "undefined_or p v \<longleftrightarrow> v = JUndefined \<or> p v"

definition is_boolean :: "json \<Rightarrow> bool" where
  "is_boolean v = (case v of JBool _ \<Rightarrow> True | _ \<Rightarrow> False)"

definition optional_member :: "string \<Rightarrow> string option \<Rightarrow> (string \<times> json) list" where
  "optional_member k x = (case x of None \<Rightarrow> [] | Some s \<Rightarrow> [(k, JStr s)])"

end
