(* ===== verification/Command_Journal.thy ===== *)
theory Command_Journal
  imports Signatures Log_File
begin

text \<open>
  Model of \<open>src/gateway/matrix/fileMlp3CommandJournal.ts\<close>, the durable execution-once boundary of the
  gateway: a write-ahead log of accepted, dispatched, terminal and delivered entries, replayed into a
  map of records on start.

  The log is the list of its lines; a line is blank, torn (bytes that are not a JSON text) or the
  value \<open>JSON.parse\<close> yields. An append writes one line and synchronizes it; its outcome is an
  argument: success, failure before any byte was written, failure after the whole line was written
  (\<open>sync\<close> throws), or failure within the line. The serialization of operations by the promise chain
  makes every operation one step. \<open>randomUUID\<close>, the SHA-256 hex digest, the command schema and the
  event validator are arguments.
\<close>

section \<open>Keys and fingerprints\<close>

definition mlp3CommandKey :: "json \<Rightarrow> string option" where
  "mlp3CommandKey command = canonicalJson (JArr
     [jprop command ''workspaceId'', jprop command ''deviceId'', jprop command ''certificateId'',
      jprop command ''commandId''])"

definition mlp3CommandFingerprint :: "(string \<Rightarrow> string) \<Rightarrow> json \<Rightarrow> string option" where
  "mlp3CommandFingerprint sha256hex command =
     map_option (\<lambda>text. ''v3:'' @ sha256hex (''malink-command:v3'' @ [CHR 0x00] @ text)) (canonicalJson command)"

section \<open>Records and entries\<close>

datatype journal_status = Accepted | Dispatched | Terminal

record journal_record =
  jr_command :: json
  jr_fingerprint :: string
  jr_roomId :: "string option"
  jr_matrixEventId :: "string option"
  jr_status :: journal_status
  jr_acceptedAt :: int
  jr_dispatchedAt :: "int option"
  jr_terminalAt :: "int option"
  jr_terminal :: "json option"
  jr_terminalDeliveryEventId :: "string option"
  jr_terminalDeliveredAt :: "int option"

datatype journal_entry =
    Header_entry string
  | Accepted_entry string string json "string option" "string option" int
  | Dispatched_entry string string int
  | Terminal_entry string string int json
  | Terminal_delivered_entry string string string int

datatype journal_error =
    Corrupt_line nat
  | Invalid_entry nat
  | Unsupported_version nat
  | Invalid_header nat
  | Invalid_entry_binding nat
  | Invalid_acceptance_time nat
  | Invalid_dispatch_time nat
  | Invalid_terminal_entry nat
  | Invalid_terminal_delivery nat
  | Unknown_entry nat
  | Duplicate_header
  | Duplicate_acceptance nat
  | Invalid_acceptance_binding nat
  | Orphaned_transition nat
  | Invalid_dispatched_transition nat
  | Duplicate_terminal_transition nat
  | Invalid_delivery_transition nat
  | Missing_header
  | Schema_error
  | Journal_type_error
  | Journal_conflict
  | No_exact_acceptance
  | Different_terminal_result
  | No_terminal_event
  | Different_delivery_event
  | Not_initialized
  | Io_error

type_synonym journal_records = "(string, journal_record) jsmap"

text \<open>What the journal imports: the command schema, the event validators and the digest.\<close>

record journal_env =
  env_parse :: "json \<Rightarrow> json option"
  env_event_ok :: "json \<Rightarrow> bool"
  env_sha256hex :: "string \<Rightarrow> string"

section \<open>\<open>parseMlp3CommandJournalEntry\<close>\<close>

definition isMlp3CommandTerminal :: "(json \<Rightarrow> bool) \<Rightarrow> json \<Rightarrow> bool" where
  "isMlp3CommandTerminal event_ok v \<longleftrightarrow>
     is_object v
   \<and> js_string (jprop v ''outcome'') \<in> set [''succeeded'', ''failed'', ''rejected'', ''interrupted'']
   \<and> nonempty_string (jprop v ''eventId'')
   \<and> undefined_or is_string (jprop v ''sessionId'')
   \<and> undefined_or is_string (jprop v ''code'')
   \<and> undefined_or is_string (jprop v ''error'')
   \<and> undefined_or (\<lambda>x. x = JStr ''cancelled'') (jprop v ''reconciledOutcome'')
   \<and> undefined_or is_boolean (jprop v ''retryable'')
   \<and> undefined_or event_ok (jprop v ''event'')"

text \<open>\<open>typeof x === 'string' && x ? {x} : {}\<close>.\<close>

definition optional_text :: "json \<Rightarrow> string option" where
  "optional_text v = (if nonempty_string v then Some (text_of v) else None)"

definition parseMlp3CommandJournalEntry ::
  "journal_env \<Rightarrow> json \<Rightarrow> nat \<Rightarrow> (journal_error, journal_entry) result" where
  "parseMlp3CommandJournalEntry env v line =
     (if \<not> is_object v then Inl (Invalid_entry line)
      else if jprop v ''version'' \<noteq> JNum 3 then Inl (Unsupported_version line)
      else if jprop v ''kind'' = JStr ''journal'' then
        (if \<not> nonempty_string (jprop v ''generation'') then Inl (Invalid_header line)
         else Inr (Header_entry (text_of (jprop v ''generation''))))
      else if \<not> nonempty_string (jprop v ''key'') \<or> \<not> nonempty_string (jprop v ''fingerprint'')
        then Inl (Invalid_entry_binding line)
      else
        let key = text_of (jprop v ''key''); fingerprint = text_of (jprop v ''fingerprint'') in
        if jprop v ''kind'' = JStr ''accepted'' then
          (if \<not> is_safe_integer (jprop v ''acceptedAt'') then Inl (Invalid_acceptance_time line)
           else (case env_parse env (jprop v ''command'') of
               None \<Rightarrow> Inl Schema_error
             | Some command \<Rightarrow> Inr (Accepted_entry key fingerprint command
                 (optional_text (jprop v ''roomId'')) (optional_text (jprop v ''matrixEventId''))
                 (num_of (jprop v ''acceptedAt'')))))
        else if jprop v ''kind'' = JStr ''dispatched'' then
          (if \<not> is_safe_integer (jprop v ''dispatchedAt'') then Inl (Invalid_dispatch_time line)
           else Inr (Dispatched_entry key fingerprint (num_of (jprop v ''dispatchedAt''))))
        else if jprop v ''kind'' = JStr ''terminal'' then
          (if \<not> is_safe_integer (jprop v ''terminalAt'')
              \<or> \<not> isMlp3CommandTerminal (env_event_ok env) (jprop v ''terminal'')
           then Inl (Invalid_terminal_entry line)
           else Inr (Terminal_entry key fingerprint (num_of (jprop v ''terminalAt'')) (jprop v ''terminal'')))
        else if jprop v ''kind'' = JStr ''terminal_delivered'' then
          (if \<not> is_safe_integer (jprop v ''deliveredAt'') \<or> \<not> nonempty_string (jprop v ''matrixEventId'')
           then Inl (Invalid_terminal_delivery line)
           else Inr (Terminal_delivered_entry key fingerprint (text_of (jprop v ''matrixEventId''))
             (num_of (jprop v ''deliveredAt''))))
        else Inl (Unknown_entry line))"

section \<open>\<open>parseMlp3CommandJournal\<close>\<close>

record replay_state =
  rs_generation :: "string option"
  rs_headerCount :: nat
  rs_records :: journal_records

definition accepted_record ::
  "json \<Rightarrow> string \<Rightarrow> string option \<Rightarrow> string option \<Rightarrow> int \<Rightarrow> journal_record" where
  "accepted_record command fingerprint roomId mxEventId acceptedAt =
     \<lparr>jr_command = command, jr_fingerprint = fingerprint, jr_roomId = roomId,
      jr_matrixEventId = mxEventId, jr_status = Accepted, jr_acceptedAt = acceptedAt,
      jr_dispatchedAt = None, jr_terminalAt = None, jr_terminal = None,
      jr_terminalDeliveryEventId = None, jr_terminalDeliveredAt = None\<rparr>"

definition replay_transition ::
  "nat \<Rightarrow> string \<Rightarrow> string \<Rightarrow> (journal_record \<Rightarrow> (journal_error, journal_record) result) \<Rightarrow>
   replay_state \<Rightarrow> (journal_error, replay_state) result" where
  "replay_transition line key fingerprint f s =
     (case js_get (rs_records s) key of
        None \<Rightarrow> Inl (Orphaned_transition line)
      | Some record \<Rightarrow>
          if jr_fingerprint record \<noteq> fingerprint then Inl (Orphaned_transition line)
          else rbind (f record) (\<lambda>record'. Inr (s\<lparr>rs_records := js_set key record' (rs_records s)\<rparr>)))"

fun replay_entry ::
  "journal_env \<Rightarrow> nat \<Rightarrow> journal_entry \<Rightarrow> replay_state \<Rightarrow> (journal_error, replay_state) result" where
  "replay_entry env line (Header_entry generation) s =
     (if rs_headerCount s + 1 > 1 then Inl Duplicate_header
      else Inr (s\<lparr>rs_headerCount := rs_headerCount s + 1, rs_generation := Some generation\<rparr>))"
| "replay_entry env line (Accepted_entry key fingerprint command roomId mxEventId acceptedAt) s =
     (if js_has (rs_records s) key then Inl (Duplicate_acceptance line)
      else (case (mlp3CommandKey command, mlp3CommandFingerprint (env_sha256hex env) command) of
          (Some key', Some fingerprint') \<Rightarrow>
            if key \<noteq> key' \<or> fingerprint \<noteq> fingerprint' then Inl (Invalid_acceptance_binding line)
            else Inr (s\<lparr>rs_records := js_set key
              (accepted_record command fingerprint roomId mxEventId acceptedAt) (rs_records s)\<rparr>)
        | _ \<Rightarrow> Inl Journal_type_error))"
| "replay_entry env line (Dispatched_entry key fingerprint dispatchedAt) s =
     replay_transition line key fingerprint (\<lambda>record.
       if jr_status record \<noteq> Accepted then Inl (Invalid_dispatched_transition line)
       else Inr (record\<lparr>jr_status := Dispatched, jr_dispatchedAt := Some dispatchedAt\<rparr>)) s"
| "replay_entry env line (Terminal_entry key fingerprint terminalAt terminal) s =
     replay_transition line key fingerprint (\<lambda>record.
       if jr_status record = Terminal then Inl (Duplicate_terminal_transition line)
       else Inr (record\<lparr>jr_status := Terminal, jr_terminalAt := Some terminalAt,
                        jr_terminal := Some terminal\<rparr>)) s"
| "replay_entry env line (Terminal_delivered_entry key fingerprint mxEventId deliveredAt) s =
     replay_transition line key fingerprint (\<lambda>record.
       if jr_status record \<noteq> Terminal \<or> jr_terminalDeliveryEventId record \<notin> {None, Some []}
       then Inl (Invalid_delivery_transition line)
       else Inr (record\<lparr>jr_terminalDeliveryEventId := Some mxEventId,
                        jr_terminalDeliveredAt := Some deliveredAt\<rparr>)) s"

definition replay_line ::
  "journal_env \<Rightarrow> nat \<times> journal_line \<Rightarrow> replay_state \<Rightarrow> (journal_error, replay_state) result" where
  "replay_line env p s =
     (case p of (index, line) \<Rightarrow> (case line of
        Blank_line \<Rightarrow> Inr s
      | Torn_line \<Rightarrow> Inl (Corrupt_line (index + 1))
      | Json_line v \<Rightarrow> rbind (parseMlp3CommandJournalEntry env v (index + 1))
          (\<lambda>entry. replay_entry env (index + 1) entry s)))"

definition replay_start :: replay_state where
  "replay_start = \<lparr>rs_generation = None, rs_headerCount = 0, rs_records = []\<rparr>"

definition parseMlp3CommandJournal ::
  "journal_env \<Rightarrow> journal_line list \<Rightarrow> (journal_error, string \<times> journal_records) result" where
  "parseMlp3CommandJournal env lines =
     rbind (rfold (replay_line env) (enumerate 0 lines) replay_start) (\<lambda>s.
       case rs_generation s of
         None \<Rightarrow> Inl Missing_header
       | Some generation \<Rightarrow>
           if generation = [] then Inl Missing_header else Inr (generation, rs_records s))"

section \<open>The journal and its appends\<close>

record journal =
  j_records :: journal_records
  j_initialized :: bool
  j_generation :: "string option"
  j_file :: "journal_line list option"

datatype io = Io_ok | Io_fails_before | Io_fails_after | Io_fails_within

definition header_json :: "string \<Rightarrow> json" where
  "header_json generation = JObj
     [(''version'', JNum 3), (''kind'', JStr ''journal''), (''generation'', JStr generation)]"

fun entry_json :: "journal_entry \<Rightarrow> json" where
  "entry_json (Header_entry generation) = header_json generation"
| "entry_json (Accepted_entry key fingerprint command roomId mxEventId acceptedAt) = JObj
     ([(''version'', JNum 3), (''kind'', JStr ''accepted''), (''key'', JStr key),
       (''fingerprint'', JStr fingerprint), (''command'', command)]
      @ optional_member ''roomId'' roomId @ optional_member ''matrixEventId'' mxEventId
      @ [(''acceptedAt'', JNum acceptedAt)])"
| "entry_json (Dispatched_entry key fingerprint dispatchedAt) = JObj
     [(''version'', JNum 3), (''kind'', JStr ''dispatched''), (''key'', JStr key),
      (''fingerprint'', JStr fingerprint), (''dispatchedAt'', JNum dispatchedAt)]"
| "entry_json (Terminal_entry key fingerprint terminalAt terminal) = JObj
     [(''version'', JNum 3), (''kind'', JStr ''terminal''), (''key'', JStr key),
      (''fingerprint'', JStr fingerprint), (''terminalAt'', JNum terminalAt), (''terminal'', terminal)]"
| "entry_json (Terminal_delivered_entry key fingerprint mxEventId deliveredAt) = JObj
     [(''version'', JNum 3), (''kind'', JStr ''terminal_delivered''), (''key'', JStr key),
      (''fingerprint'', JStr fingerprint), (''matrixEventId'', JStr mxEventId),
      (''deliveredAt'', JNum deliveredAt)]"

definition journal_append :: "io \<Rightarrow> journal_entry \<Rightarrow> journal \<Rightarrow> (journal_error, unit) result \<times> journal" where
  "journal_append outcome entry j =
     (let written = j\<lparr>j_file := Some (add_line (Json_line (reparse (entry_json entry))) (j_file j))\<rparr> in
      case outcome of
        Io_ok \<Rightarrow> (Inr (), written)
      | Io_fails_before \<Rightarrow> (Inl Io_error, j)
      | Io_fails_after \<Rightarrow> (Inl Io_error, written)
      | Io_fails_within \<Rightarrow> (Inl Io_error, j\<lparr>j_file := Some (add_line Torn_line (j_file j))\<rparr>))"

section \<open>Operations of \<open>FileMlp3CommandJournal\<close>\<close>

definition new_journal :: "journal_line list option \<Rightarrow> journal" where
  "new_journal file = \<lparr>j_records = [], j_initialized = False, j_generation = None, j_file = file\<rparr>"

definition journal_load ::
  "journal_env \<Rightarrow> string \<Rightarrow> io \<Rightarrow> journal \<Rightarrow> (journal_error, unit) result \<times> journal" where
  "journal_load env uuid outcome j =
     (case j_file j of
        None \<Rightarrow>
          (case journal_append outcome (Header_entry uuid) (j\<lparr>j_generation := Some uuid\<rparr>) of
             (Inl e, j') \<Rightarrow> (Inl e, j')
           | (Inr _, j') \<Rightarrow> (Inr (), j'\<lparr>j_initialized := True\<rparr>))
      | Some lines \<Rightarrow>
          (case parseMlp3CommandJournal env lines of
             Inl e \<Rightarrow> (Inl e, j)
           | Inr (generation, records) \<Rightarrow>
               (Inr (), j\<lparr>j_generation := Some generation,
                  j_records := fold (\<lambda>(key, record). js_set key record) records (j_records j),
                  j_initialized := True\<rparr>)))"

text \<open>A call: the generation a first load would draw and the outcomes of its at most two appends.\<close>

record call_io =
  io_uuid :: string
  io_load :: io
  io_append :: io

definition when_loaded ::
  "journal_env \<Rightarrow> call_io \<Rightarrow> (journal \<Rightarrow> (journal_error, 'a) result \<times> journal) \<Rightarrow>
   journal \<Rightarrow> (journal_error, 'a) result \<times> journal" where
  "when_loaded env io operation j =
     (if j_initialized j then operation j
      else case journal_load env (io_uuid io) (io_load io) j of
             (Inl e, j') \<Rightarrow> (Inl e, j')
           | (Inr _, j') \<Rightarrow> operation j')"

definition journal_initialize :: "journal_env \<Rightarrow> call_io \<Rightarrow> journal \<Rightarrow> (journal_error, unit) result \<times> journal" where
  "journal_initialize env io = when_loaded env io (\<lambda>j. (Inr (), j))"

definition getGeneration :: "journal \<Rightarrow> (journal_error, string) result" where
  "getGeneration j =
     (if \<not> j_initialized j then Inl Not_initialized
      else case j_generation j of
             None \<Rightarrow> Inl Not_initialized
           | Some g \<Rightarrow> if g = [] then Inl Not_initialized else Inr g)"

datatype journal_claim = Claim_accepted journal_record | Claim_duplicate journal_record

definition claim_loaded ::
  "journal_env \<Rightarrow> io \<Rightarrow> json \<Rightarrow> int \<Rightarrow> (string \<times> string) option \<Rightarrow>
   journal \<Rightarrow> (journal_error, journal_claim) result \<times> journal" where
  "claim_loaded env outcome commandInput now context j =
     (case env_parse env commandInput of
       None \<Rightarrow> (Inl Schema_error, j)
     | Some command \<Rightarrow>
         (case (mlp3CommandKey command, mlp3CommandFingerprint (env_sha256hex env) command) of
            (Some key, Some fingerprint) \<Rightarrow>
              (case js_get (j_records j) key of
                 Some current \<Rightarrow>
                   if jr_fingerprint current \<noteq> fingerprint then (Inl Journal_conflict, j)
                   else (Inr (Claim_duplicate current), j)
               | None \<Rightarrow>
                   (case journal_append outcome
                      (Accepted_entry key fingerprint command (map_option fst context)
                         (map_option snd context) now) j of
                      (Inl e, j') \<Rightarrow> (Inl e, j')
                    | (Inr _, j') \<Rightarrow>
                        let record = accepted_record command fingerprint (map_option fst context)
                              (map_option snd context) now in
                        (Inr (Claim_accepted record), j'\<lparr>j_records := js_set key record (j_records j')\<rparr>)))
          | _ \<Rightarrow> (Inl Journal_type_error, j)))"

definition journal_claim ::
  "journal_env \<Rightarrow> call_io \<Rightarrow> json \<Rightarrow> int \<Rightarrow> (string \<times> string) option \<Rightarrow>
   journal \<Rightarrow> (journal_error, journal_claim) result \<times> journal" where
  "journal_claim env io commandInput now context =
     when_loaded env io (claim_loaded env (io_append io) commandInput now context)"

definition requireExact ::
  "journal_env \<Rightarrow> json \<Rightarrow> journal \<Rightarrow> (journal_error, string \<times> string \<times> journal_record) result" where
  "requireExact env command j =
     (case (mlp3CommandKey command, mlp3CommandFingerprint (env_sha256hex env) command) of
        (Some key, Some fingerprint) \<Rightarrow>
          (case js_get (j_records j) key of
             None \<Rightarrow> Inl No_exact_acceptance
           | Some record \<Rightarrow>
               if jr_fingerprint record \<noteq> fingerprint then Inl No_exact_acceptance
               else Inr (key, fingerprint, record))
      | _ \<Rightarrow> Inl Journal_type_error)"

text \<open>Appending an entry and then updating the record it is about.\<close>

definition append_update ::
  "io \<Rightarrow> journal_entry \<Rightarrow> string \<Rightarrow> journal_record \<Rightarrow> journal \<Rightarrow> (journal_error, unit) result \<times> journal" where
  "append_update outcome entry key record' j =
     (case journal_append outcome entry j of
        (Inl e, j') \<Rightarrow> (Inl e, j')
      | (Inr _, j') \<Rightarrow> (Inr (), j'\<lparr>j_records := js_set key record' (j_records j')\<rparr>))"

definition markDispatched ::
  "journal_env \<Rightarrow> call_io \<Rightarrow> json \<Rightarrow> int \<Rightarrow> journal \<Rightarrow> (journal_error, unit) result \<times> journal" where
  "markDispatched env io command now = when_loaded env io (\<lambda>j.
     case requireExact env command j of
       Inl e \<Rightarrow> (Inl e, j)
     | Inr (key, fingerprint, record) \<Rightarrow>
         if jr_status record = Terminal \<or> jr_status record = Dispatched then (Inr (), j)
         else append_update (io_append io) (Dispatched_entry key fingerprint now) key
           (record\<lparr>jr_status := Dispatched, jr_dispatchedAt := Some now\<rparr>) j)"

definition journal_settle ::
  "journal_env \<Rightarrow> call_io \<Rightarrow> json \<Rightarrow> json \<Rightarrow> int \<Rightarrow> journal \<Rightarrow> (journal_error, unit) result \<times> journal" where
  "journal_settle env io command terminal now = when_loaded env io (\<lambda>j.
     case requireExact env command j of
       Inl e \<Rightarrow> (Inl e, j)
     | Inr (key, fingerprint, record) \<Rightarrow>
         if jr_status record = Terminal then
           (case (Option.bind (jr_terminal record) canonicalJson, canonicalJson terminal) of
              (Some a, Some b) \<Rightarrow> (if a \<noteq> b then Inl Different_terminal_result else Inr (), j)
            | _ \<Rightarrow> (Inl Journal_type_error, j))
         else append_update (io_append io) (Terminal_entry key fingerprint now terminal) key
           (record\<lparr>jr_status := Terminal, jr_terminalAt := Some now, jr_terminal := Some terminal\<rparr>) j)"

definition terminal_event :: "journal_record \<Rightarrow> json" where
  "terminal_event record = (case jr_terminal record of None \<Rightarrow> JUndefined | Some t \<Rightarrow> jprop t ''event'')"

definition markTerminalDelivered ::
  "journal_env \<Rightarrow> call_io \<Rightarrow> json \<Rightarrow> string \<Rightarrow> int \<Rightarrow> journal \<Rightarrow> (journal_error, unit) result \<times> journal" where
  "markTerminalDelivered env io command mxEventId now = when_loaded env io (\<lambda>j.
     case requireExact env command j of
       Inl e \<Rightarrow> (Inl e, j)
     | Inr (key, fingerprint, record) \<Rightarrow>
         if jr_status record \<noteq> Terminal \<or> \<not> truthy (terminal_event record) then (Inl No_terminal_event, j)
         else if jr_terminalDeliveryEventId record \<notin> {None, Some []} then
           (if jr_terminalDeliveryEventId record \<noteq> Some mxEventId then Inl Different_delivery_event
            else Inr (), j)
         else append_update (io_append io) (Terminal_delivered_entry key fingerprint mxEventId now) key
           (record\<lparr>jr_terminalDeliveryEventId := Some mxEventId, jr_terminalDeliveredAt := Some now\<rparr>) j)"

section \<open>Queries\<close>

definition journal_get ::
  "journal_env \<Rightarrow> call_io \<Rightarrow> json \<Rightarrow> journal \<Rightarrow> (journal_error, journal_record option) result \<times> journal" where
  "journal_get env io command = when_loaded env io (\<lambda>j.
     case mlp3CommandKey command of
       None \<Rightarrow> (Inl Journal_type_error, j)
     | Some key \<Rightarrow>
         (case js_get (j_records j) key of
            None \<Rightarrow> (Inr None, j)
          | Some current \<Rightarrow>
              (case mlp3CommandFingerprint (env_sha256hex env) command of
                 None \<Rightarrow> (Inl Journal_type_error, j)
               | Some fingerprint \<Rightarrow>
                   if jr_fingerprint current \<noteq> fingerprint then (Inl Journal_conflict, j)
                   else (Inr (Some current), j))))"

definition unfinished ::
  "journal_env \<Rightarrow> call_io \<Rightarrow> journal \<Rightarrow> (journal_error, journal_record list) result \<times> journal" where
  "unfinished env io = when_loaded env io (\<lambda>j.
     (Inr (filter (\<lambda>r. jr_status r \<noteq> Terminal) (js_values (j_records j))), j))"

definition pendingTerminalDeliveries ::
  "journal_env \<Rightarrow> call_io \<Rightarrow> journal \<Rightarrow> (journal_error, journal_record list) result \<times> journal" where
  "pendingTerminalDeliveries env io = when_loaded env io (\<lambda>j.
     (Inr (filter (\<lambda>r. jr_status r = Terminal \<and> terminal_event r \<noteq> JUndefined
             \<and> jr_terminalDeliveryEventId r = None) (js_values (j_records j))), j))"

definition terminalProjectDeletions ::
  "journal_env \<Rightarrow> call_io \<Rightarrow> journal \<Rightarrow> (journal_error, journal_record list) result \<times> journal" where
  "terminalProjectDeletions env io = when_loaded env io (\<lambda>j.
     (Inr (filter (\<lambda>r. jr_status r = Terminal
             \<and> jprop (jr_command r) ''operation'' = JStr ''project.delete'') (js_values (j_records j))), j))"

definition archived_match :: "string \<Rightarrow> string \<Rightarrow> string \<Rightarrow> journal_record \<Rightarrow> bool" where
  "archived_match workspaceId projectId sessionId r \<longleftrightarrow>
     (let event = terminal_event r in
      jprop (jr_command r) ''operation'' = JStr ''session.set_lifecycle''
    \<and> (case jr_terminal r of None \<Rightarrow> False | Some t \<Rightarrow> jprop t ''outcome'' = JStr ''succeeded'')
    \<and> jprop event ''workspaceId'' = JStr workspaceId
    \<and> jprop event ''projectId'' = JStr projectId
    \<and> jprop event ''sessionId'' = JStr sessionId
    \<and> jprop (jprop event ''payload'') ''type'' = JStr ''session.lifecycle''
    \<and> jprop (jprop event ''payload'') ''state'' = JStr ''deleted'')"

definition archivedSessionEvent ::
  "journal_env \<Rightarrow> call_io \<Rightarrow> string \<Rightarrow> string \<Rightarrow> string \<Rightarrow>
   journal \<Rightarrow> (journal_error, json option) result \<times> journal" where
  "archivedSessionEvent env io workspaceId projectId sessionId = when_loaded env io (\<lambda>j.
     (Inr (case find (archived_match workspaceId projectId sessionId) (rev (js_values (j_records j))) of
             None \<Rightarrow> None
           | Some r \<Rightarrow> if truthy (terminal_event r) then Some (terminal_event r) else None), j))"

section \<open>What the journal needs of the command schema\<close>

text \<open>The contract between the protocol package and the journal.\<close>

locale command_schema =
  fixes parse :: "json \<Rightarrow> json option"
  assumes parse_again: "parse v = Some c \<Longrightarrow> parse c = Some c"
    and parse_ids: "parse v = Some c \<Longrightarrow> opaque (jprop c ''workspaceId'') \<and> opaque (jprop c ''deviceId'')
      \<and> opaque (jprop c ''certificateId'') \<and> opaque (jprop c ''commandId'')"
    and parse_json: "parse v = Some c \<Longrightarrow> encodable v \<Longrightarrow> json_wf v \<Longrightarrow> encodable c \<and> json_wf c"

interpretation mlp3: command_schema "zod_parse fmt (mlp3CommandSchema new_URL)" for fmt new_URL
proof unfold_locales
  fix v c assume p: "zod_parse fmt (mlp3CommandSchema new_URL) v = Some c"
  then show "zod_parse fmt (mlp3CommandSchema new_URL) c = Some c"
    by (rule zod_parse_idem [OF stable_mlp3CommandSchema])
  show "opaque (jprop c ''workspaceId'') \<and> opaque (jprop c ''deviceId'')
      \<and> opaque (jprop c ''certificateId'') \<and> opaque (jprop c ''commandId'')"
    using zod_command_form [OF p] by (simp add: common_ok_def)
  assume "encodable v" "json_wf v"
  then show "encodable c \<and> json_wf c" using zod_parse_json [OF stable_mlp3CommandSchema _ _ p] by auto
qed

text \<open>The identifiers of a command, and the key they give.\<close>

definition command_ids :: "json \<Rightarrow> string list" where
  "command_ids c = map (\<lambda>k. text_of (jprop c k)) [''workspaceId'', ''deviceId'', ''certificateId'', ''commandId'']"

context command_schema
begin

lemma key_of_parsed: "parse v = Some c \<Longrightarrow> mlp3CommandKey c = Some (canonical_strings (command_ids c))"
proof -
  assume "parse v = Some c"
  from parse_ids [OF this] have
    "[jprop c ''workspaceId'', jprop c ''deviceId'', jprop c ''certificateId'', jprop c ''commandId'']
      = map JStr (command_ids c)"
    by (auto simp: opaque_string command_ids_def text_of_def)
  then show ?thesis unfolding mlp3CommandKey_def using canonicalJson_strings by simp
qed

lemma fingerprint_of_parsed:
  assumes "parse v = Some c" "encodable v" "json_wf v"
  shows "\<exists>fp. mlp3CommandFingerprint sha c = Some fp \<and> fp \<noteq> []"
proof -
  from parse_json [OF assms] obtain t where "canonicalJson c = Some t"
    using canonicalJson_None_iff [of c] by auto
  then show ?thesis by (simp add: mlp3CommandFingerprint_def)
qed

lemma same_key_same_ids:
  assumes "parse v = Some c" "parse v' = Some c'" "mlp3CommandKey c = mlp3CommandKey c'"
  shows "command_ids c = command_ids c'"
  using assms by (simp add: key_of_parsed)

end

section \<open>Entries survive the file\<close>

lemma key_nonempty: "mlp3CommandKey c = Some key \<Longrightarrow> key \<noteq> []"
  by (auto simp: mlp3CommandKey_def canonicalJson_def)

lemma fingerprint_nonempty: "mlp3CommandFingerprint sha c = Some fp \<Longrightarrow> fp \<noteq> []"
  by (auto simp: mlp3CommandFingerprint_def)

fun entry_ok :: "journal_env \<Rightarrow> journal_entry \<Rightarrow> bool" where
  "entry_ok env (Header_entry g) \<longleftrightarrow> g \<noteq> []"
| "entry_ok env (Accepted_entry key fp c room ev at) \<longleftrightarrow> key \<noteq> [] \<and> fp \<noteq> [] \<and> env_parse env c = Some c
     \<and> encodable c \<and> room \<noteq> Some [] \<and> ev \<noteq> Some [] \<and> isSafeInteger at"
| "entry_ok env (Dispatched_entry key fp at) \<longleftrightarrow> key \<noteq> [] \<and> fp \<noteq> [] \<and> isSafeInteger at"
| "entry_ok env (Terminal_entry key fp at t) \<longleftrightarrow> key \<noteq> [] \<and> fp \<noteq> [] \<and> isSafeInteger at
     \<and> encodable t \<and> isMlp3CommandTerminal (env_event_ok env) t"
| "entry_ok env (Terminal_delivered_entry key fp ev at) \<longleftrightarrow> key \<noteq> [] \<and> fp \<noteq> [] \<and> ev \<noteq> [] \<and> isSafeInteger at"

lemma entry_json_encodable: "entry_ok env e \<Longrightarrow> encodable (entry_json e)"
  by (cases e) (auto simp: header_json_def optional_member_def split: option.splits)

lemma entry_parse_json: "entry_ok env e \<Longrightarrow> parseMlp3CommandJournalEntry env (entry_json e) n = Inr e"
proof (cases e)
  case (Accepted_entry key fp c room ev at)
  assume "entry_ok env e"
  with Accepted_entry show ?thesis
    by (cases room; cases ev) (simp_all add: parseMlp3CommandJournalEntry_def jprop_def nonempty_string_def
        text_of_def is_safe_integer_def num_of_def optional_text_def optional_member_def)
qed (simp_all add: parseMlp3CommandJournalEntry_def jprop_def nonempty_string_def text_of_def
      is_safe_integer_def num_of_def header_json_def)

text \<open>
  Journal entries survive the log. The line written for a well-formed entry parses back to
  exactly that entry, at whatever line it stands.
\<close>

theorem journal_entry_roundtrip:
  assumes "entry_ok env e"
  shows "parseMlp3CommandJournalEntry env (reparse (entry_json e)) n = Inr e"
  using entry_parse_json [OF assms] entry_json_encodable [OF assms] by simp

section \<open>The log reproduces the records\<close>

definition replayed :: "journal_env \<Rightarrow> journal_line list \<Rightarrow> replay_state \<Rightarrow> bool" where
  "replayed env lines s \<longleftrightarrow> rfold (replay_line env) (enumerate 0 lines) replay_start = Inr s"

lemma replayed_append:
  "replayed env lines s \<Longrightarrow> replayed env (lines @ [l]) s' = (replay_line env (length lines, l) s = Inr s')"
  by (simp add: replayed_def enumerate_append_eq rfold_append rbind_eq_Inr)

lemma replayed_no_torn:
  assumes "replayed env lines s"
  shows "lines = [] \<or> last lines \<noteq> Torn_line"
proof (cases lines rule: rev_cases)
  case (snoc ls l)
  with assms show ?thesis
    by (auto simp: replayed_def enumerate_append_eq rfold_append rbind_eq_Inr replay_line_def)
qed simp

lemma replayed_add_line: "replayed env lines s \<Longrightarrow> add_line l (Some lines) = lines @ [l]"
  using replayed_no_torn by (fastforce simp: add_line_def)

text \<open>The journal agrees with its log.\<close>

definition in_step :: "journal_env \<Rightarrow> journal \<Rightarrow> bool" where
  "in_step env j \<longleftrightarrow> (\<exists>lines s g. j_file j = Some lines \<and> replayed env lines s
     \<and> rs_records s = j_records j \<and> rs_generation s = Some g \<and> j_generation j = Some g
     \<and> g \<noteq> [] \<and> rs_headerCount s = 1 \<and> js_wf (j_records j))"

text \<open>Before the first load: no records, and a log that is missing or holds one header.\<close>

definition fresh :: "journal_env \<Rightarrow> journal \<Rightarrow> bool" where
  "fresh env j \<longleftrightarrow> \<not> j_initialized j \<and> j_records j = [] \<and>
     (case j_file j of None \<Rightarrow> True
      | Some lines \<Rightarrow> (\<exists>s g. replayed env lines s \<and> rs_generation s = Some g \<and> g \<noteq> []
          \<and> rs_headerCount s = 1 \<and> js_wf (rs_records s)))"

definition recoverable :: "journal_env \<Rightarrow> journal \<Rightarrow> bool" where
  "recoverable env j \<longleftrightarrow> (if j_initialized j then in_step env j else fresh env j)"

lemma append_in_step:
  assumes "in_step env j" "entry_ok env e"
    and "\<And>s n. rs_records s = j_records j \<Longrightarrow> rs_headerCount s = 1 \<Longrightarrow>
      replay_entry env n e s = Inr (s\<lparr>rs_records := rs\<rparr>)"
    and "js_wf rs"
  shows "in_step env (j\<lparr>j_file := Some (add_line (Json_line (reparse (entry_json e))) (j_file j)), j_records := rs\<rparr>)"
proof -
  from assms(1) obtain lines s g where f: "j_file j = Some lines" and r: "replayed env lines s"
    and s: "rs_records s = j_records j" "rs_generation s = Some g" "j_generation j = Some g" "g \<noteq> []"
      "rs_headerCount s = 1" by (auto simp: in_step_def)
  let ?l = "Json_line (reparse (entry_json e))"
  have "replay_line env (length lines, ?l) s = Inr (s\<lparr>rs_records := rs\<rparr>)"
    using assms(3) [OF s(1,5)] entry_parse_json [OF assms(2)] entry_json_encodable [OF assms(2)]
    by (simp add: replay_line_def)
  then have "replayed env (lines @ [?l]) (s\<lparr>rs_records := rs\<rparr>)" using replayed_append [OF r] by simp
  with f s assms(4) replayed_add_line [OF r] show ?thesis
    by (auto simp: in_step_def intro!: exI [of _ "s\<lparr>rs_records := rs\<rparr>"])
qed

subsection \<open>Loading\<close>

lemma fold_js_set_replay:
  "js_wf (acc @ m) \<Longrightarrow> fold (\<lambda>(k, v). js_set k v) m acc = acc @ m"
proof (induction m arbitrary: acc)
  case (Cons p m)
  obtain k v where p: "p = (k, v)" by (cases p)
  with Cons.prems have "\<not> js_has acc k" by (simp add: js_wf_def js_has_def)
  then have "js_set k v acc = acc @ [p]" using p by (simp add: js_set_fresh)
  with Cons p show ?case by simp
qed simp

lemma parse_journal_replayed:
  "replayed env lines s \<Longrightarrow> rs_generation s = Some g \<Longrightarrow> g \<noteq> [] \<Longrightarrow>
    parseMlp3CommandJournal env lines = Inr (g, rs_records s)"
  by (simp add: replayed_def parseMlp3CommandJournal_def)

definition clean_io :: "call_io \<Rightarrow> bool" where
  "clean_io io \<longleftrightarrow> io_uuid io \<noteq> [] \<and> io_load io \<noteq> Io_fails_within
     \<and> (io_append io = Io_ok \<or> io_append io = Io_fails_before)"

lemma header_replayed:
  "uuid \<noteq> [] \<Longrightarrow> replayed env [Json_line (reparse (entry_json (Header_entry uuid)))]
    \<lparr>rs_generation = Some uuid, rs_headerCount = 1, rs_records = []\<rparr>"
  using entry_parse_json [of env "Header_entry uuid"] entry_json_encodable [of env "Header_entry uuid"]
  by (simp add: replayed_def replay_line_def replay_start_def)

lemma load_recoverable:
  assumes "fresh env j" "uuid \<noteq> []" "outcome \<noteq> Io_fails_within"
  shows "case journal_load env uuid outcome j of
      (Inl e, j') \<Rightarrow> fresh env j'
    | (Inr _, j') \<Rightarrow> in_step env j' \<and> j_initialized j'"
proof (cases "j_file j")
  case None
  let ?l = "Json_line (reparse (entry_json (Header_entry uuid)))"
  have h: "\<exists>s g. replayed env [?l] s \<and> rs_generation s = Some g \<and> g \<noteq> [] \<and> rs_headerCount s = 1 \<and> rs_records s = []"
    using header_replayed [OF assms(2), of env] assms(2) by fastforce
  have h': "\<exists>s. replayed env [?l] s \<and> rs_records s = [] \<and> rs_generation s = Some uuid \<and> rs_headerCount s = 1"
    using header_replayed [OF assms(2), of env] by fastforce
  show ?thesis
    using None assms h h'
    by (cases outcome) (auto simp: journal_load_def journal_append_def Let_def fresh_def in_step_def add_line_def
        simp del: entry_json.simps)
next
  case (Some lines)
  with assms(1) obtain s g where r: "replayed env lines s" and s: "rs_generation s = Some g" "g \<noteq> []"
    "rs_headerCount s = 1" "js_wf (rs_records s)" "j_records j = []" by (auto simp: fresh_def)
  have "fold (\<lambda>(k, v). js_set k v) (rs_records s) [] = rs_records s"
    using fold_js_set_replay [of "[]"] s(4) by simp
  with Some s r parse_journal_replayed [OF r s(1,2)] show ?thesis
    by (auto simp: journal_load_def in_step_def)
qed

lemma fresh_recoverable: "fresh env j \<Longrightarrow> recoverable env j"
  by (simp add: fresh_def recoverable_def)

lemma when_loaded_recoverable:
  assumes "recoverable env j" "clean_io io"
    and "\<And>j. in_step env j \<Longrightarrow> j_initialized j \<Longrightarrow> recoverable env (snd (f j))"
  shows "recoverable env (snd (when_loaded env io f j))"
proof (cases "j_initialized j")
  case True
  with assms show ?thesis by (simp add: when_loaded_def recoverable_def)
next
  case False
  with assms(1) have "fresh env j" by (simp add: recoverable_def)
  with assms(2) have "case journal_load env (io_uuid io) (io_load io) j of
      (Inl e, j') \<Rightarrow> fresh env j' | (Inr _, j') \<Rightarrow> in_step env j' \<and> j_initialized j'"
    by (intro load_recoverable) (auto simp: clean_io_def)
  with False assms(3) fresh_recoverable show ?thesis
    by (auto simp: when_loaded_def split: prod.splits sum.splits)
qed

subsection \<open>Operations keep the journal in step with its log\<close>

lemma unchanged_recoverable: "in_step env j \<Longrightarrow> j_initialized j \<Longrightarrow> recoverable env j"
  by (simp add: recoverable_def)

lemma append_update_recoverable:
  assumes "in_step env j" "j_initialized j" "clean_io io" "entry_ok env e"
    and "\<And>s n. rs_records s = j_records j \<Longrightarrow> rs_headerCount s = 1 \<Longrightarrow>
      replay_entry env n e s = Inr (s\<lparr>rs_records := js_set key r (j_records j)\<rparr>)"
  shows "recoverable env (snd (append_update (io_append io) e key r j))"
proof (cases "io_append io")
  case Io_ok
  have "js_wf (js_set key r (j_records j))" using assms(1) by (auto simp: in_step_def)
  from append_in_step [OF assms(1,4,5) this] Io_ok assms(2) show ?thesis
    by (simp add: append_update_def journal_append_def Let_def recoverable_def)
next
  case Io_fails_before
  with assms(1,2) show ?thesis by (simp add: append_update_def journal_append_def Let_def recoverable_def)
qed (use assms(3) in \<open>auto simp: clean_io_def\<close>)

lemma requireExact_Inr:
  "requireExact env command j = Inr (key, fp, r) \<Longrightarrow>
    key \<noteq> [] \<and> fp \<noteq> [] \<and> js_get (j_records j) key = Some r \<and> jr_fingerprint r = fp
    \<and> mlp3CommandKey command = Some key \<and> mlp3CommandFingerprint (env_sha256hex env) command = Some fp"
  by (auto simp: requireExact_def split: option.splits if_splits dest: key_nonempty fingerprint_nonempty)

lemma exact_recoverable:
  assumes "in_step env j" "j_initialized j"
    and "\<And>key fp r. \<lbrakk> js_get (j_records j) key = Some r; jr_fingerprint r = fp; key \<noteq> []; fp \<noteq> [] \<rbrakk>
      \<Longrightarrow> recoverable env (snd (g key fp r))"
  shows "recoverable env (snd (case requireExact env command j of
      Inl e \<Rightarrow> (Inl e, j) | Inr (key, fp, r) \<Rightarrow> g key fp r))"
  using assms unchanged_recoverable [OF assms(1,2)]
  by (auto split: sum.splits dest!: requireExact_Inr)

lemma status_accepted: "s \<noteq> Terminal \<Longrightarrow> s \<noteq> Dispatched \<Longrightarrow> s = Accepted"
  by (cases s) auto

lemma markDispatched_recoverable:
  assumes "recoverable env j" "clean_io io" "isSafeInteger now"
  shows "recoverable env (snd (markDispatched env io command now j))"
  unfolding markDispatched_def
  by (intro when_loaded_recoverable exact_recoverable)
    (use assms in \<open>auto simp: replay_transition_def intro!: append_update_recoverable
       intro: unchanged_recoverable status_accepted split: if_splits\<close>)

lemma settle_recoverable:
  assumes "recoverable env j" "clean_io io" "isSafeInteger now" "encodable t"
    "isMlp3CommandTerminal (env_event_ok env) t"
  shows "recoverable env (snd (journal_settle env io command t now j))"
  unfolding journal_settle_def
  by (intro when_loaded_recoverable exact_recoverable)
    (use assms in \<open>auto simp: replay_transition_def intro!: append_update_recoverable intro: unchanged_recoverable
       split: if_splits option.splits\<close>)

lemma markTerminalDelivered_recoverable:
  assumes "recoverable env j" "clean_io io" "isSafeInteger now" "ev \<noteq> []"
  shows "recoverable env (snd (markTerminalDelivered env io command ev now j))"
  unfolding markTerminalDelivered_def
  by (intro when_loaded_recoverable exact_recoverable)
    (use assms in \<open>auto simp: replay_transition_def intro!: append_update_recoverable intro: unchanged_recoverable
       split: if_splits option.splits\<close>)

definition context_ok :: "(string \<times> string) option \<Rightarrow> bool" where
  "context_ok ctx = (case ctx of None \<Rightarrow> True | Some (room, ev) \<Rightarrow> room \<noteq> [] \<and> ev \<noteq> [])"

lemma context_ok_members: "context_ok ctx \<Longrightarrow> map_option fst ctx \<noteq> Some [] \<and> map_option snd ctx \<noteq> Some []"
  by (auto simp: context_ok_def split: option.splits prod.splits)

text \<open>A claim on a loaded journal, by what it finds under the key of the command.\<close>

lemma claim_loaded_cases:
  assumes "env_parse env input = Some c" "mlp3CommandKey c = Some key"
    "mlp3CommandFingerprint (env_sha256hex env) c = Some fp"
  obtains
    (conflict) r where "js_get (j_records j) key = Some r" "jr_fingerprint r \<noteq> fp"
      "claim_loaded env outcome input now ctx j = (Inl Journal_conflict, j)"
  | (duplicate) r where "js_get (j_records j) key = Some r" "jr_fingerprint r = fp"
      "claim_loaded env outcome input now ctx j = (Inr (Claim_duplicate r), j)"
  | (fresh_claim) "js_get (j_records j) key = None"
      "snd (claim_loaded env outcome input now ctx j) = snd (append_update outcome
        (Accepted_entry key fp c (map_option fst ctx) (map_option snd ctx) now) key
        (accepted_record c fp (map_option fst ctx) (map_option snd ctx) now) j)"
      "fst (claim_loaded env outcome input now ctx j) = (if outcome = Io_ok
        then Inr (Claim_accepted (accepted_record c fp (map_option fst ctx) (map_option snd ctx) now))
        else Inl Io_error)"
proof (cases "js_get (j_records j) key")
  case None
  show thesis
    by (rule fresh_claim; cases outcome)
      (use None assms in \<open>simp_all add: claim_loaded_def append_update_def journal_append_def Let_def\<close>)
next
  case (Some r)
  with assms show thesis
    by (cases "jr_fingerprint r = fp") (auto simp: claim_loaded_def intro: conflict duplicate)
qed

lemma claim_loaded_refused:
  assumes "env_parse env input = None \<or> (\<exists>c. env_parse env input = Some c \<and>
    (mlp3CommandKey c = None \<or> mlp3CommandFingerprint (env_sha256hex env) c = None))"
  shows "snd (claim_loaded env outcome input now ctx j) = j"
    "fst (claim_loaded env outcome input now ctx j) \<noteq> Inr r"
  using assms by (auto simp: claim_loaded_def split: option.splits)

lemma claim_loaded_keys:
  obtains (refused) "env_parse env input = None \<or> (\<exists>c. env_parse env input = Some c \<and>
      (mlp3CommandKey c = None \<or> mlp3CommandFingerprint (env_sha256hex env) c = None))"
  | (keyed) c key fp where "env_parse env input = Some c" "mlp3CommandKey c = Some key"
      "mlp3CommandFingerprint (env_sha256hex env) c = Some fp"
  by (cases "env_parse env input"; cases "mlp3CommandKey (the (env_parse env input))";
      cases "mlp3CommandFingerprint (env_sha256hex env) (the (env_parse env input))") auto

lemma claim_recoverable:
  assumes "command_schema (env_parse env)" "recoverable env j" "clean_io io" "isSafeInteger now"
    "encodable input" "json_wf input" "context_ok ctx"
  shows "recoverable env (snd (journal_claim env io input now ctx j))"
  unfolding journal_claim_def
proof (rule when_loaded_recoverable [OF assms(2,3)])
  fix j assume j: "in_step env j" "j_initialized j"
  show "recoverable env (snd (claim_loaded env (io_append io) input now ctx j))"
  proof (cases rule: claim_loaded_keys [of env input])
    case refused
    from claim_loaded_refused(1) [OF this] unchanged_recoverable [OF j] show ?thesis by simp
  next
    case (keyed c key fp)
    show ?thesis
    proof (cases rule: claim_loaded_cases [OF keyed, of j "io_append io" now ctx, case_names conflict duplicate fresh_claim])
      case fresh_claim
      show ?thesis
        unfolding fresh_claim(2)
        using keyed command_schema.parse_again [OF assms(1) keyed(1)] context_ok_members [OF assms(7)]
          command_schema.parse_json [OF assms(1) keyed(1) assms(5,6)] key_nonempty [OF keyed(2)]
          fingerprint_nonempty [OF keyed(3)] assms(4) fresh_claim(1)
        by (intro append_update_recoverable [OF j assms(3)]) (auto simp: js_has_get)
    qed (use unchanged_recoverable [OF j] in auto)
  qed
qed

section \<open>Runs\<close>

datatype journal_call =
    Call_initialize
  | Call_claim json int "(string \<times> string) option"
  | Call_dispatched json int
  | Call_settle json json int
  | Call_delivered json string int
  | Call_get json
  | Call_unfinished

fun journal_step :: "journal_env \<Rightarrow> call_io \<Rightarrow> journal_call \<Rightarrow> journal \<Rightarrow> journal" where
  "journal_step env io Call_initialize j = snd (journal_initialize env io j)"
| "journal_step env io (Call_claim c now ctx) j = snd (journal_claim env io c now ctx j)"
| "journal_step env io (Call_dispatched c now) j = snd (markDispatched env io c now j)"
| "journal_step env io (Call_settle c t now) j = snd (journal_settle env io c t now j)"
| "journal_step env io (Call_delivered c ev now) j = snd (markTerminalDelivered env io c ev now j)"
| "journal_step env io (Call_get c) j = snd (journal_get env io c j)"
| "journal_step env io Call_unfinished j = snd (unfinished env io j)"

fun call_ok :: "journal_env \<Rightarrow> journal_call \<Rightarrow> bool" where
  "call_ok env (Call_claim c now ctx) \<longleftrightarrow> encodable c \<and> json_wf c \<and> isSafeInteger now \<and> context_ok ctx"
| "call_ok env (Call_dispatched c now) \<longleftrightarrow> isSafeInteger now"
| "call_ok env (Call_settle c t now) \<longleftrightarrow> encodable t \<and> isMlp3CommandTerminal (env_event_ok env) t \<and> isSafeInteger now"
| "call_ok env (Call_delivered c ev now) \<longleftrightarrow> ev \<noteq> [] \<and> isSafeInteger now"
| "call_ok env _ \<longleftrightarrow> True"

definition journal_run :: "journal_env \<Rightarrow> (call_io \<times> journal_call) list \<Rightarrow> journal \<Rightarrow> journal" where
  "journal_run env calls j = fold (\<lambda>(io, call). journal_step env io call) calls j"

lemma step_recoverable:
  assumes "command_schema (env_parse env)" "recoverable env j" "clean_io io" "call_ok env call"
  shows "recoverable env (journal_step env io call j)"
proof (cases call)
  case (Call_get c)
  have "recoverable env (snd (journal_get env io c j))"
    unfolding journal_get_def
    by (rule when_loaded_recoverable [OF assms(2,3)])
      (auto split: option.splits intro: unchanged_recoverable)
  with Call_get show ?thesis by simp
qed (use assms in \<open>auto simp: journal_initialize_def unfinished_def intro!: claim_recoverable
  markDispatched_recoverable settle_recoverable markTerminalDelivered_recoverable when_loaded_recoverable
  intro: unchanged_recoverable\<close>)

lemma run_recoverable:
  assumes "command_schema (env_parse env)" "recoverable env j"
    and "list_all (\<lambda>(io, call). clean_io io \<and> call_ok env call) calls"
  shows "recoverable env (journal_run env calls j)"
  using assms(2,3)
  by (induction calls arbitrary: j) (auto simp: journal_run_def intro: step_recoverable [OF assms(1)])

lemma in_step_reload:
  assumes "in_step env j" "j_initialized j"
  shows "journal_load env uuid outcome (new_journal (j_file j)) = (Inr (), j)"
proof -
  from assms(1) obtain lines s g where f: "j_file j = Some lines" and r: "replayed env lines s"
    and s: "rs_records s = j_records j" "rs_generation s = Some g" "j_generation j = Some g" "g \<noteq> []"
      "js_wf (j_records j)" by (auto simp: in_step_def)
  have "fold (\<lambda>(k, v). js_set k v) (j_records j) [] = j_records j"
    using fold_js_set_replay [of "[]" "j_records j"] s(5) by simp
  with f s assms(2) parse_journal_replayed [OF r s(2,4)] show ?thesis
    by (simp add: journal_load_def new_journal_def)
qed

lemma new_recoverable: "recoverable env (new_journal None)"
  by (simp add: recoverable_def fresh_def new_journal_def)

section \<open>Restarts\<close>

definition mlp3_env ::
  "(zschema \<Rightarrow> json \<Rightarrow> json option) \<Rightarrow> url_parser \<Rightarrow> (json \<Rightarrow> bool) \<Rightarrow> (string \<Rightarrow> string) \<Rightarrow> journal_env" where
  "mlp3_env parse new_URL event_ok sha256hex =
     \<lparr>env_parse = parse (mlp3CommandSchema new_URL), env_event_ok = event_ok, env_sha256hex = sha256hex\<rparr>"

lemma mlp3_env_schema: "zod fmt parse \<Longrightarrow> command_schema (env_parse (mlp3_env parse new_URL event_ok sha))"
proof -
  assume "zod fmt parse"
  then have "parse (mlp3CommandSchema new_URL) = zod_parse fmt (mlp3CommandSchema new_URL)"
    using zod.parse_unique by (simp add: fun_eq_iff)
  then show ?thesis using mlp3.command_schema_axioms by (simp add: mlp3_env_def)
qed

text \<open>
  C3: a restart reproduces the journal. After any sequence of operations whose appends succeeded or
  failed without writing anything, when the journal has loaded its log, loading that log into a fresh
  instance yields exactly the same records, in the same order, under the same generation. An append that
  fails after it wrote, or within the line, is excluded: such a log may not load.
\<close>

theorem journal_restart_reproduces:
  assumes "zod fmt parse" and env: "env = mlp3_env parse new_URL event_ok sha256hex"
    and "list_all (\<lambda>(io, call). clean_io io \<and> call_ok env call) calls"
    and j: "j = journal_run env calls (new_journal None)" "j_initialized j"
  shows "journal_load env uuid outcome (new_journal (j_file j)) = (Inr (), j)"
proof -
  have "recoverable env j"
    unfolding j(1) using mlp3_env_schema [OF assms(1)] assms(3) env
    by (intro run_recoverable new_recoverable) auto
  with j(2) have "in_step env j" by (simp add: recoverable_def)
  then show ?thesis using j(2) by (rule in_step_reload)
qed

section \<open>Records only grow, across restarts\<close>

text \<open>\<open>extends r r'\<close>: the same acceptance, a status that did not go back, and a terminal result and a
  delivery that are never replaced.\<close>

definition extends :: "journal_record \<Rightarrow> journal_record \<Rightarrow> bool" where
  "extends r r' \<longleftrightarrow>
     jr_command r' = jr_command r \<and> jr_fingerprint r' = jr_fingerprint r \<and> jr_acceptedAt r' = jr_acceptedAt r
   \<and> (jr_status r = Dispatched \<longrightarrow> jr_status r' \<noteq> Accepted)
   \<and> (jr_status r = Terminal \<longrightarrow> jr_status r' = Terminal \<and> jr_terminal r' = jr_terminal r
        \<and> jr_terminalAt r' = jr_terminalAt r)
   \<and> (jr_terminalDeliveryEventId r \<notin> {None, Some []} \<longrightarrow>
        jr_terminalDeliveryEventId r' = jr_terminalDeliveryEventId r)"

lemma extends_refl [simp, intro]: "extends r r"
  by (auto simp: extends_def intro: journal_status.exhaust)

lemma extends_trans: "extends r r' \<Longrightarrow> extends r' r'' \<Longrightarrow> extends r r''"
  by (cases "jr_status r"; cases "jr_status r'") (auto simp: extends_def)

definition keeps :: "journal \<Rightarrow> journal \<Rightarrow> bool" where
  "keeps j j' \<longleftrightarrow> j_initialized j' = j_initialized j \<and>
     (\<forall>key r. js_get (j_records j) key = Some r \<longrightarrow> (\<exists>r'. js_get (j_records j') key = Some r' \<and> extends r r'))"

lemma keeps_refl [simp, intro]: "keeps j j"
  by (auto simp: keeps_def)

lemma append_update_keeps:
  assumes "case js_get (j_records j) key of None \<Rightarrow> True | Some r0 \<Rightarrow> extends r0 r"
  shows "keeps j (snd (append_update outcome e key r j))"
  using assms
  by (cases outcome) (auto simp: append_update_def journal_append_def keeps_def Let_def js_get_set split: option.splits)

lemma exact_keeps:
  assumes "\<And>key fp r. js_get (j_records j) key = Some r \<Longrightarrow> keeps j (snd (g key fp r))"
  shows "keeps j (snd (case requireExact env command j of Inl e \<Rightarrow> (Inl e, j) | Inr (key, fp, r) \<Rightarrow> g key fp r))"
  using assms by (auto split: sum.splits dest!: requireExact_Inr)

text \<open>What the journal holds durably: its records, or before loading those its log replays to.\<close>

definition durable_records :: "journal_env \<Rightarrow> journal \<Rightarrow> journal_records" where
  "durable_records env j =
     (if j_initialized j then j_records j
      else case j_file j of
             None \<Rightarrow> []
           | Some lines \<Rightarrow> (case parseMlp3CommandJournal env lines of Inl e \<Rightarrow> [] | Inr (g, rs) \<Rightarrow> rs))"

definition grows :: "journal_env \<Rightarrow> journal \<Rightarrow> journal \<Rightarrow> bool" where
  "grows env j j' \<longleftrightarrow> (\<forall>key r. js_get (durable_records env j) key = Some r \<longrightarrow>
     (\<exists>r'. js_get (durable_records env j') key = Some r' \<and> extends r r'))"

lemma grows_refl [simp, intro]: "grows env j j"
  by (auto simp: grows_def)

lemma grows_trans: "grows env j j' \<Longrightarrow> grows env j' j'' \<Longrightarrow> grows env j j''"
  unfolding grows_def by (meson extends_trans)

lemma keeps_grows: "keeps j j' \<Longrightarrow> j_initialized j \<Longrightarrow> grows env j j'"
  by (simp add: keeps_def grows_def durable_records_def)

lemma load_grows:
  assumes "fresh env j" "uuid \<noteq> []" "outcome \<noteq> Io_fails_within"
  shows "grows env j (snd (journal_load env uuid outcome j))"
proof (cases "j_file j")
  case None
  with assms(1) show ?thesis by (simp add: grows_def durable_records_def fresh_def)
next
  case (Some lines)
  with assms(1) obtain s g where r: "replayed env lines s" and s: "rs_generation s = Some g" "g \<noteq> []"
    "js_wf (rs_records s)" "j_records j = []" by (auto simp: fresh_def)
  have "fold (\<lambda>(k, v). js_set k v) (rs_records s) [] = rs_records s"
    using fold_js_set_replay [of "[]"] s(3) by simp
  with Some s parse_journal_replayed [OF r s(1,2)] assms(1) show ?thesis
    by (simp add: grows_def durable_records_def journal_load_def fresh_def)
qed

lemma when_loaded_grows:
  assumes "recoverable env j" "clean_io io" and "\<And>j. keeps j (snd (f j))"
  shows "grows env j (snd (when_loaded env io f j))"
proof (cases "j_initialized j")
  case True
  with assms(3) keeps_grows show ?thesis by (simp add: when_loaded_def)
next
  case False
  with assms(1) have fr: "fresh env j" by (simp add: recoverable_def)
  note ok = load_recoverable [OF fr, of "io_uuid io" "io_load io"] load_grows [OF fr, of "io_uuid io" "io_load io"]
  from assms(2) ok False keeps_grows [OF assms(3)] grows_trans show ?thesis
    by (auto simp: when_loaded_def clean_io_def split: prod.splits sum.splits)
qed

lemma claim_loaded_keeps: "keeps j (snd (claim_loaded env outcome input now ctx j))"
proof (cases rule: claim_loaded_keys [of env input])
  case refused
  from claim_loaded_refused(1) [OF this] show ?thesis by simp
next
  case (keyed c key fp)
  show ?thesis
    by (cases rule: claim_loaded_cases [OF keyed, of j outcome now ctx]) (auto intro: append_update_keeps)
qed

lemma step_grows:
  assumes "recoverable env j" "clean_io io"
  shows "grows env j (journal_step env io call j)"
proof (cases call)
  case (Call_claim c now ctx)
  show ?thesis
    unfolding Call_claim journal_step.simps journal_claim_def
    by (rule when_loaded_grows [OF assms claim_loaded_keeps])
next
  case (Call_dispatched c now)
  show ?thesis
    unfolding Call_dispatched journal_step.simps markDispatched_def
    by (intro when_loaded_grows [OF assms] exact_keeps)
      (auto simp: extends_def intro!: append_update_keeps)
next
  case (Call_settle c t now)
  show ?thesis
    unfolding Call_settle journal_step.simps journal_settle_def
    by (intro when_loaded_grows [OF assms] exact_keeps)
      (auto simp: extends_def intro!: append_update_keeps split: option.splits)
next
  case (Call_delivered c ev now)
  show ?thesis
    unfolding Call_delivered journal_step.simps markTerminalDelivered_def
    by (intro when_loaded_grows [OF assms] exact_keeps)
      (auto simp: extends_def intro!: append_update_keeps)
next
  case (Call_get c)
  show ?thesis
    unfolding Call_get journal_step.simps journal_get_def
    by (intro when_loaded_grows [OF assms]) (auto split: option.splits)
qed (auto simp: journal_initialize_def unfinished_def intro!: when_loaded_grows [OF assms])

datatype life_event = Live call_io journal_call | Restart

fun life_step :: "journal_env \<Rightarrow> life_event \<Rightarrow> journal \<Rightarrow> journal" where
  "life_step env (Live io call) j = journal_step env io call j"
| "life_step env Restart j = new_journal (j_file j)"

fun life_ok :: "journal_env \<Rightarrow> life_event \<Rightarrow> bool" where
  "life_ok env (Live io call) \<longleftrightarrow> clean_io io \<and> call_ok env call"
| "life_ok env Restart \<longleftrightarrow> True"

definition life_run :: "journal_env \<Rightarrow> life_event list \<Rightarrow> journal \<Rightarrow> journal" where
  "life_run env events j = fold (life_step env) events j"

lemma restart_recoverable:
  "recoverable env j \<Longrightarrow> recoverable env (new_journal (j_file j)) \<and> grows env j (new_journal (j_file j))"
proof (cases "j_initialized j")
  case True
  assume "recoverable env j"
  with True obtain lines s g where f: "j_file j = Some lines" and r: "replayed env lines s"
    and s: "rs_records s = j_records j" "rs_generation s = Some g" "g \<noteq> []" "rs_headerCount s = 1"
      "js_wf (j_records j)" by (auto simp: recoverable_def in_step_def)
  with True parse_journal_replayed [OF r s(2,3)] show ?thesis
    by (auto simp: recoverable_def fresh_def new_journal_def grows_def durable_records_def)
next
  case False
  assume "recoverable env j"
  with False show ?thesis
    by (auto simp: recoverable_def fresh_def new_journal_def grows_def durable_records_def)
qed

lemma life_recoverable:
  assumes "command_schema (env_parse env)" "recoverable env j" "list_all (life_ok env) events"
  shows "recoverable env (life_run env events j) \<and> grows env j (life_run env events j)"
  using assms(2,3)
proof (induction events arbitrary: j)
  case (Cons e es)
  have "recoverable env (life_step env e j) \<and> grows env j (life_step env e j)"
    using Cons.prems step_recoverable [OF assms(1)] step_grows restart_recoverable by (cases e) auto
  with Cons show ?case using grows_trans by (fastforce simp: life_run_def)
qed (auto simp: life_run_def)

lemma load_known:
  assumes "recoverable env j" "clean_io io" "js_get (durable_records env j) key = Some r"
    and "when_loaded env io f j = (Inr x, j')"
  shows "\<exists>j1 r'. f j1 = (Inr x, j') \<and> js_get (j_records j1) key = Some r' \<and> j_initialized j1"
proof (cases "j_initialized j")
  case True
  with assms(3,4) show ?thesis by (auto simp: when_loaded_def durable_records_def)
next
  case False
  with assms(1) have fr: "fresh env j" by (simp add: recoverable_def)
  obtain res j1 where l: "journal_load env (io_uuid io) (io_load io) j = (res, j1)" by (metis surj_pair)
  with assms(4) False obtain u where u: "res = Inr u" and f: "f j1 = (Inr x, j')"
    by (cases res) (auto simp: when_loaded_def)
  from assms(2) have io: "io_uuid io \<noteq> []" "io_load io \<noteq> Io_fails_within" by (auto simp: clean_io_def)
  from load_grows [OF fr io] load_recoverable [OF fr io] l u have "grows env j j1" "j_initialized j1" by auto
  with assms(3) f show ?thesis by (fastforce simp: grows_def durable_records_def)
qed

lemma claim_known:
  assumes "recoverable env j" "clean_io io" "env_parse env input = Some c" "mlp3CommandKey c = Some key"
    and "js_get (durable_records env j) key = Some r"
  shows "fst (journal_claim env io input now ctx j) \<noteq> Inr (Claim_accepted a)"
proof
  assume "fst (journal_claim env io input now ctx j) = Inr (Claim_accepted a)"
  then obtain j' where "when_loaded env io (claim_loaded env (io_append io) input now ctx) j = (Inr (Claim_accepted a), j')"
    by (cases "journal_claim env io input now ctx j") (auto simp: journal_claim_def)
  from load_known [OF assms(1,2,5) this] obtain j1 r' where
    "claim_loaded env (io_append io) input now ctx j1 = (Inr (Claim_accepted a), j')"
    "js_get (j_records j1) key = Some r'" by blast
  with assms(3,4) show False by (auto simp: claim_loaded_def split: option.splits if_splits)
qed

lemma load_result: "journal_load env uuid outcome j = (Inr u, j') \<Longrightarrow> j_initialized j'"
  by (auto simp: journal_load_def split: option.splits prod.splits sum.splits)

lemma when_loaded_result:
  assumes "fst (when_loaded env io f j) = Inr x"
  shows "\<exists>j1. j_initialized j1 \<and> when_loaded env io f j = f j1"
proof (cases "j_initialized j")
  case True
  then show ?thesis by (auto simp: when_loaded_def)
next
  case False
  obtain res j1 where l: "journal_load env (io_uuid io) (io_load io) j = (res, j1)" by (metis surj_pair)
  with assms False obtain u where u: "res = Inr u" by (cases res) (auto simp: when_loaded_def)
  have "j_initialized j1" using load_result l u by blast
  with l u False show ?thesis by (auto simp: when_loaded_def)
qed

lemma claim_accepted_record:
  assumes "fst (journal_claim env io input now ctx j) = Inr (Claim_accepted r)"
  shows "\<exists>c key. env_parse env input = Some c \<and> mlp3CommandKey c = Some key \<and> jr_command r = c
    \<and> js_get (durable_records env (snd (journal_claim env io input now ctx j))) key = Some r"
proof -
  from when_loaded_result [OF assms [unfolded journal_claim_def]] obtain j1 where j1: "j_initialized j1"
    and eq: "journal_claim env io input now ctx j = claim_loaded env (io_append io) input now ctx j1"
    unfolding journal_claim_def by blast
  show ?thesis
  proof (cases rule: claim_loaded_keys [of env input])
    case refused
    from claim_loaded_refused(2) [OF this] assms eq show ?thesis by metis
  next
    case (keyed c key fp)
    show ?thesis
    proof (cases rule: claim_loaded_cases [OF keyed, of j1 "io_append io" now ctx, case_names conflict duplicate fresh_claim])
      case fresh_claim
      with assms eq have ok: "io_append io = Io_ok"
        and r: "r = accepted_record c fp (map_option fst ctx) (map_option snd ctx) now"
        by (auto split: if_splits)
      have "js_get (durable_records env (snd (claim_loaded env (io_append io) input now ctx j1))) key = Some r"
        using j1 r unfolding fresh_claim(2)
        by (simp add: ok append_update_def journal_append_def Let_def durable_records_def js_get_set)
      with keyed r eq show ?thesis by (auto simp: accepted_record_def)
    qed (use assms eq in auto)
  qed
qed

text \<open>
  C4: the record of a command only grows. Through any life of the journal in which appends succeed or
  fail without writing anything, restarts included, every record that was ever durable keeps its command,
  fingerprint and acceptance time, never goes back from dispatched to accepted, and never loses or changes
  a terminal result or a delivery.
\<close>

theorem journal_records_grow:
  assumes "zod fmt parse" and "env = mlp3_env parse new_URL event_ok sha256hex"
    and "list_all (life_ok env) past" "list_all (life_ok env) future"
    and "js_get (durable_records env (life_run env past (new_journal None))) key = Some r"
  shows "\<exists>r'. js_get (durable_records env (life_run env (past @ future) (new_journal None))) key = Some r'
    \<and> extends r r'"
proof -
  have schema: "command_schema (env_parse env)" using mlp3_env_schema [OF assms(1)] assms(2) by simp
  let ?j = "life_run env past (new_journal None)"
  have "recoverable env ?j" using life_recoverable [OF schema new_recoverable assms(3)] by blast
  from life_recoverable [OF schema this assms(4)] have "grows env ?j (life_run env future ?j)" by blast
  with assms(5) show ?thesis by (simp add: grows_def life_run_def)
qed

text \<open>
  C2: execution once, across restarts. Once a claim accepted a command, no later claim of a command
  with the same workspace, device, certificate and command identifiers is accepted, after any further
  operations and any number of restarts.
\<close>

theorem journal_execution_once:
  assumes "zod fmt parse" and "env = mlp3_env parse new_URL event_ok sha256hex"
    and "list_all (life_ok env) (past @ Live io (Call_claim input now ctx) # future)" and "clean_io io'"
    and "fst (journal_claim env io input now ctx (life_run env past (new_journal None))) = Inr (Claim_accepted r)"
    and "env_parse env input' = Some c'" "command_ids c' = command_ids (jr_command r)"
  shows "fst (journal_claim env io' input' now' ctx'
      (life_run env (past @ Live io (Call_claim input now ctx) # future) (new_journal None)))
    \<noteq> Inr (Claim_accepted r')"
proof -
  have schema: "command_schema (env_parse env)" using mlp3_env_schema [OF assms(1)] assms(2) by simp
  let ?j0 = "life_run env past (new_journal None)"
  let ?j1 = "snd (journal_claim env io input now ctx ?j0)"
  let ?j2 = "life_run env future ?j1"
  from assms(3) have ok: "list_all (life_ok env) past" "life_ok env (Live io (Call_claim input now ctx))"
    "list_all (life_ok env) future" by simp_all
  have r0: "recoverable env ?j0" using life_recoverable [OF schema new_recoverable ok(1)] by blast
  have r1: "recoverable env ?j1"
    using step_recoverable [OF schema r0, of io "Call_claim input now ctx"] ok(2) by simp
  from life_recoverable [OF schema r1 ok(3)] have r2: "recoverable env ?j2" and g: "grows env ?j1 ?j2" by blast+
  from claim_accepted_record [OF assms(5)] obtain c key where c: "env_parse env input = Some c"
    "mlp3CommandKey c = Some key" "jr_command r = c" and d: "js_get (durable_records env ?j1) key = Some r"
    by blast
  have "mlp3CommandKey c' = Some key"
    using c assms(7) command_schema.key_of_parsed [OF schema] assms(6) by auto
  moreover obtain r'' where "js_get (durable_records env ?j2) key = Some r''"
    using g d by (auto simp: grows_def)
  ultimately have "fst (journal_claim env io' input' now' ctx' ?j2) \<noteq> Inr (Claim_accepted r')"
    using claim_known [OF r2 assms(4,6)] by blast
  then show ?thesis by (simp add: life_run_def)
qed

section \<open>A failed synchronization\<close>

text \<open>The state after a claim of a fresh command, by the outcome of its append.\<close>

lemma claim_fresh_state:
  assumes "env_parse env input = Some c" "mlp3CommandKey c = Some key"
    "mlp3CommandFingerprint (env_sha256hex env) c = Some fp" "js_get (j_records j) key = None" "j_initialized j"
  shows "io_append io = Io_fails_after \<Longrightarrow> journal_claim env io input now ctx j =
      (Inl Io_error, j\<lparr>j_file := Some (add_line (Json_line (reparse (entry_json
        (Accepted_entry key fp c (map_option fst ctx) (map_option snd ctx) now)))) (j_file j))\<rparr>)"
    and "io_append io = Io_ok \<Longrightarrow> journal_claim env io input now ctx j =
      (Inr (Claim_accepted (accepted_record c fp (map_option fst ctx) (map_option snd ctx) now)),
       j\<lparr>j_file := Some (add_line (Json_line (reparse (entry_json
        (Accepted_entry key fp c (map_option fst ctx) (map_option snd ctx) now)))) (j_file j)),
         j_records := js_set key (accepted_record c fp (map_option fst ctx) (map_option snd ctx) now) (j_records j)\<rparr>)"
  using assms by (simp_all add: journal_claim_def when_loaded_def claim_loaded_def journal_append_def Let_def)

lemma twice_accepted_unloadable:
  assumes "in_step env j" "entry_ok env e" "e = Accepted_entry key fp c room ev at"
    and "mlp3CommandKey c = Some key" "mlp3CommandFingerprint (env_sha256hex env) c = Some fp"
    and "js_get (j_records j) key = None"
  shows "\<exists>n. fst (journal_load env uuid outcome (new_journal (Some (add_line (Json_line (reparse (entry_json e)))
      (Some (add_line (Json_line (reparse (entry_json e))) (j_file j))))))) = Inl (Duplicate_acceptance n)"
proof -
  from assms(1) obtain lines s where f: "j_file j = Some lines" and r: "replayed env lines s"
    and s: "rs_records s = j_records j" "rs_headerCount s = 1" by (auto simp: in_step_def)
  let ?l = "Json_line (reparse (entry_json e))"
  let ?s = "s\<lparr>rs_records := js_set key (accepted_record c fp room ev at) (rs_records s)\<rparr>"
  have line: "replay_line env (n, ?l) t = replay_entry env (n + 1) e t" for n t
    using entry_parse_json [OF assms(2)] entry_json_encodable [OF assms(2)] by (simp add: replay_line_def)
  have "replay_line env (length lines, ?l) s = Inr ?s"
    unfolding line using assms(3-6) s by (simp add: js_has_get)
  then have r1: "replayed env (lines @ [?l]) ?s" using replayed_append [OF r] by simp
  have "replay_line env (Suc (length lines), ?l) ?s = Inl (Duplicate_acceptance (length lines + 2))"
    unfolding line using assms(3) by simp
  then have "rfold (replay_line env) (enumerate 0 (lines @ [?l, ?l])) replay_start
      = Inl (Duplicate_acceptance (length lines + 2))"
    using r1 rfold_append [of "replay_line env" "enumerate 0 (lines @ [?l])" "[(Suc (length lines), ?l)]" replay_start]
    by (simp add: replayed_def enumerate_append_eq)
  then have "parseMlp3CommandJournal env (lines @ [?l, ?l]) = Inl (Duplicate_acceptance (length lines + 2))"
    by (simp add: parseMlp3CommandJournal_def)
  moreover have "add_line ?l (Some (add_line ?l (j_file j))) = lines @ [?l, ?l]"
    using f replayed_add_line [OF r] replayed_add_line [OF r1] by simp
  ultimately show ?thesis by (simp add: journal_load_def new_journal_def)
qed

text \<open>
  C36: a claim whose line was written but whose \<open>sync\<close> failed poisons the log. The caller sees an
  error, the records do not hold the command, so a retry appends a second acceptance and reports
  success; from then on every load of the log fails with a duplicate acceptance.
\<close>

theorem failed_sync_blocks_restart:
  assumes "zod fmt parse" and "env = mlp3_env parse new_URL event_ok sha256hex"
    and "list_all (life_ok env) past" and j: "j = life_run env past (new_journal None)" "j_initialized j"
    and c: "env_parse env input = Some c" "mlp3CommandKey c = Some key" "js_get (j_records j) key = None"
    and ok: "call_ok env (Call_claim input now ctx)" and "io_append io = Io_fails_after" "io_append io' = Io_ok"
  shows "fst (journal_claim env io input now ctx j) = Inl Io_error
    \<and> (\<exists>r. fst (journal_claim env io' input now ctx (snd (journal_claim env io input now ctx j))) = Inr (Claim_accepted r))
    \<and> (\<exists>n. fst (journal_load env uuid outcome (new_journal (j_file (snd (journal_claim env io' input now ctx
        (snd (journal_claim env io input now ctx j))))))) = Inl (Duplicate_acceptance n))"
proof -
  have schema: "command_schema (env_parse env)" using mlp3_env_schema [OF assms(1)] assms(2) by simp
  have step: "in_step env j"
    using life_recoverable [OF schema new_recoverable assms(3)] j by (simp add: recoverable_def)
  from ok have json: "encodable input" "json_wf input" "isSafeInteger now" "context_ok ctx" by simp_all
  from command_schema.fingerprint_of_parsed [OF schema c(1) json(1,2)] obtain fp where
    fp: "mlp3CommandFingerprint (env_sha256hex env) c = Some fp" "fp \<noteq> []" by blast
  let ?e = "Accepted_entry key fp c (map_option fst ctx) (map_option snd ctx) now"
  have e: "entry_ok env ?e"
    using fp c key_nonempty [OF c(2)] command_schema.parse_again [OF schema c(1)] json
      command_schema.parse_json [OF schema c(1) json(1,2)] context_ok_members [OF json(4)] by simp
  let ?l = "Json_line (reparse (entry_json ?e))"
  let ?j1 = "j\<lparr>j_file := Some (add_line ?l (j_file j))\<rparr>"
  have first: "journal_claim env io input now ctx j = (Inl Io_error, ?j1)"
    by (rule claim_fresh_state(1) [OF c(1,2) fp(1) c(3) j(2) assms(10)])
  have "js_get (j_records ?j1) key = None" "j_initialized ?j1" using c(3) j(2) by simp_all
  note second = claim_fresh_state(2) [OF c(1,2) fp(1) this assms(11), of now ctx]
  show ?thesis
    unfolding first snd_conv fst_conv second
    using twice_accepted_unloadable [OF step e refl c(2) fp(1) c(3)] by (simp del: entry_json.simps)
qed

section \<open>Concrete runs\<close>

definition sample_env :: journal_env where
  "sample_env = mlp3_env (zod_parse (\<lambda>_ _. True)) (\<lambda>_. None) (\<lambda>_. True) (\<lambda>s. s)"

definition sample_io :: call_io where
  "sample_io = \<lparr>io_uuid = ''g1'', io_load = Io_ok, io_append = Io_ok\<rparr>"

definition sample_key :: string where
  "sample_key = canonical_strings [''w'', ''d'', ''e'', ''c1'']"

lemma sample_io_clean: "clean_io sample_io"
  by (simp add: clean_io_def sample_io_def)

lemma sample_env_parse: "env_parse sample_env sample_promote = Some sample_promote_parsed"
  by (simp add: sample_env_def mlp3_env_def sample_promote_parse)

lemma sample_command_ids: "command_ids sample_promote_parsed = [''w'', ''d'', ''e'', ''c1'']"
  by (simp add: command_ids_def sample_promote_parsed_def jprop_def text_of_def)

lemma sample_command_key: "mlp3CommandKey sample_promote_parsed = Some sample_key"
  using mlp3.key_of_parsed [OF sample_promote_parse] by (simp add: sample_key_def sample_command_ids)

lemma sample_fingerprint: "\<exists>fp. mlp3CommandFingerprint (env_sha256hex env) sample_promote_parsed = Some fp \<and> fp \<noteq> []"
  by (rule mlp3.fingerprint_of_parsed [OF sample_promote_parse sample_facts(1,2)])

definition sample_loaded :: journal where
  "sample_loaded = snd (journal_initialize sample_env sample_io (new_journal None))"

lemma sample_loaded_state: "j_initialized sample_loaded" "j_records sample_loaded = []"
  by (simp_all add: sample_loaded_def journal_initialize_def when_loaded_def journal_load_def new_journal_def
      journal_append_def sample_io_def Let_def)

lemma sample_call_ok: "call_ok sample_env (Call_claim sample_promote 9 (Some (''!r'', ''$e'')))"
  using sample_facts by (simp add: isSafeInteger_def max_safe_integer_def context_ok_def)

lemma sample_loaded_run: "sample_loaded = life_run sample_env [Live sample_io Call_initialize] (new_journal None)"
  by (simp add: sample_loaded_def life_run_def)

lemma sample_loaded_key: "js_get (j_records sample_loaded) sample_key = None"
  by (simp add: sample_loaded_state)

lemma sample_claim:
  "\<exists>r. fst (journal_claim sample_env sample_io sample_promote 9 (Some (''!r'', ''$e'')) sample_loaded)
      = Inr (Claim_accepted r) \<and> jr_command r = sample_promote_parsed
     \<and> js_get (j_records (snd (journal_claim sample_env sample_io sample_promote 9 (Some (''!r'', ''$e'')) sample_loaded)))
         sample_key = Some r
     \<and> j_initialized (snd (journal_claim sample_env sample_io sample_promote 9 (Some (''!r'', ''$e'')) sample_loaded))"
proof -
  from sample_fingerprint [of sample_env] obtain fp where
    "mlp3CommandFingerprint (env_sha256hex sample_env) sample_promote_parsed = Some fp" by blast
  from claim_fresh_state(2) [OF sample_env_parse sample_command_key this sample_loaded_key sample_loaded_state(1),
      of sample_io 9 "Some (''!r'', ''$e'')"]
  show ?thesis by (simp add: sample_io_def accepted_record_def js_get_set sample_loaded_state del: entry_json.simps)
qed

theorem failed_sync_blocks_restart_witness:
  "\<exists>n. fst (journal_load sample_env ''u'' Io_ok (new_journal (j_file (snd (journal_claim sample_env sample_io
     sample_promote 9 (Some (''!r'', ''$e'')) (snd (journal_claim sample_env (sample_io\<lparr>io_append := Io_fails_after\<rparr>)
     sample_promote 9 (Some (''!r'', ''$e'')) sample_loaded))))))) = Inl (Duplicate_acceptance n)"
  using failed_sync_blocks_restart [OF zod_model.zod_axioms sample_env_def, of "[Live sample_io Call_initialize]"
      sample_loaded, OF _ sample_loaded_run sample_loaded_state(1) sample_env_parse sample_command_key sample_loaded_key
      sample_call_ok, of "sample_io\<lparr>io_append := Io_fails_after\<rparr>" sample_io "''u''" Io_ok]
    sample_io_clean
  by (simp add: sample_io_def)

theorem journal_restart_reproduces_witness:
  "journal_load sample_env ''u'' Io_ok (new_journal (j_file (journal_run sample_env
      [(sample_io, Call_initialize), (sample_io, Call_claim sample_promote 9 (Some (''!r'', ''$e'')))] (new_journal None))))
   = (Inr (), journal_run sample_env
      [(sample_io, Call_initialize), (sample_io, Call_claim sample_promote 9 (Some (''!r'', ''$e'')))] (new_journal None))"
proof (rule journal_restart_reproduces [OF zod_model.zod_axioms sample_env_def _ refl])
  show "list_all (\<lambda>(io, call). clean_io io \<and> call_ok sample_env call)
      [(sample_io, Call_initialize), (sample_io, Call_claim sample_promote 9 (Some (''!r'', ''$e'')))]"
    using sample_io_clean sample_call_ok by simp
  show "j_initialized (journal_run sample_env
      [(sample_io, Call_initialize), (sample_io, Call_claim sample_promote 9 (Some (''!r'', ''$e'')))] (new_journal None))"
    using sample_claim by (auto simp: journal_run_def sample_loaded_def)
qed

definition sample_claim_event :: life_event where
  "sample_claim_event = Live sample_io (Call_claim sample_promote 9 (Some (''!r'', ''$e'')))"

theorem journal_records_grow_witness:
  "\<exists>r r'. jr_command r = sample_promote_parsed \<and>
     js_get (durable_records sample_env (life_run sample_env
       ([Live sample_io Call_initialize, sample_claim_event] @ [Restart, Live sample_io Call_unfinished])
       (new_journal None))) sample_key = Some r' \<and> extends r r'"
proof -
  from sample_claim obtain r where r: "jr_command r = sample_promote_parsed"
    "js_get (durable_records sample_env (life_run sample_env
       [Live sample_io Call_initialize, sample_claim_event] (new_journal None))) sample_key = Some r"
    by (auto simp: life_run_def sample_claim_event_def sample_loaded_def durable_records_def)
  have "list_all (life_ok sample_env) [Live sample_io Call_initialize, sample_claim_event]"
    "list_all (life_ok sample_env) [Restart, Live sample_io Call_unfinished]"
    using sample_io_clean sample_call_ok by (simp_all add: sample_claim_event_def)
  from journal_records_grow [OF zod_model.zod_axioms sample_env_def this r(2)] r(1) show ?thesis by blast
qed

theorem journal_execution_once_witness:
  "\<forall>r'. fst (journal_claim sample_env sample_io sample_promote 99 None
      (life_run sample_env ([Live sample_io Call_initialize] @
         Live sample_io (Call_claim sample_promote 9 (Some (''!r'', ''$e''))) # [Restart]) (new_journal None)))
    \<noteq> Inr (Claim_accepted r')"
proof
  fix r'
  from sample_claim obtain r where r: "fst (journal_claim sample_env sample_io sample_promote 9 (Some (''!r'', ''$e''))
      (life_run sample_env [Live sample_io Call_initialize] (new_journal None))) = Inr (Claim_accepted r)"
    "command_ids sample_promote_parsed = command_ids (jr_command r)" by (auto simp: sample_loaded_run)
  have "list_all (life_ok sample_env) ([Live sample_io Call_initialize] @
      Live sample_io (Call_claim sample_promote 9 (Some (''!r'', ''$e''))) # [Restart])"
    using sample_io_clean sample_call_ok by simp
  from journal_execution_once [OF zod_model.zod_axioms sample_env_def this sample_io_clean r(1) sample_env_parse r(2)]
  show "fst (journal_claim sample_env sample_io sample_promote 99 None
      (life_run sample_env ([Live sample_io Call_initialize] @
         Live sample_io (Call_claim sample_promote 9 (Some (''!r'', ''$e''))) # [Restart]) (new_journal None)))
    \<noteq> Inr (Claim_accepted r')" .
qed

end
