(* ===== verification/Command_Authorizer.thy ===== *)
theory Command_Authorizer
  imports Command_Journal
begin

text \<open>
  Model of \<open>src/gateway/matrix/mlp3Authorizer.ts\<close>: \<open>MatrixMlp3CommandAuthorizer.authorize\<close> verifies
  a signed command against the device's key and bindings, decides whether policy rejects it, and
  claims it in the command journal. The journal is reached through its TypeScript interface only; the
  locale \<open>mlp3_command_journal\<close> states what the authorizer relies on, and the file journal interprets
  it.
\<close>

section \<open>Devices and operations\<close>

text \<open>\<open>PairingOperation\<close> of \<open>packages/protocol/src/pairing.ts\<close>.\<close>

datatype pairing_operation =
    Op_prompt | Op_cancel | Op_decision | Op_session_settings | Op_session_create | Op_project_create
  | Op_project_settings | Op_provider_sessions_list | Op_provider_session_inspect
  | Op_provider_history_materialize | Op_artifact_materialize | Op_extension_crypto_grant
  | Op_session_archive | Op_session_restore | Op_session_delete | Op_device_invite
  | Op_privilege_approve | Op_gateway_update

record trusted_device =
  td_deviceId :: string
  td_publicKey :: jwk
  td_allowedRoomIds :: "string list"
  td_allowedOperations :: "pairing_operation list option"
  td_certificateExpiresAt :: "int option"
  td_sequenceEpoch :: string

definition CURRENT_WORKSPACE_MEMBER_OPERATIONS :: "string list" where
  "CURRENT_WORKSPACE_MEMBER_OPERATIONS =
     [''session.create'', ''prompt.submit'', ''turn.cancel'', ''decision.answer'',
      ''artifact.materialize'', ''extension.crypto.grant'', ''session.update'',
      ''session.set_lifecycle'', ''session.archive.batch'', ''project.create'', ''project.update'',
      ''project.delete'', ''provider.sessions.list'', ''provider.session.inspect'',
      ''provider.history.materialize'', ''device.invitation.create'',
      ''gateway.enrollment.invitation.create'', ''gateway.enrollment.approve'',
      ''gateway.enrollment.cancel'', ''gateway.profile.update'', ''gateway.retire'',
      ''notification.subscribe'', ''notification.unsubscribe'', ''gateway.update.stage'',
      ''gateway.update.apply'', ''gateway.update.status'', ''gateway.update.prepare'',
      ''gateway.update.promote'', ''gateway.update.discard'', ''gateway.deployment.status'',
      ''gateway.restart'', ''gateway.restart.status'']"

text \<open>What each case of the switch adds to the result set.\<close>

fun added_operations :: "pairing_operation \<Rightarrow> string list" where
  "added_operations Op_prompt = [''prompt.submit'']"
| "added_operations Op_cancel = [''turn.cancel'']"
| "added_operations Op_decision = [''decision.answer'']"
| "added_operations Op_extension_crypto_grant = [''extension.crypto.grant'']"
| "added_operations Op_artifact_materialize = [''artifact.materialize'']"
| "added_operations Op_session_settings =
     [''session.update'', ''notification.subscribe'', ''notification.unsubscribe'']"
| "added_operations Op_session_create = [''session.create'']"
| "added_operations Op_project_create = [''project.create'']"
| "added_operations Op_project_settings = [''project.update'', ''project.delete'']"
| "added_operations Op_provider_sessions_list = [''provider.sessions.list'']"
| "added_operations Op_provider_session_inspect = [''provider.session.inspect'']"
| "added_operations Op_provider_history_materialize = [''provider.history.materialize'']"
| "added_operations Op_session_archive = [''session.archive.batch'', ''session.set_lifecycle'']"
| "added_operations Op_session_restore = [''session.set_lifecycle'']"
| "added_operations Op_session_delete = [''session.set_lifecycle'']"
| "added_operations Op_device_invite =
     [''device.invitation.create'', ''gateway.enrollment.invitation.create'',
      ''gateway.enrollment.approve'', ''gateway.enrollment.cancel'', ''gateway.profile.update'',
      ''gateway.retire'']"
| "added_operations Op_privilege_approve = []"
| "added_operations Op_gateway_update =
     [''gateway.update.stage'', ''gateway.update.apply'', ''gateway.update.status'',
      ''gateway.update.prepare'', ''gateway.update.promote'', ''gateway.update.discard'',
      ''gateway.deployment.status'', ''gateway.restart'', ''gateway.restart.status'']"

text \<open>\<open>Set.add\<close>, keeping insertion order.\<close>

definition set_add :: "'a \<Rightarrow> 'a list \<Rightarrow> 'a list" where
  "set_add x xs = (if x \<in> set xs then xs else xs @ [x])"

definition v3AllowedOperations :: "pairing_operation list option \<Rightarrow> string list option" where
  "v3AllowedOperations legacy =
     (case legacy of
        None \<Rightarrow> None
      | Some ops \<Rightarrow>
          if Op_device_invite \<in> set ops then Some CURRENT_WORKSPACE_MEMBER_OPERATIONS
          else Some (fold (\<lambda>op. fold set_add (added_operations op)) ops []))"

definition canApprovePrivilegedExecution :: "trusted_device option \<Rightarrow> bool" where
  "canApprovePrivilegedExecution device =
     (case device of
        None \<Rightarrow> False
      | Some d \<Rightarrow> (case td_allowedOperations d of None \<Rightarrow> False | Some ops \<Rightarrow> Op_privilege_approve \<in> set ops))"

section \<open>\<open>authorize\<close>\<close>

datatype rejection = Room_not_allowed | Certificate_expired | Operation_not_allowed

record authorization =
  auth_command :: json
  auth_claim :: journal_claim
  auth_rejection :: "rejection option"

datatype 'e authorize_error = Verification_failed signature_failure | Claim_failed 'e

definition policy_rejection :: "trusted_device \<Rightarrow> string \<Rightarrow> int \<Rightarrow> json \<Rightarrow> rejection option" where
  "policy_rejection device roomId now command =
     (if roomId \<notin> set (td_allowedRoomIds device) then Some Room_not_allowed
      else if (case td_certificateExpiresAt device of None \<Rightarrow> False | Some t \<Rightarrow> t \<le> now)
        then Some Certificate_expired
      else if (case v3AllowedOperations (td_allowedOperations device) of
                 None \<Rightarrow> False
               | Some ops \<Rightarrow> \<not> list_ex (\<lambda>op. jprop command ''operation'' = JStr op) ops)
        then Some Operation_not_allowed
      else None)"

definition device_bindings :: "string \<Rightarrow> string \<Rightarrow> trusted_device \<Rightarrow> command_bindings" where
  "device_bindings workspaceId projectId device =
     \<lparr>bind_workspaceId = workspaceId, bind_deviceId = td_deviceId device,
      bind_certificateId = td_sequenceEpoch device, bind_projectId = Some projectId,
      bind_allowedOperations = None\<rparr>"

text \<open>\<open>matrixEventId ? { roomId, matrixEventId } : undefined\<close>.\<close>

definition claim_context :: "string \<Rightarrow> string option \<Rightarrow> (string \<times> string) option" where
  "claim_context roomId mxEventId =
     (case mxEventId of None \<Rightarrow> None | Some e \<Rightarrow> if e = [] then None else Some (roomId, e))"

definition authorize ::
  "('pub, 'priv) web_crypto \<Rightarrow> (zschema \<Rightarrow> json \<Rightarrow> json option) \<Rightarrow> url_parser \<Rightarrow>
   (json \<Rightarrow> int \<Rightarrow> (string \<times> string) option \<Rightarrow> 's \<Rightarrow> ('e, journal_claim) result \<times> 's) \<Rightarrow>
   string \<Rightarrow> json \<Rightarrow> trusted_device \<Rightarrow> string \<Rightarrow> string \<Rightarrow> string option \<Rightarrow> int \<Rightarrow> 's \<Rightarrow>
   ('e authorize_error, authorization) result \<times> 's" where
  "authorize wc parse new_URL claim workspaceId signed device roomId projectId mxEventId now s =
     (case verifyMlp3Command wc parse new_URL signed (Web_key (td_publicKey device))
             (device_bindings workspaceId projectId device) of
        Inl e \<Rightarrow> (Inl (Verification_failed e), s)
      | Inr command \<Rightarrow>
          (case claim command now (claim_context roomId mxEventId) s of
             (Inl e, s') \<Rightarrow> (Inl (Claim_failed e), s')
           | (Inr c, s') \<Rightarrow>
               (Inr \<lparr>auth_command = command, auth_claim = c,
                     auth_rejection = policy_rejection device roomId now command\<rparr>, s')))"

section \<open>The journal as the authorizer sees it\<close>

locale mlp3_command_journal =
  fixes claim :: "'io \<Rightarrow> json \<Rightarrow> int \<Rightarrow> (string \<times> string) option \<Rightarrow> 's \<Rightarrow> ('e, journal_claim) result \<times> 's"
    and parse_command :: "json \<Rightarrow> json option"
    and inv :: "'s \<Rightarrow> bool"
    and io_ok :: "'io \<Rightarrow> bool"
    and known :: "'s \<Rightarrow> string list \<Rightarrow> bool"
  assumes claim_inv: "\<lbrakk> inv s; io_ok io; encodable c; json_wf c; isSafeInteger now; context_ok ctx \<rbrakk> \<Longrightarrow>
      inv (snd (claim io c now ctx s))"
    and claim_keeps: "\<lbrakk> inv s; io_ok io; known s ids \<rbrakk> \<Longrightarrow> known (snd (claim io c now ctx s)) ids"
    and claim_accepted: "\<lbrakk> inv s; io_ok io; fst (claim io c now ctx s) = Inr (Claim_accepted r) \<rbrakk> \<Longrightarrow>
      \<exists>c'. parse_command c = Some c' \<and> jr_command r = c' \<and> \<not> known s (command_ids c')
        \<and> known (snd (claim io c now ctx s)) (command_ids c')"

text \<open>One authorization request.\<close>

record 'io request =
  rq_io :: 'io
  rq_signed :: json
  rq_device :: trusted_device
  rq_roomId :: string
  rq_projectId :: string
  rq_matrixEventId :: "string option"
  rq_now :: int

definition request_ok :: "('io \<Rightarrow> bool) \<Rightarrow> 'io request \<Rightarrow> bool" where
  "request_ok io_ok rq \<longleftrightarrow> io_ok (rq_io rq) \<and> encodable (rq_signed rq) \<and> json_wf (rq_signed rq)
     \<and> isSafeInteger (rq_now rq) \<and> rq_roomId rq \<noteq> []"

definition handle ::
  "('pub, 'priv) web_crypto \<Rightarrow> (zschema \<Rightarrow> json \<Rightarrow> json option) \<Rightarrow> url_parser \<Rightarrow>
   ('io \<Rightarrow> json \<Rightarrow> int \<Rightarrow> (string \<times> string) option \<Rightarrow> 's \<Rightarrow> ('e, journal_claim) result \<times> 's) \<Rightarrow>
   string \<Rightarrow> 'io request \<Rightarrow> 's \<Rightarrow> ('e authorize_error, authorization) result \<times> 's" where
  "handle wc parse new_URL claim workspaceId rq =
     authorize wc parse new_URL (claim (rq_io rq)) workspaceId (rq_signed rq) (rq_device rq)
       (rq_roomId rq) (rq_projectId rq) (rq_matrixEventId rq) (rq_now rq)"

text \<open>The authorizations that let a command execute.\<close>

fun executes :: "('e authorize_error, authorization) result \<Rightarrow> json option" where
  "executes (Inr a) = (case (auth_claim a, auth_rejection a) of
     (Claim_accepted r, None) \<Rightarrow> Some (auth_command a) | _ \<Rightarrow> None)"
| "executes (Inl e) = None"

text \<open>
  The life of a gateway: authorization requests, and whatever else happens to the journal in between,
  which includes that the process ends and a new one opens the log. The result is the commands that
  were let execute, in order.
\<close>

datatype ('io, 'ev) gateway_event = Request "'io request" | Journal_event 'ev

fun gateway_run ::
  "('pub, 'priv) web_crypto \<Rightarrow> (zschema \<Rightarrow> json \<Rightarrow> json option) \<Rightarrow> url_parser \<Rightarrow>
   ('io \<Rightarrow> json \<Rightarrow> int \<Rightarrow> (string \<times> string) option \<Rightarrow> 's \<Rightarrow> ('e, journal_claim) result \<times> 's) \<Rightarrow>
   ('ev \<Rightarrow> 's \<Rightarrow> 's) \<Rightarrow> string \<Rightarrow> ('io, 'ev) gateway_event list \<Rightarrow> 's \<Rightarrow> json list \<times> 's" where
  "gateway_run wc parse new_URL claim happen workspaceId [] s = ([], s)"
| "gateway_run wc parse new_URL claim happen workspaceId (Request rq # es) s =
     (let (r, s') = handle wc parse new_URL claim workspaceId rq s;
          (cs, s'') = gateway_run wc parse new_URL claim happen workspaceId es s'
      in (case executes r of None \<Rightarrow> cs | Some c \<Rightarrow> c # cs, s''))"
| "gateway_run wc parse new_URL claim happen workspaceId (Journal_event e # es) s =
     gateway_run wc parse new_URL claim happen workspaceId es (happen e s)"

fun gateway_event_ok :: "('io \<Rightarrow> bool) \<Rightarrow> ('ev \<Rightarrow> bool) \<Rightarrow> ('io, 'ev) gateway_event \<Rightarrow> bool" where
  "gateway_event_ok io_ok ev_ok (Request rq) = request_ok io_ok rq"
| "gateway_event_ok io_ok ev_ok (Journal_event e) = ev_ok e"

text \<open>What else happens to the journal, restarts included, keeps its invariant and forgets nothing.\<close>

locale restarting_journal = mlp3_command_journal claim parse_command inv io_ok known
  for claim :: "'io \<Rightarrow> json \<Rightarrow> int \<Rightarrow> (string \<times> string) option \<Rightarrow> 's \<Rightarrow> ('e, journal_claim) result \<times> 's"
    and parse_command inv io_ok known +
  fixes happen :: "'ev \<Rightarrow> 's \<Rightarrow> 's"
    and ev_ok :: "'ev \<Rightarrow> bool"
  assumes happen_inv: "\<lbrakk> inv s; ev_ok e \<rbrakk> \<Longrightarrow> inv (happen e s)"
    and happen_keeps: "\<lbrakk> inv s; ev_ok e; known s ids \<rbrakk> \<Longrightarrow> known (happen e s) ids"

section \<open>Policy\<close>

lemma set_fold_set_add: "set (fold set_add xs acc) = set xs \<union> set acc"
  by (induction xs arbitrary: acc) (auto simp: set_add_def)

lemma set_fold_added: "set (fold (\<lambda>op. fold set_add (added_operations op)) ops acc) =
    (\<Union>op\<in>set ops. set (added_operations op)) \<union> set acc"
  by (induction ops arbitrary: acc) (auto simp: set_fold_set_add)

lemma v3AllowedOperations_set:
  "v3AllowedOperations (Some ops) = Some allowed \<Longrightarrow> set allowed =
    (if Op_device_invite \<in> set ops then set CURRENT_WORKSPACE_MEMBER_OPERATIONS
     else (\<Union>op\<in>set ops. set (added_operations op)))"
  by (auto simp: v3AllowedOperations_def set_fold_added split: if_splits)

text \<open>
  A full member may run every MLP/3 operation. The operations granted to a device with
  \<open>device.invite\<close> are exactly the operations of the command schema's union, so a full member inherits
  each of them, whatever else its certificate lists.
\<close>

theorem full_member_operations:
  "Op_device_invite \<in> set ops \<Longrightarrow>
    (\<exists>allowed. v3AllowedOperations (Some ops) = Some allowed \<and>
       JStr ` set allowed = set (map (the \<circ> discriminant ''operation'') (mlp3CommandMembers new_URL)))"
  by (simp add: v3AllowedOperations_def CURRENT_WORKSPACE_MEMBER_OPERATIONS_def mlp3CommandMembers_def) auto

definition administrative_operations :: "string list" where
  "administrative_operations = [''device.invitation.create'', ''gateway.enrollment.invitation.create'',
     ''gateway.enrollment.approve'', ''gateway.enrollment.cancel'', ''gateway.profile.update'', ''gateway.retire'']"

text \<open>
  A device that cannot invite devices cannot administer the workspace. Without \<open>device.invite\<close> in
  its certificate, none of the invitation, enrollment, profile and retirement operations passes the
  policy, and neither does an operation that no listed capability adds.
\<close>

theorem restricted_device_rejected:
  assumes "td_allowedOperations d = Some ops" "Op_device_invite \<notin> set ops"
    and "jprop command ''operation'' = JStr op"
    and "op \<in> set administrative_operations \<or> (\<forall>p\<in>set ops. op \<notin> set (added_operations p))"
  shows "policy_rejection d roomId now command \<noteq> None"
proof -
  obtain allowed where a: "v3AllowedOperations (td_allowedOperations d) = Some allowed"
    using assms(1,2) by (auto simp: v3AllowedOperations_def)
  have none: "op \<notin> set (added_operations p)" if "op \<in> set administrative_operations" "p \<noteq> Op_device_invite" for p
    using that by (cases p) (auto simp: administrative_operations_def)
  have "op \<notin> set (added_operations p)" if "p \<in> set ops" for p using assms(2,4) none that by metis
  then have "op \<notin> set allowed"
    using v3AllowedOperations_set [of ops allowed] a assms(1,2) by auto
  then show ?thesis using a assms(3) by (auto simp: policy_rejection_def list_ex_iff)
qed

section \<open>Only authorized commands, at most once\<close>

lemma policy_accepts:
  assumes "policy_rejection d roomId now command = None"
  shows "roomId \<in> set (td_allowedRoomIds d)"
    and "td_certificateExpiresAt d = Some t \<Longrightarrow> now < t"
    and "v3AllowedOperations (td_allowedOperations d) = Some ops \<Longrightarrow> jprop command ''operation'' \<in> JStr ` set ops"
  using assms by (auto simp: policy_rejection_def list_ex_iff split: if_splits option.splits)

text \<open>
  C5: only authorized commands get through. When \<open>authorize\<close> returns without a rejection, the command
  is signed by the device's enrolled key over exactly its canonical bytes, names this workspace, this
  project, this device and its current certificate, arrived in a room the device may use, before the
  certificate expired, and runs an operation its certificate allows.
\<close>

theorem authorize_only_authorized:
  assumes "zod fmt parse"
    and "fst (authorize wc parse new_URL claim workspaceId signed d roomId projectId ev now s) = Inr a"
    and "auth_rejection a = None"
  shows "signed_by wc (Web_key (td_publicKey d)) (auth_command a)
    \<and> command_bound (device_bindings workspaceId projectId d) (auth_command a)
    \<and> roomId \<in> set (td_allowedRoomIds d)
    \<and> (\<forall>t. td_certificateExpiresAt d = Some t \<longrightarrow> now < t)
    \<and> (\<forall>ops. v3AllowedOperations (td_allowedOperations d) = Some ops \<longrightarrow>
         jprop (auth_command a) ''operation'' \<in> JStr ` set ops)"
proof -
  from assms(2) obtain c where v: "verifyMlp3Command wc parse new_URL signed (Web_key (td_publicKey d))
      (device_bindings workspaceId projectId d) = Inr c" and c: "auth_command a = c"
    and r: "auth_rejection a = policy_rejection d roomId now c"
    by (auto simp: authorize_def split: sum.splits prod.splits)
  have eq: "parse = zod_parse fmt" using zod.parse_unique [OF assms(1)] by (simp add: fun_eq_iff)
  from verifyMlp3Command_sound [OF v [unfolded eq]] policy_accepts [of d roomId now c] r assms(3) c
  show ?thesis by auto
qed

text \<open>What verification hands to the journal: a JSON command that the schema leaves alone.\<close>

lemma stable_signedMlp3CommandSchema: "stable fmt (signedMlp3CommandSchema new_URL)"
  unfolding signedMlp3CommandSchema_def by (rule stable_signed [OF stable_mlp3CommandSchema]) simp

lemma verified_command_json:
  assumes "verifyMlp3Command wc (zod_parse fmt) new_URL input key b = Inr c" "encodable input" "json_wf input"
  shows "encodable c" "json_wf c"
proof -
  from assms(1) obtain signed where s: "zod_parse fmt (signedMlp3CommandSchema new_URL) input = Some signed"
    and c: "c = jprop signed ''command''"
    unfolding verifyMlp3Command_def by (auto simp: rbind_eq_Inr Let_def split: option.splits if_splits)
  from zod_parse_json [OF stable_signedMlp3CommandSchema _ assms(3) s] assms(2)
  have "encodable signed" "json_wf signed" by auto
  moreover from signed_command_parsed [OF s] c have "common_ok c" using zod_command_form by fastforce
  then have "c \<noteq> JUndefined" by (auto simp: common_ok_def jprop_def)
  ultimately show "encodable c" "json_wf c"
    using c by (auto simp: jprop_def split: json.splits option.splits dest!: map_of_SomeD)
qed

lemma claim_context_ok: "room \<noteq> [] \<Longrightarrow> context_ok (claim_context room ev)"
  by (auto simp: context_ok_def claim_context_def split: option.splits)

context mlp3_command_journal
begin

lemma handle_step:
  assumes "inv s" "request_ok io_ok rq"
    and "handle wc (zod_parse fmt) new_URL claim workspaceId rq s = (r, s')"
  shows "inv s'" and "known s ids \<Longrightarrow> known s' ids"
proof -
  from assms(2) have ok: "io_ok (rq_io rq)" "encodable (rq_signed rq)" "json_wf (rq_signed rq)"
    "isSafeInteger (rq_now rq)" "rq_roomId rq \<noteq> []" by (simp_all add: request_ok_def)
  let ?b = "device_bindings workspaceId (rq_projectId rq) (rq_device rq)"
  let ?key = "Web_key (td_publicKey (rq_device rq))"
  have "inv s' \<and> (known s ids \<longrightarrow> known s' ids)"
  proof (cases "verifyMlp3Command wc (zod_parse fmt) new_URL (rq_signed rq) ?key ?b")
    case (Inl e)
    with assms(1,3) show ?thesis by (simp add: handle_def authorize_def)
  next
    case (Inr c)
    with assms(3) have "s' = snd (claim (rq_io rq) c (rq_now rq) (claim_context (rq_roomId rq) (rq_matrixEventId rq)) s)"
      by (auto simp: handle_def authorize_def split: prod.splits sum.splits)
    with claim_inv [OF assms(1) ok(1) verified_command_json [OF Inr ok(2,3)] ok(4) claim_context_ok [OF ok(5)]]
      claim_keeps [OF assms(1) ok(1)] show ?thesis by blast
  qed
  then show "inv s'" and "known s ids \<Longrightarrow> known s' ids" by auto
qed

lemma handle_executes:
  assumes "inv s" "request_ok io_ok rq" "parse_command = zod_parse fmt (mlp3CommandSchema new_URL)"
    and "handle wc (zod_parse fmt) new_URL claim workspaceId rq s = (r, s')" "executes r = Some c"
  shows "\<not> known s (command_ids c)" and "known s' (command_ids c)"
proof -
  from assms(2) have io: "io_ok (rq_io rq)" by (simp add: request_ok_def)
  from assms(4,5) obtain rec where v: "verifyMlp3Command wc (zod_parse fmt) new_URL (rq_signed rq)
        (Web_key (td_publicKey (rq_device rq))) (device_bindings workspaceId (rq_projectId rq) (rq_device rq)) = Inr c"
    and cl: "claim (rq_io rq) c (rq_now rq) (claim_context (rq_roomId rq) (rq_matrixEventId rq)) s = (Inr (Claim_accepted rec), s')"
    by (auto simp: handle_def authorize_def split: sum.splits prod.splits journal_claim.splits option.splits)
  have "parse_command c = Some c" using verifyMlp3Command_sound(3) [OF v] assms(3) by simp
  with claim_accepted [OF assms(1) io, of c "rq_now rq" "claim_context (rq_roomId rq) (rq_matrixEventId rq)" rec] cl
  show "\<not> known s (command_ids c)" and "known s' (command_ids c)" by auto
qed

end

context restarting_journal
begin

text \<open>Whatever requests arrive and whatever happens in between, no two executions share their identifiers.\<close>

lemma run_executes_once:
  assumes "inv s" "list_all (gateway_event_ok io_ok ev_ok) es"
    and "parse_command = zod_parse fmt (mlp3CommandSchema new_URL)"
    and "gateway_run wc (zod_parse fmt) new_URL claim happen workspaceId es s = (cs, s')"
  shows "distinct (map command_ids cs) \<and> (\<forall>c\<in>set cs. \<not> known s (command_ids c))"
  using assms(1,2,4)
proof (induction es arbitrary: s cs)
  case (Cons e es)
  show ?case
  proof (cases e)
    case (Journal_event ev)
    with Cons.prems have ok: "ev_ok ev"
      and run: "gateway_run wc (zod_parse fmt) new_URL claim happen workspaceId es (happen ev s) = (cs, s')" by simp_all
    from Cons.IH [OF happen_inv [OF Cons.prems(1) ok] _ run] Cons.prems(2) happen_keeps [OF Cons.prems(1) ok]
    show ?thesis by auto
  next
    case (Request rq)
    obtain r s1 where h: "handle wc (zod_parse fmt) new_URL claim workspaceId rq s = (r, s1)" by (metis surj_pair)
    obtain cs1 where run: "gateway_run wc (zod_parse fmt) new_URL claim happen workspaceId es s1 = (cs1, s')"
      and cs: "cs = (case executes r of None \<Rightarrow> cs1 | Some c \<Rightarrow> c # cs1)"
      using Cons.prems(3) Request h by (auto split: prod.splits)
    from Cons.prems(2) Request have ok: "request_ok io_ok rq" "list_all (gateway_event_ok io_ok ev_ok) es" by simp_all
    note step = handle_step [OF Cons.prems(1) ok(1) h]
    note IH = Cons.IH [OF step(1) ok(2) run]
    show ?thesis
    proof (cases "executes r")
      case None
      with IH cs show ?thesis by (auto dest: step(2))
    next
      case (Some c)
      note ex = handle_executes [OF Cons.prems(1) ok(1) assms(3) h Some]
      from IH ex(2) have "command_ids c \<notin> command_ids ` set cs1" by auto
      with IH ex(1) Some cs show ?thesis by (auto dest: step(2))
    qed
  qed
qed simp

end

section \<open>The file journal provides the interface\<close>

definition journal_knows :: "journal_env \<Rightarrow> journal \<Rightarrow> string list \<Rightarrow> bool" where
  "journal_knows env j ids \<longleftrightarrow> js_has (durable_records env j) (canonical_strings ids)"

lemma journal_claim_grows: "recoverable env j \<Longrightarrow> clean_io io \<Longrightarrow> grows env j (snd (journal_claim env io c now ctx j))"
  using step_grows [of env j io "Call_claim c now ctx"] by simp

lemma grows_knows: "grows env j j' \<Longrightarrow> journal_knows env j ids \<Longrightarrow> journal_knows env j' ids"
  unfolding journal_knows_def grows_def js_has_get by fastforce

lemma file_journal_interface:
  assumes "command_schema (env_parse env)"
  shows "mlp3_command_journal (journal_claim env) (env_parse env) (recoverable env) clean_io (journal_knows env)"
proof
  fix s io c now ctx
  assume "recoverable env s" "clean_io io" "encodable c" "json_wf c" "isSafeInteger now" "context_ok ctx"
  then show "recoverable env (snd (journal_claim env io c now ctx s))" using claim_recoverable [OF assms] by blast
next
  fix s io ids c now ctx
  assume "recoverable env s" "clean_io io" "journal_knows env s ids"
  then show "journal_knows env (snd (journal_claim env io c now ctx s)) ids"
    using journal_claim_grows grows_knows by blast
next
  fix s io c now ctx r
  assume s: "recoverable env s" "clean_io io" and acc: "fst (journal_claim env io c now ctx s) = Inr (Claim_accepted r)"
  from claim_accepted_record [OF acc] obtain c' key where c': "env_parse env c = Some c'"
    "mlp3CommandKey c' = Some key" "jr_command r = c'"
    and d: "js_get (durable_records env (snd (journal_claim env io c now ctx s))) key = Some r" by blast
  have key: "key = canonical_strings (command_ids c')"
    using command_schema.key_of_parsed [OF assms c'(1)] c'(2) by simp
  have "js_get (durable_records env s) key = None"
    using claim_known [OF s c'(1,2)] acc by (cases "js_get (durable_records env s) key") auto
  with c' d key show "\<exists>c'. env_parse env c = Some c' \<and> jr_command r = c' \<and> \<not> journal_knows env s (command_ids c')
      \<and> journal_knows env (snd (journal_claim env io c now ctx s)) (command_ids c')"
    by (auto simp: journal_knows_def js_has_get)
qed

lemma life_step_keeps:
  assumes "command_schema (env_parse env)" "recoverable env j" "life_ok env e"
  shows "recoverable env (life_step env e j)" and "journal_knows env j ids \<Longrightarrow> journal_knows env (life_step env e j) ids"
  using life_recoverable [OF assms(1,2), of "[e]"] assms(3) grows_knows by (auto simp: life_run_def)

interpretation file_journal: restarting_journal
  "journal_claim (mlp3_env (zod_parse fmt) new_URL event_ok sha)" "zod_parse fmt (mlp3CommandSchema new_URL)"
  "recoverable (mlp3_env (zod_parse fmt) new_URL event_ok sha)" clean_io
  "journal_knows (mlp3_env (zod_parse fmt) new_URL event_ok sha)"
  "life_step (mlp3_env (zod_parse fmt) new_URL event_ok sha)" "life_ok (mlp3_env (zod_parse fmt) new_URL event_ok sha)"
  for fmt new_URL event_ok sha
proof -
  note schema = mlp3_env_schema [OF zod_model.zod_axioms, of fmt new_URL event_ok sha]
  have "mlp3_command_journal (journal_claim (mlp3_env (zod_parse fmt) new_URL event_ok sha))
      (zod_parse fmt (mlp3CommandSchema new_URL)) (recoverable (mlp3_env (zod_parse fmt) new_URL event_ok sha)) clean_io
      (journal_knows (mlp3_env (zod_parse fmt) new_URL event_ok sha))"
    using file_journal_interface [OF schema] by (simp add: mlp3_env_def)
  then show "restarting_journal (journal_claim (mlp3_env (zod_parse fmt) new_URL event_ok sha))
      (zod_parse fmt (mlp3CommandSchema new_URL)) (recoverable (mlp3_env (zod_parse fmt) new_URL event_ok sha)) clean_io
      (journal_knows (mlp3_env (zod_parse fmt) new_URL event_ok sha))
      (life_step (mlp3_env (zod_parse fmt) new_URL event_ok sha)) (life_ok (mlp3_env (zod_parse fmt) new_URL event_ok sha))"
    using life_step_keeps [OF schema] by (simp add: restarting_journal_def restarting_journal_axioms_def)
qed

text \<open>
  C1: a command executes at most once. Through any life of a gateway in which authorization requests, other
  calls of the journal and restarts follow each other in any order, with appends that succeed or fail
  without writing anything, the commands that are authorized without rejection and freshly claimed have
  pairwise different identifiers: those after a restart differ from those before it, too.
\<close>

theorem authorized_at_most_once:
  assumes "zod fmt parse" and "env = mlp3_env parse new_URL event_ok sha256hex"
    and "list_all (gateway_event_ok clean_io (life_ok env)) events"
  shows "distinct (map command_ids (fst (gateway_run wc parse new_URL (journal_claim env) (life_step env)
      workspaceId events (new_journal None))))"
proof -
  have eq: "parse = zod_parse fmt" using zod.parse_unique [OF assms(1)] by (simp add: fun_eq_iff)
  obtain cs s' where run: "gateway_run wc parse new_URL (journal_claim env) (life_step env) workspaceId events
      (new_journal None) = (cs, s')" by (metis surj_pair)
  from file_journal.run_executes_once [OF new_recoverable, of fmt new_URL event_ok sha256hex events fmt new_URL wc workspaceId]
    assms(2,3) run show ?thesis unfolding eq by simp
qed

section \<open>Concrete requests\<close>

lemma signed_document_json:
  assumes "signMlp3Command wc (zod_parse fmt) new_URL input sk keyId = Inr signed" "encodable input" "json_wf input"
  shows "encodable signed" "json_wf signed"
proof -
  from assms(1) obtain c v where c: "zod_parse fmt (mlp3CommandSchema new_URL) input = Some c"
    and s: "zod_parse fmt (signedMlp3CommandSchema new_URL)
      (JObj [(''command'', c), (''signature'', signature_json keyId v)]) = Some signed"
    by (auto simp: signMlp3Command_def rbind_eq_Inr split: option.splits)
  from mlp3.parse_json [OF c assms(2,3)]
  have "encodable (JObj [(''command'', c), (''signature'', signature_json keyId v)])"
    "json_wf (JObj [(''command'', c), (''signature'', signature_json keyId v)])"
    by (simp_all add: signature_json_def)
  with zod_parse_json [OF stable_signedMlp3CommandSchema _ _ s] show "encodable signed" "json_wf signed" by auto
qed

definition sample_device :: trusted_device where
  "sample_device = \<lparr>td_deviceId = ''d'', td_publicKey = sample_jwk, td_allowedRoomIds = [''!r''],
     td_allowedOperations = Some [Op_gateway_update], td_certificateExpiresAt = Some 100, td_sequenceEpoch = ''e''\<rparr>"

definition signed_sample :: "json \<Rightarrow> bool" where
  "signed_sample signed \<longleftrightarrow> encodable signed \<and> json_wf signed \<and>
     verifyMlp3Command sample_crypto (zod_parse (\<lambda>_ _. True)) (\<lambda>_. None) signed (Web_key (td_publicKey sample_device))
       (device_bindings ''w'' ''p'' sample_device) = Inr sample_promote_parsed"

lemma signed_sample_exists: "\<exists>signed. signed_sample signed"
proof -
  have "command_bound (device_bindings ''w'' ''p'' sample_device) sample_promote_parsed"
    by (simp add: command_bound_def device_bindings_def sample_device_def sample_promote_parsed_def jprop_def)
  from sign_verify [OF sample_key_pair sample_promote_parse sample_facts(1,2) this]
  show ?thesis unfolding signed_sample_def using signed_document_json [OF _ sample_facts(1,2)]
    by (metis (no_types, lifting) sample_device_def trusted_device.select_convs(2))
qed

definition always_accept :: "json \<Rightarrow> int \<Rightarrow> (string \<times> string) option \<Rightarrow> unit \<Rightarrow> (unit, journal_claim) result \<times> unit" where
  "always_accept c now ctx s = (Inr (Claim_accepted (accepted_record c ''v3:f'' None None now)), s)"

lemma sample_policy: "policy_rejection sample_device ''!r'' 9 sample_promote_parsed = None"
  by (simp add: policy_rejection_def sample_device_def v3AllowedOperations_def sample_promote_parsed_def jprop_def
      set_add_def)

theorem authorize_only_authorized_witness:
  "\<exists>signed a. fst (authorize sample_crypto (zod_parse (\<lambda>_ _. True)) (\<lambda>_. None) always_accept ''w'' signed sample_device
        ''!r'' ''p'' (Some ''$e'') 9 ()) = Inr a \<and> auth_rejection a = None
    \<and> signed_by sample_crypto (Web_key (td_publicKey sample_device)) (auth_command a)"
proof -
  from signed_sample_exists obtain signed where s: "signed_sample signed" ..
  let ?a = "\<lparr>auth_command = sample_promote_parsed,
     auth_claim = Claim_accepted (accepted_record sample_promote_parsed ''v3:f'' None None 9), auth_rejection = None\<rparr>"
  have a: "fst (authorize sample_crypto (zod_parse (\<lambda>_ _. True)) (\<lambda>_. None) always_accept ''w'' signed sample_device
        ''!r'' ''p'' (Some ''$e'') 9 ()) = Inr ?a"
    using s sample_policy by (simp add: authorize_def signed_sample_def always_accept_def)
  have r: "auth_rejection ?a = None" by simp
  from authorize_only_authorized [OF zod_model.zod_axioms a r] a r show ?thesis by blast
qed

definition sample_request :: "json \<Rightarrow> call_io request" where
  "sample_request signed = \<lparr>rq_io = sample_io, rq_signed = signed, rq_device = sample_device, rq_roomId = ''!r'',
     rq_projectId = ''p'', rq_matrixEventId = Some ''$e'', rq_now = 9\<rparr>"

lemma sample_request_executes:
  assumes "signed_sample signed"
  shows "executes (fst (handle sample_crypto (zod_parse (\<lambda>_ _. True)) (\<lambda>_. None) (journal_claim sample_env) ''w''
    (sample_request signed) sample_loaded)) = Some sample_promote_parsed"
proof -
  have parse: "env_parse sample_env sample_promote_parsed = Some sample_promote_parsed"
    using command_schema.parse_again [OF mlp3_env_schema [OF zod_model.zod_axioms] sample_env_parse [unfolded sample_env_def]]
    by (simp add: sample_env_def)
  from sample_fingerprint [of sample_env] obtain fp where
    "mlp3CommandFingerprint (env_sha256hex sample_env) sample_promote_parsed = Some fp" by blast
  from claim_fresh_state(2) [OF parse sample_command_key this sample_loaded_key sample_loaded_state(1),
      of sample_io 9 "Some (''!r'', ''$e'')"]
  show ?thesis using assms sample_policy
    by (simp add: handle_def authorize_def sample_request_def signed_sample_def claim_context_def sample_io_def
        del: entry_json.simps)
qed

lemma sample_request_only:
  assumes "signed_sample signed"
    and "executes (fst (handle sample_crypto (zod_parse (\<lambda>_ _. True)) (\<lambda>_. None) (journal_claim sample_env) ''w''
      (sample_request signed) j)) = Some c"
  shows "c = sample_promote_parsed"
  using assms by (auto simp: handle_def authorize_def sample_request_def signed_sample_def
      split: prod.splits sum.splits journal_claim.splits option.splits)

text \<open>The gateway starts, a signed command arrives, the gateway restarts, and the command arrives again: it executes once.\<close>

theorem authorized_at_most_once_witness:
  "\<exists>signed. signed_sample signed \<and> fst (gateway_run sample_crypto (zod_parse (\<lambda>_ _. True)) (\<lambda>_. None)
     (journal_claim sample_env) (life_step sample_env) ''w''
       [Journal_event (Live sample_io Call_initialize), Request (sample_request signed), Journal_event Restart,
        Request (sample_request signed)] (new_journal None)) = [sample_promote_parsed]"
proof -
  from signed_sample_exists obtain signed where s: "signed_sample signed" ..
  let ?h = "handle sample_crypto (zod_parse (\<lambda>_ _. True)) (\<lambda>_. None) (journal_claim sample_env) ''w'' (sample_request signed)"
  let ?es = "[Journal_event (Live sample_io Call_initialize), Request (sample_request signed), Journal_event Restart,
        Request (sample_request signed)]"
  have ok: "list_all (gateway_event_ok clean_io (life_ok sample_env)) ?es"
    using s sample_io_clean
    by (simp add: request_ok_def sample_request_def signed_sample_def isSafeInteger_def max_safe_integer_def)
  obtain r1 j1 where h1: "?h sample_loaded = (r1, j1)" by (metis surj_pair)
  obtain r2 j2 where h2: "?h (new_journal (j_file j1)) = (r2, j2)" by (metis surj_pair)
  have "fst (gateway_run sample_crypto (zod_parse (\<lambda>_ _. True)) (\<lambda>_. None) (journal_claim sample_env) (life_step sample_env)
      ''w'' ?es (new_journal None)) = sample_promote_parsed # (case executes r2 of None \<Rightarrow> [] | Some c \<Rightarrow> [c])"
    using sample_request_executes [OF s] h1 h2 by (simp add: sample_loaded_def)
  moreover have "executes r2 = None \<or> executes r2 = Some sample_promote_parsed"
    using sample_request_only [OF s, of "new_journal (j_file j1)"] h2 by (cases "executes r2") auto
  moreover note authorized_at_most_once [OF zod_model.zod_axioms sample_env_def ok, of sample_crypto "''w''"]
  ultimately show ?thesis using s by auto
qed
end
