(* ===== verification/Atomic_Json_File.thy ===== *)
theory Atomic_Json_File
  imports Prelude
begin

text \<open>
  Model of \<open>AtomicJsonFile\<close> (\<open>packages/security/src/node/atomic-json-file.ts\<close>), the transactional
  JSON file under the event inbox, the pairing registry and the deployment state.

  The three paths \<open>path\<close>, \<open>path.next\<close> and \<open>path.previous\<close> are slots of a small file system. A slot
  is missing, holds a document that parses, or holds bytes that do not parse: what a crash leaves
  between creating a file and finishing its content. \<open>write\<close> is its list of file-system calls, in
  order, so that a crash is a prefix of the list. The serialization of transactions (the local
  promise chain and the cross-process lock) is what makes one transaction run at a time; the lock
  protocol is the subject of \<open>Store_Lock\<close>.
\<close>

section \<open>Slots and reads\<close>

datatype 'a content = Valid 'a | Corrupt

record 'a fs =
  primary :: "'a content option"
  next_slot :: "'a content option"
  previous :: "'a content option"

datatype store_error = Invalid_state_file | File_exists | No_such_file

datatype 'a candidate = Not_found | Found 'a

definition readJsonCandidate :: "'a content option \<Rightarrow> (store_error, 'a candidate) result" where
  "readJsonCandidate slot = (case slot of
      None \<Rightarrow> Inr Not_found
    | Some (Valid v) \<Rightarrow> Inr (Found v)
    | Some Corrupt \<Rightarrow> Inl Invalid_state_file)"

definition read_state :: "'a \<Rightarrow> 'a fs \<Rightarrow> (store_error, 'a) result" where
  "read_state dflt fs =
     rbind (readJsonCandidate (primary fs)) (\<lambda>c1. case c1 of Found v \<Rightarrow> Inr v | Not_found \<Rightarrow>
     rbind (readJsonCandidate (next_slot fs)) (\<lambda>c2. case c2 of Found v \<Rightarrow> Inr v | Not_found \<Rightarrow>
     rbind (readJsonCandidate (previous fs)) (\<lambda>c3. case c3 of Found v \<Rightarrow> Inr v | Not_found \<Rightarrow>
     Inr dflt)))"

section \<open>Writes as sequences of file-system calls\<close>

datatype 'a fs_call =
    Rm_next
  | Open_next_exclusive
  | Write_and_sync_next 'a
  | Rm_previous
  | Rename_primary_to_previous
  | Rename_next_to_primary

fun fs_step :: "'a fs_call \<Rightarrow> 'a fs \<Rightarrow> (store_error, 'a fs) result" where
  "fs_step Rm_next fs = Inr (fs\<lparr>next_slot := None\<rparr>)"
| "fs_step Open_next_exclusive fs =
     (if next_slot fs \<noteq> None then Inl File_exists else Inr (fs\<lparr>next_slot := Some Corrupt\<rparr>))"
| "fs_step (Write_and_sync_next v) fs = Inr (fs\<lparr>next_slot := Some (Valid v)\<rparr>)"
| "fs_step Rm_previous fs = Inr (fs\<lparr>previous := None\<rparr>)"
| "fs_step Rename_primary_to_previous fs =
     (case primary fs of
        None \<Rightarrow> Inr fs \<comment> \<open>\<open>ENOENT\<close> is ignored\<close>
      | Some c \<Rightarrow> Inr (fs\<lparr>primary := None, previous := Some c\<rparr>))"
| "fs_step Rename_next_to_primary fs =
     (case next_slot fs of
        None \<Rightarrow> Inl No_such_file
      | Some c \<Rightarrow> Inr (fs\<lparr>next_slot := None, primary := Some c\<rparr>))"

definition write_calls :: "'a \<Rightarrow> 'a fs_call list" where
  "write_calls v =
     [Rm_next, Open_next_exclusive, Write_and_sync_next v, Rm_previous,
      Rename_primary_to_previous, Rename_next_to_primary, Rm_previous]"

definition write_state :: "'a \<Rightarrow> 'a fs \<Rightarrow> (store_error, 'a fs) result" where
  "write_state v fs = rfold fs_step (write_calls v) fs"

text \<open>The file system after a crash that let only the first \<open>n\<close> calls of a write happen.\<close>

definition crashed_write :: "nat \<Rightarrow> 'a \<Rightarrow> 'a fs \<Rightarrow> (store_error, 'a fs) result" where
  "crashed_write n v fs = rfold fs_step (take n (write_calls v)) fs"

section \<open>Transactions\<close>

text \<open>
  The operation of a transaction throws, or returns its result, the state it left behind (the source
  mutates its argument) and the \<open>changed\<close> flag. Nothing is written when it throws or reports no
  change.
\<close>

type_synonym ('e, 's, 'r) tx = "'s \<Rightarrow> ('e, 'r \<times> 's \<times> bool) result"

definition transaction ::
  "'s \<Rightarrow> ('e, 's, 'r) tx \<Rightarrow> 's fs \<Rightarrow> (store_error + 'e, 'r) result \<times> 's fs" where
  "transaction dflt operation fs =
     (case read_state dflt fs of
        Inl e \<Rightarrow> (Inl (Inl e), fs)
      | Inr state \<Rightarrow>
          (case operation state of
             Inl e \<Rightarrow> (Inl (Inr e), fs)
           | Inr (r, state', changed) \<Rightarrow>
               if \<not> changed then (Inr r, fs)
               else (case write_state state' fs of
                       Inl e \<Rightarrow> (Inl (Inl e), fs)
                     | Inr fs' \<Rightarrow> (Inr r, fs'))))"

text \<open>A transaction whose result is not of interest.\<close>

definition forget :: "('e, 'r \<times> 's \<times> bool) result \<Rightarrow> ('e, unit \<times> 's \<times> bool) result" where
  "forget m = (case m of Inl e \<Rightarrow> Inl e | Inr (_, s, b) \<Rightarrow> Inr ((), s, b))"

definition empty_fs :: "'a fs" where
  "empty_fs = \<lparr>primary = None, next_slot = None, previous = None\<rparr>"

definition holding :: "'a \<Rightarrow> 'a fs" where
  "holding v = \<lparr>primary = Some (Valid v), next_slot = None, previous = None\<rparr>"

text \<open>A store at rest: nothing written yet, or exactly the primary document.\<close>

definition at_rest :: "'a fs \<Rightarrow> bool" where
  "at_rest fs \<longleftrightarrow> fs = empty_fs \<or> (\<exists>v. fs = holding v)"

definition stored :: "'a \<Rightarrow> 'a fs \<Rightarrow> 'a" where
  "stored dflt fs = (case primary fs of Some (Valid v) \<Rightarrow> v | _ \<Rightarrow> dflt)"

section \<open>Completed writes\<close>

lemma forget_Inr: "forget m = Inr (u, s, b) \<longleftrightarrow> (\<exists>r. m = Inr (r, s, b))"
  by (cases m) (auto simp: forget_def)

lemma forget_Inl [simp]: "forget m = Inl e \<longleftrightarrow> m = Inl e"
  by (cases m) (auto simp: forget_def)

lemma write_state_total: "write_state v fs = Inr (holding v)"
  by (cases "primary fs") (simp_all add: write_state_def write_calls_def holding_def)

lemma read_holding [simp]: "read_state dflt (holding v) = Inr v"
  by (simp add: read_state_def readJsonCandidate_def holding_def)

lemma read_empty [simp]: "read_state dflt empty_fs = Inr dflt"
  by (simp add: read_state_def readJsonCandidate_def empty_fs_def)

lemma stored_simps [simp]: "stored dflt (holding v) = v" "stored dflt empty_fs = dflt"
  by (simp_all add: stored_def holding_def empty_fs_def)

lemma at_rest_simps [simp]: "at_rest (holding v)" "at_rest empty_fs"
  by (auto simp: at_rest_def)

lemma at_rest_read: "at_rest fs \<Longrightarrow> read_state dflt fs = Inr (stored dflt fs)"
  by (auto simp: at_rest_def)

lemma transaction_on_read:
  "read_state dflt fs = Inr v \<Longrightarrow> transaction dflt f fs =
    (case f v of
       Inl e \<Rightarrow> (Inl (Inr e), fs)
     | Inr (r, s, changed) \<Rightarrow> (Inr r, if changed then holding s else fs))"
  by (auto simp: transaction_def write_state_total split: sum.splits)

text \<open>
  C31: a transaction is atomic. On a store at rest, a transaction whose operation throws leaves the
  files untouched and reports the error; one that reports no change leaves them untouched and returns
  its result; one that changed the state leaves a store at rest that holds exactly the new state.
\<close>

theorem transaction_atomic:
  assumes "at_rest fs"
  shows "transaction dflt f fs =
    (case f (stored dflt fs) of
       Inl e \<Rightarrow> (Inl (Inr e), fs)
     | Inr (r, s, changed) \<Rightarrow> (Inr r, if changed then holding s else fs))"
  by (rule transaction_on_read [OF at_rest_read [OF assms]])

theorem transaction_atomic_witness:
  "transaction (0::nat) (\<lambda>n. if n < 3 then Inr (n, n + 1, True) else Inl ''full'') (holding 2) =
    (case (\<lambda>n. if n < 3 then Inr (n, n + 1, True) else Inl ''full'') (stored 0 (holding 2)) of
       Inl e \<Rightarrow> (Inl (Inr e), holding 2)
     | Inr (r, s, changed) \<Rightarrow> (Inr r, if changed then holding s else holding (2::nat)))"
  by (rule transaction_atomic) (auto simp: at_rest_def)

section \<open>Crashes during a write\<close>

lemma crash_points: "n \<in> {0, 1, 2, 3, 4, 5, 6} \<or> take n (write_calls v) = write_calls v"
proof (cases "n < 7")
  case True
  then have "n \<in> {0, 1, 2, 3, 4, 5, 6}" by auto
  then show ?thesis ..
qed (simp add: write_calls_def)

lemma crash_point_read:
  assumes "primary fs = Some (Valid old)"
  shows "\<exists>fs'. crashed_write n new fs = Inr fs' \<and> read_state dflt fs' = Inr (if n < 5 then old else new)"
  using crash_points [of n new]
proof
  assume "n \<in> {0, 1, 2, 3, 4, 5, 6}"
  with assms show ?thesis
    by (auto simp: crashed_write_def write_calls_def read_state_def readJsonCandidate_def)
next
  assume t: "take n (write_calls new) = write_calls new"
  then have "length (write_calls new) \<le> n" by (metis length_take min.cobounded2 min_def)
  then have "\<not> n < 5" by (simp add: write_calls_def)
  with t write_state_total [of new fs] show ?thesis by (simp add: crashed_write_def write_state_def)
qed

lemma crash_read:
  assumes "crashed_write n new (holding old) = Inr fs"
  shows "read_state dflt fs = Inr old \<or> read_state dflt fs = Inr new"
  using crash_point_read [of "holding old" old n new dflt] assms by (auto simp: holding_def split: if_splits)

text \<open>
  C32: a crash during a write loses nothing when the primary document is readable. Whatever \<open>path.next\<close> and
  \<open>path.previous\<close> hold, left behind by earlier crashes or not readable at all, and however many of the
  write's file-system calls happened before the crash, reading the store afterwards succeeds: it yields
  the old document as long as the primary was not moved aside, and the new one from then on.
\<close>

theorem crash_keeps_old_or_new:
  assumes "primary fs = Some (Valid old)"
  shows "\<exists>fs'. crashed_write n new fs = Inr fs' \<and> read_state dflt fs' = Inr (if n < 5 then old else new)"
  by (rule crash_point_read [OF assms])

theorem crash_keeps_old_or_new_witness:
  "\<exists>fs'. crashed_write 5 (6::nat) \<lparr>primary = Some (Valid 5), next_slot = Some Corrupt, previous = Some (Valid 4)\<rparr> = Inr fs'
     \<and> read_state 0 fs' = Inr 6"
  using crash_keeps_old_or_new [of "\<lparr>primary = Some (Valid 5), next_slot = Some Corrupt, previous = Some (Valid 4)\<rparr>" 5 5 6 0]
  by simp

text \<open>
  Work continues after a crash. Whatever state a crashed write of a store at rest left behind, the
  next transaction runs its operation on the old or on the new document, and when it reports a change
  the store is at rest again and holds the state it produced.
\<close>

theorem transaction_after_crash:
  assumes "crashed_write n new (holding old) = Inr fs"
  shows "\<exists>v. (v = old \<or> v = new) \<and> transaction dflt f fs =
    (case f v of
       Inl e \<Rightarrow> (Inl (Inr e), fs)
     | Inr (r, s, changed) \<Rightarrow> (Inr r, if changed then holding s else fs))"
proof -
  obtain v where "v = old \<or> v = new" and "read_state dflt fs = Inr v"
    using crash_read [OF assms, of dflt] by blast
  with transaction_on_read [OF this(2), of f] show ?thesis by (intro exI [of _ v] conjI)
qed

text \<open>
  The very first write is not crash safe. When no document exists yet, a crash after
  \<open>path.next\<close> was created and before its content is complete leaves a store that no transaction can
  read again, since an unreadable \<open>path.next\<close> is an error and not a missing document.
\<close>

theorem first_write_crash_unreadable:
  "\<exists>n fs. crashed_write n v empty_fs = Inr fs \<and>
     (\<forall>dflt (f :: ('e, 'a, 'r) tx). transaction dflt f fs = (Inl (Inl Invalid_state_file), fs))"
proof (intro exI conjI allI)
  let ?fs = "\<lparr>primary = None, next_slot = Some Corrupt, previous = None\<rparr>"
  show "crashed_write 2 v empty_fs = Inr ?fs"
    by (simp add: crashed_write_def write_calls_def empty_fs_def)
  show "transaction dflt f ?fs = (Inl (Inl Invalid_state_file), ?fs)" for dflt and f :: "('e, 'a, 'r) tx"
    by (simp add: transaction_def read_state_def readJsonCandidate_def)
qed

text \<open>
  A recovered document can be lost again. After a crash between the two renames, reading yields
  the new document from \<open>path.next\<close>; the next write removes \<open>path.next\<close> before anything replaces it,
  so a second crash there brings the older document back although the newer one had been read.
\<close>

theorem second_crash_reverts:
  assumes "old \<noteq> new"
  shows "\<exists>fs1 fs2. crashed_write 5 new (holding old) = Inr fs1 \<and> read_state dflt fs1 = Inr new \<and>
     crashed_write 1 newer fs1 = Inr fs2 \<and> read_state dflt fs2 = Inr old \<and> old \<noteq> new"
  using assms
  by (auto simp: crashed_write_def write_calls_def holding_def read_state_def readJsonCandidate_def)

section \<open>The interface clients use\<close>

text \<open>
  A client of the file sees a cell that holds a state: \<open>run\<close> performs one of its operations, \<open>view\<close>
  is the state it holds. The laws are those of a transactional cell; lemmas about sequences of
  operations are proved once here and used by every client.
\<close>

locale transactional_cell =
  fixes run :: "('e, 's, 'r) tx \<Rightarrow> 'c \<Rightarrow> ('x, 'r) result \<times> 'c"
    and view :: "'c \<Rightarrow> 's"
    and ready :: "'c \<Rightarrow> bool"
    and throw :: "'e \<Rightarrow> 'x"
  assumes run_error: "ready c \<Longrightarrow> f (view c) = Inl e \<Longrightarrow> run f c = (Inl (throw e), c)"
    and run_same: "ready c \<Longrightarrow> f (view c) = Inr (r, s, False) \<Longrightarrow> run f c = (Inr r, c)"
    and run_commit: "ready c \<Longrightarrow> f (view c) = Inr (r, s, True) \<Longrightarrow>
      \<exists>c'. run f c = (Inr r, c') \<and> ready c' \<and> view c' = s"
begin

lemma run_ready: "ready c \<Longrightarrow> ready (snd (run f c))"
  using run_error [of c f] run_same [of c f] run_commit [of c f]
  by (cases "f (view c)") (auto, metis (full_types) prod.exhaust snd_conv)

text \<open>An invariant of the state that the operations keep when they report a change holds for ever.\<close>

lemma run_invariant:
  assumes "ready c" and "P (view c)"
    and keeps: "\<And>r s. f (view c) = Inr (r, s, True) \<Longrightarrow> P s"
  shows "P (view (snd (run f c)))"
proof (cases "f (view c)")
  case (Inl e)
  with run_error [OF assms(1), of f e] assms(2) show ?thesis by simp
next
  case (Inr x)
  obtain r s b where x: "x = (r, s, b)" by (cases x)
  show ?thesis
  proof (cases b)
    case True
    with Inr x have "f (view c) = Inr (r, s, True)" by simp
    with run_commit [OF assms(1), of f r s] keeps [of r s] show ?thesis by auto
  next
    case False
    with Inr x run_same [OF assms(1), of f r s] assms(2) show ?thesis by simp
  qed
qed

lemma runs_invariant:
  assumes "ready c" and "P (view c)"
    and keeps: "\<And>f s r t. f \<in> set fs \<Longrightarrow> P s \<Longrightarrow> f s = Inr (r, t, True) \<Longrightarrow> P t"
  shows "ready (fold (\<lambda>f c. snd (run f c)) fs c) \<and> P (view (fold (\<lambda>f c. snd (run f c)) fs c))"
  using assms
proof (induction fs arbitrary: c)
  case (Cons f fs)
  have "P (view (snd (run f c)))"
    by (rule run_invariant [where P = P]) (use Cons.prems in \<open>auto intro: Cons.prems(3)\<close>)
  then have "ready (fold (\<lambda>f c. snd (run f c)) fs (snd (run f c)))
      \<and> P (view (fold (\<lambda>f c. snd (run f c)) fs (snd (run f c))))"
    by (intro Cons.IH run_ready [OF Cons.prems(1)]) (auto intro: Cons.prems(3))
  then show ?case by simp
qed simp

end

interpretation json_file: transactional_cell "transaction dflt" "stored dflt" at_rest Inr
  for dflt :: 's
  by unfold_locales
    (auto simp: transaction_def at_rest_read write_state_total at_rest_def)

end
