(* ===== verification/File_Ledger.thy ===== *)
theory File_Ledger
  imports Execution_Ledger Atomic_Json_File
begin

text \<open>
  Model of \<open>packages/security/src/node/file-idempotency-store.ts\<close>: the execution-once ledger over a
  durable store, a client of the atomic JSON file. Its operations are transactions; each refines the
  in-memory store of the same interface. A process can die during any call, after any of the
  file-system calls of its write. The main result composes the ledger, the store and the crash model:
  a command whose execution was granted is not granted again within the retention, as long as at most
  two deaths hit a write; three can erase the ledger.
\<close>

section \<open>Operations\<close>

definition pruneState :: "'r memory_records \<Rightarrow> int \<Rightarrow> 'r memory_records \<times> bool" where
  "pruneState records now =
     (filter (\<lambda>(k, rec). \<not> lr_expiresAt rec \<le> now) records, \<exists>(k, rec)\<in>set records. lr_expiresAt rec \<le> now)"

definition file_claim_tx ::
  "string \<Rightarrow> string \<Rightarrow> int \<Rightarrow> int \<Rightarrow> (security_error_code, 'r memory_records, 'r claim_result) tx" where
  "file_claim_tx key fp createdAt expiresAt records0 =
     (case pruneState records0 createdAt of (records, pruned) \<Rightarrow>
        (case js_get records key of
           Some existing \<Rightarrow> Inr (Not_claimed existing, records, pruned)
         | None \<Rightarrow> Inr (Claimed, js_set key (Pending_record fp createdAt expiresAt) records, True)))"

definition file_settle_tx ::
  "string \<Rightarrow> string \<Rightarrow> 'r settlement \<Rightarrow> (security_error_code, 'r memory_records, unit) tx" where
  "file_settle_tx key fp settlement records =
     (case js_get records key of
        None \<Rightarrow> Inl Idempotency_state
      | Some current \<Rightarrow>
          if lr_fingerprint current \<noteq> fp \<or> \<not> is_pending current then Inl Idempotency_state
          else Inr ((), js_set key (settled_record settlement fp (lr_createdAt current) (lr_expiresAt current)) records, True))"

definition file_prune_tx :: "int \<Rightarrow> (security_error_code, 'r memory_records, unit) tx" where
  "file_prune_tx now records = (case pruneState records now of (records', changed) \<Rightarrow> Inr ((), records', changed))"

text \<open>\<open>IdempotencyLedger.begin\<close> over the file: reading or writing the file can fail as well.\<close>

datatype file_ledger_error = Ledger_error ledger_error | Store_failure "store_error + security_error_code"

definition begin_outcome :: "string \<Rightarrow> string \<Rightarrow> 'r claim_result \<Rightarrow> (ledger_error, 'r begin_result) result" where
  "begin_outcome key fp r = (case r of
      Claimed \<Rightarrow> Inr (Execute key fp)
    | Not_claimed rec \<Rightarrow>
        if lr_fingerprint rec \<noteq> fp then Inl (Security_error Idempotency_conflict)
        else (case rec of
            Pending_record _ _ _ \<Rightarrow> Inr In_progress
          | Completed_record _ _ _ _ v \<Rightarrow> Inr (Already_completed v)
          | Failed_record _ _ _ _ e \<Rightarrow> Inr (Already_failed e)))"

definition file_begin ::
  "(string \<Rightarrow> string) \<Rightarrow> int \<Rightarrow> 'r memory_records fs \<Rightarrow> malink_command \<Rightarrow> int
    \<Rightarrow> (file_ledger_error, 'r begin_result) result \<times> 'r memory_records fs" where
  "file_begin sha256 retentionMs fs c now =
     (case ledger_fingerprint sha256 c of
        None \<Rightarrow> (Inl (Ledger_error Type_error), fs)
      | Some fp \<Rightarrow>
          (case transaction [] (file_claim_tx (ledger_key c) fp now (now + retentionMs)) fs of
             (Inl e, fs') \<Rightarrow> (Inl (Store_failure e), fs')
           | (Inr r, fs') \<Rightarrow>
               (case begin_outcome (ledger_key c) fp r of
                  Inl e \<Rightarrow> (Inl (Ledger_error e), fs')
                | Inr b \<Rightarrow> (Inr b, fs'))))"

section \<open>Calls and deaths\<close>

text \<open>The transaction of a call; a \<open>begin\<close> that throws before its claim runs none.\<close>

fun ledger_tx :: "(string \<Rightarrow> string) \<Rightarrow> int \<Rightarrow> 'r ledger_call \<Rightarrow> (security_error_code, 'r memory_records, unit) tx" where
  "ledger_tx sha256 ret (Call_begin c t) records =
     (case ledger_fingerprint sha256 c of
        None \<Rightarrow> Inr ((), records, False)
      | Some fp \<Rightarrow> forget (file_claim_tx (ledger_key c) fp t (t + ret) records))"
| "ledger_tx sha256 ret (Call_complete k fp v t) records = file_settle_tx k fp (Settle_completed t v) records"
| "ledger_tx sha256 ret (Call_fail k fp e t) records = file_settle_tx k fp (Settle_failed t e) records"
| "ledger_tx sha256 ret (Call_prune t) records = file_prune_tx t records"

text \<open>A call that runs to its end, or whose process dies after \<open>n\<close> file-system calls of its write.\<close>

datatype 'r ledger_io = Finished (io_call: "'r ledger_call") | Interrupted nat (io_call: "'r ledger_call")

definition interrupted_transaction :: "nat \<Rightarrow> 's \<Rightarrow> ('e, 's, 'r) tx \<Rightarrow> 's fs \<Rightarrow> 's fs" where
  "interrupted_transaction n dflt operation fs =
     (case read_state dflt fs of
        Inl e \<Rightarrow> fs
      | Inr state \<Rightarrow>
          (case operation state of
             Inl e \<Rightarrow> fs
           | Inr (r, state', changed) \<Rightarrow>
               if \<not> changed then fs
               else (case crashed_write n state' fs of Inl e \<Rightarrow> fs | Inr fs' \<Rightarrow> fs')))"

fun io_step :: "(string \<Rightarrow> string) \<Rightarrow> int \<Rightarrow> 'r ledger_io \<Rightarrow> 'r memory_records fs \<Rightarrow> 'r memory_records fs" where
  "io_step sha256 ret (Finished x) fs = snd (transaction [] (ledger_tx sha256 ret x) fs)"
| "io_step sha256 ret (Interrupted n x) fs = interrupted_transaction n [] (ledger_tx sha256 ret x) fs"

definition io_run :: "(string \<Rightarrow> string) \<Rightarrow> int \<Rightarrow> 'r ledger_io list \<Rightarrow> 'r memory_records fs \<Rightarrow> 'r memory_records fs" where
  "io_run sha256 ret xs fs = fold (io_step sha256 ret) xs fs"

fun interrupted :: "'r ledger_io \<Rightarrow> bool" where
  "interrupted (Interrupted _ _) \<longleftrightarrow> True"
| "interrupted (Finished _) \<longleftrightarrow> False"

section \<open>Refinement of the in-memory store\<close>

lemma pruneState_memory: "pruneState records now = (records', changed) \<Longrightarrow>
    records' = memory_prune records now \<and> (\<not> changed \<longrightarrow> records' = records)"
  unfolding pruneState_def memory_prune_def by (auto simp: filter_id_conv split: prod.splits)

lemma file_claim_memory:
  "\<exists>changed. file_claim_tx key fp now e records
      = Inr (fst (memory_claim records key fp now e), snd (memory_claim records key fp now e), changed)
    \<and> (\<not> changed \<longrightarrow> snd (memory_claim records key fp now e) = records)"
proof (cases "pruneState records now")
  case (Pair records' pruned)
  with pruneState_memory [OF this] show ?thesis
    by (auto simp: file_claim_tx_def memory_claim_def Let_def split: option.splits)
qed

lemma file_settle_memory:
  "file_settle_tx key fp st records
    = (case memory_settle records key fp st of Inl e \<Rightarrow> Inl e | Inr records' \<Rightarrow> Inr ((), records', True))"
  by (simp add: file_settle_tx_def memory_settle_def split: option.splits)

text \<open>Every call has the effect of the same call on the in-memory store, or none.\<close>

lemma ledger_tx_memory:
  "(case ledger_tx sha256 ret x records of
      Inl e \<Rightarrow> True
    | Inr (_, records', changed) \<Rightarrow> records' = ledger_step memory_store sha256 ret x records
        \<and> (\<not> changed \<longrightarrow> records' = records))"
proof (cases x)
  case (Call_begin c t)
  show ?thesis
  proof (cases "ledger_fingerprint sha256 c")
    case (Some fp)
    from file_claim_memory [of "ledger_key c" fp t "t + ret" records] obtain changed where
      "file_claim_tx (ledger_key c) fp t (t + ret) records
        = Inr (fst (memory_claim records (ledger_key c) fp t (t + ret)), snd (memory_claim records (ledger_key c) fp t (t + ret)), changed)"
      and "\<not> changed \<longrightarrow> snd (memory_claim records (ledger_key c) fp t (t + ret)) = records" by blast
    then show ?thesis using Call_begin Some
      by (auto simp: forget_def ledger_begin_def memory_store_def Let_def split: prod.splits)
  qed (use Call_begin in \<open>simp add: ledger_begin_def\<close>)
qed (auto simp: file_settle_memory ledger_complete_def ledger_fail_def memory_store_def or_else_def file_prune_tx_def ledger_prune_def
    split: sum.splits prod.splits dest: pruneState_memory)

section \<open>What deaths leave behind\<close>

definition all_valid :: "('s \<Rightarrow> bool) \<Rightarrow> 's fs \<Rightarrow> bool" where
  "all_valid P fs \<longleftrightarrow> (\<forall>v. Some (Valid v) \<in> {primary fs, next_slot fs, previous fs} \<longrightarrow> P v)"

text \<open>
  The store after no, one or two interrupted writes: every document is good, and there is one that the
  next write does not remove first, or at least one at all.
\<close>

fun level :: "nat \<Rightarrow> ('s \<Rightarrow> bool) \<Rightarrow> 's fs \<Rightarrow> bool" where
  "level 0 P fs \<longleftrightarrow> (\<exists>v. P v \<and> fs = holding v)"
| "level (Suc 0) P fs \<longleftrightarrow> all_valid P fs \<and> (primary fs \<noteq> None \<or> previous fs \<noteq> None)"
| "level (Suc (Suc _)) P fs \<longleftrightarrow> all_valid P fs \<and> (primary fs \<noteq> None \<or> next_slot fs \<noteq> None \<or> previous fs \<noteq> None)"

lemma level_Suc: "level k P fs \<Longrightarrow> level (Suc k) P fs"
  by (cases k; cases "k - 1") (auto simp: all_valid_def holding_def)

lemma level_0: "P v \<Longrightarrow> level k P (holding v)"
  by (induction k) (auto simp del: level.simps(2,3) intro: level_Suc)

lemma level_read:
  assumes "level k P fs" and "read_state dflt fs = Inr v"
  shows "P v"
proof -
  have "level (Suc (Suc k)) P fs" using assms(1) by (intro level_Suc)
  with assms(2) show ?thesis
    by (cases "primary fs"; cases "next_slot fs"; cases "previous fs")
      (auto simp: read_state_def readJsonCandidate_def all_valid_def split: content.splits)
qed

lemma crash_all_valid:
  assumes "all_valid P fs" and "P v" and "crashed_write n v fs = Inr fs'"
  shows "all_valid P fs'"
  using crash_points [of n v]
proof
  assume "n \<in> {0, 1, 2, 3, 4, 5, 6}"
  with assms show ?thesis
    by (cases "primary fs") (auto simp: crashed_write_def write_calls_def all_valid_def)
next
  assume "take n (write_calls v) = write_calls v"
  with assms write_state_total [of v fs] show ?thesis
    by (auto simp: crashed_write_def write_state_def all_valid_def holding_def)
qed

lemma crash_level:
  assumes "level k P fs" and "k \<le> 1" and "P v" and "crashed_write n v fs = Inr fs'"
  shows "level (Suc k) P fs'"
proof -
  from assms(1,2) have one: "level (Suc 0) P fs" and k: "k = 0 \<or> k = 1"
    using level_Suc [of 0 P fs] by (auto simp: le_Suc_eq)
  have valid: "all_valid P fs'" using crash_all_valid [of P fs v n fs'] assms(3,4) one by simp
  show ?thesis
    using crash_points [of n v]
  proof
    assume n: "n \<in> {0, 1, 2, 3, 4, 5, 6}"
    from k show ?thesis
    proof
      assume "k = 0"
      with assms(1,4) n valid show ?thesis
        by (auto simp: crashed_write_def write_calls_def holding_def)
    next
      assume "k = 1"
      with one assms(4) n valid show ?thesis
        by (cases "primary fs") (auto simp: crashed_write_def write_calls_def)
    qed
  next
    assume "take n (write_calls v) = write_calls v"
    with assms(4) write_state_total [of v fs] have "fs' = holding v"
      by (simp add: crashed_write_def write_state_def)
    with level_0 [of P v, OF assms(3)] show ?thesis by simp
  qed
qed

lemma finished_step:
  assumes "level k P fs" and keeps: "\<And>st st' u. P st \<Longrightarrow> f st = Inr (u, st', True) \<Longrightarrow> P st'"
  shows "level k P (snd (transaction dflt f fs))"
proof (cases "read_state dflt fs")
  case (Inr v)
  with level_read [OF assms(1)] have "P v" by blast
  with assms(1) keeps Inr show ?thesis
    by (auto simp: transaction_on_read split: sum.splits intro: level_0)
qed (use assms(1) in \<open>simp add: transaction_def\<close>)

lemma interrupted_step:
  assumes "level k P fs" and "k \<le> 1" and keeps: "\<And>st st' u. P st \<Longrightarrow> f st = Inr (u, st', True) \<Longrightarrow> P st'"
  shows "level (Suc k) P (interrupted_transaction n dflt f fs)"
proof (cases "read_state dflt fs")
  case (Inr v)
  with level_read [OF assms(1)] have v: "P v" by blast
  show ?thesis
  proof (cases "f v")
    case (Inl e)
    with Inr level_Suc [OF assms(1)] show ?thesis by (simp add: interrupted_transaction_def)
  next
    case out: (Inr y)
    obtain u st' b where y: "y = (u, st', b)" by (cases y)
    with keeps [OF v, of u st'] out have "b \<Longrightarrow> P st'" by simp
    with y out Inr level_Suc [OF assms(1)] crash_level [OF assms(1,2), of st' n] show ?thesis
      by (auto simp: interrupted_transaction_def split: sum.splits)
  qed
qed (use level_Suc [OF assms(1)] in \<open>simp add: interrupted_transaction_def\<close>)

section \<open>Execution at most once, durably\<close>

definition recorded :: "string \<Rightarrow> int \<Rightarrow> 'r memory_records \<Rightarrow> bool" where
  "recorded key e records \<longleftrightarrow> js_wf records \<and> (\<exists>rec. js_get records key = Some rec \<and> lr_expiresAt rec = e)"

lemma recorded_keeps:
  assumes "recorded key e records" and "call_time x < e" and "ledger_tx sha256 ret x records = Inr (u, records', changed)"
  shows "recorded key e records'"
proof -
  have "records' = ledger_step memory_store sha256 ret x records"
    using ledger_tx_memory [of sha256 ret x records] assms(3) by simp
  with assms(1,2) memory.call_keeps [of records key _ x sha256 ret] show ?thesis
    unfolding recorded_def by fastforce
qed

lemma run_recorded:
  "level k (recorded key e) fs \<Longrightarrow> k + length (filter interrupted xs) \<le> 2 \<Longrightarrow> \<forall>x\<in>set xs. call_time (io_call x) < e \<Longrightarrow>
     level 2 (recorded key e) (io_run sha256 ret xs fs)"
proof (induction xs arbitrary: k fs)
  case Nil
  then have "k \<in> {0, 1, 2}" by auto
  with Nil show ?case by (auto simp: io_run_def numeral_2_eq_2 simp del: level.simps dest: level_Suc)
next
  case (Cons x xs)
  have keeps: "\<And>st st' u. recorded key e st \<Longrightarrow> ledger_tx sha256 ret (io_call x) st = Inr (u, st', True) \<Longrightarrow> recorded key e st'"
    using Cons.prems(3) by (auto intro: recorded_keeps)
  show ?case
  proof (cases x)
    case (Finished y)
    with finished_step [OF Cons.prems(1), of "ledger_tx sha256 ret y" "[]"] keeps Cons.IH [of k] Cons.prems(2,3)
    show ?thesis by (simp add: io_run_def)
  next
    case (Interrupted n y)
    with interrupted_step [OF Cons.prems(1), of "ledger_tx sha256 ret y" n "[]"] keeps Cons.IH [of "Suc k"] Cons.prems(2,3)
    show ?thesis by (simp add: io_run_def)
  qed
qed

text \<open>Whatever happened before, the documents of the file have distinct keys.\<close>

lemma read_wf: "all_valid js_wf fs \<Longrightarrow> read_state [] fs = Inr v \<Longrightarrow> js_wf v"
  by (cases "primary fs"; cases "next_slot fs"; cases "previous fs")
    (auto simp: read_state_def readJsonCandidate_def all_valid_def split: content.splits)

lemma ledger_step_wf: "js_wf records \<Longrightarrow> js_wf (ledger_step memory_store sha256 ret x records)"
  by (cases x) (auto simp: ledger_begin_def ledger_complete_def ledger_fail_def ledger_prune_def memory_store_def memory_claim_def
      memory_settle_def or_else_def Let_def split: option.splits sum.splits if_splits)

lemma ledger_tx_wf: "js_wf records \<Longrightarrow> ledger_tx sha256 ret x records = Inr (u, records', changed) \<Longrightarrow> js_wf records'"
  using ledger_tx_memory [of sha256 ret x records] ledger_step_wf [of records sha256 ret x] by simp

lemma io_step_wf: "all_valid js_wf fs \<Longrightarrow> all_valid js_wf (io_step sha256 ret x fs)"
proof (cases "read_state [] fs")
  case (Inr v)
  assume wf: "all_valid js_wf fs"
  show ?thesis
  proof (cases "ledger_tx sha256 ret (io_call x) v")
    case (Inl e)
    with Inr wf show ?thesis by (cases x) (auto simp: transaction_on_read interrupted_transaction_def)
  next
    case out: (Inr y)
    obtain u st' b where y: "y = (u, st', b)" by (cases y)
    with ledger_tx_wf [OF read_wf [OF wf Inr]] out have "js_wf st'" by simp
    moreover from this have "all_valid js_wf (holding st')" by (simp add: all_valid_def holding_def)
    ultimately show ?thesis using Inr wf out y crash_all_valid [OF wf, of st']
      by (cases x) (auto simp: transaction_on_read interrupted_transaction_def split: sum.splits)
  qed
qed (cases x; simp add: transaction_def interrupted_transaction_def)

lemma io_run_wf: "all_valid js_wf (io_run sha256 ret xs empty_fs)"
proof (induction xs rule: rev_induct)
  case Nil
  then show ?case by (simp add: io_run_def all_valid_def empty_fs_def)
next
  case (snoc x xs)
  from io_step_wf [OF this] show ?case by (simp add: io_run_def)
qed

lemma begin_outcome_execute: "begin_outcome key fp r = Inr (Execute k fp') \<Longrightarrow> r = Claimed \<and> k = key \<and> fp' = fp"
  by (auto simp: begin_outcome_def split: claim_result.splits if_splits ledger_record.splits)

lemma file_begin_granted:
  assumes "all_valid js_wf fs" and "file_begin sha256 ret fs c now = (Inr (Execute k fp), fs')"
  shows "\<exists>st. fs' = holding st \<and> recorded (ledger_key c) (now + ret) st"
proof -
  from assms(2) obtain fp0 r where fp0: "ledger_fingerprint sha256 c = Some fp0"
    and tx: "transaction [] (file_claim_tx (ledger_key c) fp0 now (now + ret)) fs = (Inr r, fs')"
    and "begin_outcome (ledger_key c) fp0 r = Inr (Execute k fp)"
    by (auto simp: file_begin_def split: option.splits sum.splits prod.splits)
  then have r: "r = Claimed" by (blast dest: begin_outcome_execute)
  from tx obtain v where v: "read_state [] fs = Inr v" by (auto simp: transaction_def split: sum.splits)
  have "js_wf (fst (pruneState v now))"
    using read_wf [OF assms(1) v] by (simp add: pruneState_def js_wf_filter)
  with tx r v show ?thesis
    by (auto simp: transaction_on_read file_claim_tx_def recorded_def jsmap_simps split: prod.splits option.splits)
qed

lemma file_begin_refused:
  assumes "level 2 (recorded (ledger_key c) e) fs" and "now < e"
  shows "fst (file_begin sha256 ret fs c now) \<noteq> Inr (Execute k fp)"
proof (cases "ledger_fingerprint sha256 c")
  case (Some fp0)
  show ?thesis
  proof (cases "read_state [] fs")
    case (Inr v)
    with level_read [OF assms(1)] have v: "recorded (ledger_key c) e v" by blast
    then obtain rec where "js_get (fst (pruneState v now)) (ledger_key c) = Some rec"
      using assms(2) by (auto simp: recorded_def pruneState_def js_get_filter)
    with Some Inr show ?thesis
      by (auto simp: file_begin_def transaction_on_read file_claim_tx_def split: prod.splits sum.splits dest: begin_outcome_execute)
  qed (use Some in \<open>simp add: file_begin_def transaction_def\<close>)
qed (simp add: file_begin_def)

text \<open>
  C7: a durable execution-once ledger. After any history of calls and deaths from an empty store, once
  \<open>begin\<close> has granted the execution of a command, no \<open>begin\<close> under the same key grants it again within
  the retention, whatever calls follow and wherever they are interrupted, provided at most two of them
  are interrupted.
\<close>

theorem durable_execute_once:
  assumes "fs = io_run sha256 ret history empty_fs"
    and "file_begin sha256 ret fs c now = (Inr (Execute k fp), fs')"
    and "\<forall>x\<in>set xs. call_time (io_call x) < now + ret" and "length (filter interrupted xs) \<le> 2"
    and "later < now + ret" and "ledger_key c' = ledger_key c"
  shows "fst (file_begin sha256 ret (io_run sha256 ret xs fs') c' later) \<noteq> Inr (Execute k' fp')"
proof -
  from file_begin_granted [OF _ assms(2)] io_run_wf assms(1)
  have "level 0 (recorded (ledger_key c) (now + ret)) fs'" by auto
  from run_recorded [OF this _ assms(3)] assms(4)
  have "level 2 (recorded (ledger_key c') (now + ret)) (io_run sha256 ret xs fs')" by (simp add: assms(6))
  then show ?thesis using assms(5) by (rule file_begin_refused)
qed

text \<open>The sample command, and others with another identifier.\<close>

definition other_command :: "string \<Rightarrow> malink_command" where
  "other_command i = sample_command\<lparr>mc_commandId := i\<rparr>"

lemma sample_ledger_fingerprint: "ledger_fingerprint id sample_command = Some (render (json_normal (malink_command_json sample_command)))"
  using ledger_fingerprint_encodable [of sample_command id] by (simp add: sample_command_def)

lemma other_fingerprint: "ledger_fingerprint id (other_command i) \<noteq> None"
  using ledger_fingerprint_encodable [of "other_command i" id] by (simp add: other_command_def sample_command_def)

lemma sample_granted:
  "file_begin id 1000 (io_run id 1000 [Finished (Call_prune 0)] empty_fs) sample_command 0
    = (Inr (Execute (ledger_key sample_command) (render (json_normal (malink_command_json sample_command)))),
       holding [(ledger_key sample_command, Pending_record (render (json_normal (malink_command_json sample_command))) 0 1000)])"
  by (simp add: file_begin_def sample_ledger_fingerprint io_run_def file_prune_tx_def pruneState_def transaction_on_read file_claim_tx_def
      begin_outcome_def)

theorem durable_execute_once_witness:
  "fst (file_begin id 1000 (io_run id 1000
      [Interrupted 5 (Call_complete (ledger_key sample_command) (render (json_normal (malink_command_json sample_command))) (7 :: nat) 3),
       Finished (Call_begin sample_command 5)]
      (holding [(ledger_key sample_command, Pending_record (render (json_normal (malink_command_json sample_command))) 0 1000)]))
      sample_command 10) \<noteq> Inr (Execute ''k'' ''f'')"
  by (rule durable_execute_once [OF refl sample_granted]) simp_all

text \<open>The effect of a \<open>begin\<close> of a command that is not recorded, when nothing has expired.\<close>

definition granted :: "int \<Rightarrow> int \<Rightarrow> malink_command \<Rightarrow> string \<Rightarrow> string \<times> 'r ledger_record" where
  "granted now ret d f = (ledger_key d, Pending_record f now (now + ret))"

lemma claim_appends:
  assumes "\<forall>(k, rec)\<in>set st. \<not> lr_expiresAt rec \<le> now" and "ledger_key d \<notin> fst ` set st"
  shows "file_claim_tx (ledger_key d) f now (now + ret) st = Inr (Claimed, st @ [granted now ret d f], True)"
proof -
  have "filter (\<lambda>(k, rec). \<not> lr_expiresAt rec \<le> now) st = st" using assms(1) by (auto simp: filter_id_conv)
  moreover have "\<not> js_has st (ledger_key d)" using assms(2) by (simp add: js_has_def)
  ultimately show ?thesis
    by (auto simp: file_claim_tx_def pruneState_def js_has_get js_set_fresh granted_def split: option.splits)
qed

lemma interrupted_begin:
  assumes "ledger_fingerprint sha256 d = Some f" and "read_state [] fs = Inr st" and "0 < ret"
    and "st = map (\<lambda>(d, f). granted now ret d f) ds" and "ledger_key d \<notin> ledger_key ` fst ` set ds"
    and "crashed_write n (map (\<lambda>(d, f). granted now ret d f) (ds @ [(d, f)])) fs = Inr fs'"
  shows "io_step sha256 ret (Interrupted n (Call_begin d now)) fs = fs'"
proof -
  have "file_claim_tx (ledger_key d) f now (now + ret) st = Inr (Claimed, st @ [granted now ret d f], True)"
    using assms(3-5) by (intro claim_appends) (force simp: granted_def)+
  with assms show ?thesis by (simp add: interrupted_transaction_def forget_def)
qed

text \<open>
  C37: three deaths lose the ledger. When the writes of three successive calls are interrupted, the first
  between the two renames, the second after \<open>path.previous\<close> was removed, the third after \<open>path.next\<close>
  was, no document is left, and \<open>begin\<close> grants a command a second time within the retention.
\<close>

theorem three_deaths_repeat_execution:
  assumes "ledger_fingerprint sha256 c = Some fp" and "ledger_fingerprint sha256 d1 \<noteq> None"
    and "ledger_fingerprint sha256 d2 \<noteq> None" and "ledger_fingerprint sha256 d3 \<noteq> None"
    and "distinct [ledger_key c, ledger_key d1, ledger_key d2, ledger_key d3]" and "0 < ret"
  shows "\<exists>fs'. file_begin sha256 ret (empty_fs :: 'r memory_records fs) c now = (Inr (Execute (ledger_key c) fp), fs')
    \<and> (\<exists>fs''. file_begin sha256 ret (io_run sha256 ret
         [Interrupted 5 (Call_begin d1 now), Interrupted 4 (Call_begin d2 now), Interrupted 1 (Call_begin d3 now)] fs') c now
       = (Inr (Execute (ledger_key c) fp), fs''))"
proof -
  obtain f1 f2 f3 where f: "ledger_fingerprint sha256 d1 = Some f1" "ledger_fingerprint sha256 d2 = Some f2"
    "ledger_fingerprint sha256 d3 = Some f3" using assms(2-4) by auto
  let ?docs = "map (\<lambda>(d, f). granted now ret d f) :: _ \<Rightarrow> 'r memory_records"
  let ?fs1 = "\<lparr>primary = None, next_slot = Some (Valid (?docs [(c, fp), (d1, f1)])), previous = Some (Valid (?docs [(c, fp)]))\<rparr>"
  let ?fs2 = "\<lparr>primary = None, next_slot = Some (Valid (?docs [(c, fp), (d1, f1), (d2, f2)])), previous = None\<rparr>"
  note fs_simps = crashed_write_def write_calls_def read_state_def readJsonCandidate_def holding_def empty_fs_def
  have first: "file_begin sha256 ret (empty_fs :: 'r memory_records fs) c now
      = (Inr (Execute (ledger_key c) fp), holding (?docs [(c, fp)]))"
    using assms(1) by (simp add: claim_appends file_begin_def transaction_on_read begin_outcome_def)
  have "io_step sha256 ret (Interrupted 5 (Call_begin d1 now)) (holding (?docs [(c, fp)])) = ?fs1"
    by (rule interrupted_begin [OF f(1) _ assms(6) refl, of _ _ "[(c, fp)]"]) (use assms(5) in \<open>auto simp: fs_simps\<close>)
  moreover have "io_step sha256 ret (Interrupted 4 (Call_begin d2 now)) ?fs1 = ?fs2"
    by (rule interrupted_begin [OF f(2) _ assms(6) refl, of _ _ "[(c, fp), (d1, f1)]"]) (use assms(5) in \<open>auto simp: fs_simps\<close>)
  moreover have "io_step sha256 ret (Interrupted 1 (Call_begin d3 now)) ?fs2 = empty_fs"
    by (rule interrupted_begin [OF f(3) _ assms(6) refl, of _ _ "[(c, fp), (d1, f1), (d2, f2)]"]) (use assms(5) in \<open>auto simp: fs_simps\<close>)
  ultimately have "io_run sha256 ret [Interrupted 5 (Call_begin d1 now), Interrupted 4 (Call_begin d2 now), Interrupted 1 (Call_begin d3 now)]
      (holding (?docs [(c, fp)])) = empty_fs"
    by (simp add: io_run_def)
  with first show ?thesis by auto
qed

theorem three_deaths_repeat_execution_witness:
  "\<exists>fs'. file_begin id 1000 (empty_fs :: nat memory_records fs) sample_command 0
      = (Inr (Execute (ledger_key sample_command) (render (json_normal (malink_command_json sample_command)))), fs')
    \<and> (\<exists>fs''. file_begin id 1000 (io_run id 1000
         [Interrupted 5 (Call_begin (other_command ''c2'') 0), Interrupted 4 (Call_begin (other_command ''c3'') 0),
          Interrupted 1 (Call_begin (other_command ''c4'') 0)] fs') sample_command 0
       = (Inr (Execute (ledger_key sample_command) (render (json_normal (malink_command_json sample_command)))), fs''))"
  by (rule three_deaths_repeat_execution [OF sample_ledger_fingerprint other_fingerprint other_fingerprint other_fingerprint])
    (simp_all add: ledger_key_def other_command_def sample_command_def)

end
