(* ===== verification/Event_Inbox.thy ===== *)
theory Event_Inbox
  imports Canonical_Json Atomic_Json_File "HOL-Library.Product_Lexorder"
begin

text \<open>
  Model of \<open>FileMatrixEventInbox\<close> (\<open>src/gateway/matrix/fileMatrixEventInbox.ts\<close>), the durable
  boundary between the Matrix synchronization and command authorization: an event is staged before
  the synchronization cursor may advance, and stays until it is completed or quarantined.

  Every operation is a transaction of the atomic JSON file. SHA-256 (hexadecimal) is a parameter.
  Its digests are lower-case hexadecimal, on which \<open>localeCompare\<close> is the order of the characters.
\<close>

section \<open>State\<close>

text \<open>\<open>MatrixIncomingEvent\<close> (\<open>src/channel/matrix/transport.ts\<close>).\<close>

record matrix_event =
  me_roomId :: string
  me_eventId :: string
  me_eventType :: string
  me_sender :: string
  me_senderDeviceId :: "string option"
  me_encrypted :: bool
  me_encryptedPayloadFingerprint :: "string option"
  me_content :: json
  me_originServerTs :: "int option"

definition optional_entry :: "string \<Rightarrow> ('a \<Rightarrow> json) \<Rightarrow> 'a option \<Rightarrow> (string \<times> json) list" where
  "optional_entry k f x = (case x of None \<Rightarrow> [] | Some v \<Rightarrow> [(k, f v)])"

definition matrix_event_json :: "matrix_event \<Rightarrow> json" where
  "matrix_event_json e = JObj
     ([(''roomId'', JStr (me_roomId e)), (''eventId'', JStr (me_eventId e)),
       (''eventType'', JStr (me_eventType e)), (''sender'', JStr (me_sender e))]
      @ optional_entry ''senderDeviceId'' JStr (me_senderDeviceId e)
      @ [(''encrypted'', JBool (me_encrypted e))]
      @ optional_entry ''encryptedPayloadFingerprint'' JStr (me_encryptedPayloadFingerprint e)
      @ [(''content'', me_content e)]
      @ optional_entry ''originServerTs'' JNum (me_originServerTs e))"

record inbox_record =
  ir_key :: string
  ir_event :: matrix_event
  ir_receivedAt :: int
  ir_status :: string
  ir_error :: json \<comment> \<open>\<^const>\<open>JUndefined\<close> when absent\<close>

text \<open>A document whose \<open>records\<close> is not a plain object has no record map.\<close>

record inbox_state =
  ib_version :: int
  ib_records :: "(string, inbox_record) jsmap option"

datatype inbox_error =
    Invalid_inbox_state
  | Invalid_inbox_record string
  | Event_changed string
  | Inbox_exceeded nat
  | Event_not_in_inbox string
  | Not_canonical

definition DEFAULT_MAX_RECORDS :: nat where
  "DEFAULT_MAX_RECORDS = 10000"

definition MAX_QUARANTINE_ERROR_LENGTH :: nat where
  "MAX_QUARANTINE_ERROR_LENGTH = 4096"

definition inbox_defaultState :: inbox_state where
  "inbox_defaultState = \<lparr>ib_version = 1, ib_records = Some []\<rparr>"

definition matrixEventInboxKey :: "(string \<Rightarrow> string) \<Rightarrow> matrix_event \<Rightarrow> string" where
  "matrixEventInboxKey sha256hex event =
     sha256hex (''malink-matrix-event-inbox:v1'' @ [CHR 0x00] @ me_roomId event @ [CHR 0x00] @ me_eventId event)"

definition valid_inbox_record :: "(string \<Rightarrow> string) \<Rightarrow> string \<Rightarrow> inbox_record \<Rightarrow> bool" where
  "valid_inbox_record sha key record \<longleftrightarrow>
     ir_key record = key
     \<and> matrixEventInboxKey sha (ir_event record) = key
     \<and> isSafeInteger (ir_receivedAt record)
     \<and> \<not> ir_receivedAt record < 0
     \<and> (ir_status record = ''pending'' \<or> ir_status record = ''quarantined'')
     \<and> (ir_error record = JUndefined \<or> str_of (ir_error record) \<noteq> None)"

text \<open>\<open>validateState\<close> throws at the first invalid record; on success it yields the record map.\<close>

definition validateState ::
  "(string \<Rightarrow> string) \<Rightarrow> inbox_state \<Rightarrow> (inbox_error, (string, inbox_record) jsmap) result" where
  "validateState sha state =
     (case ib_records state of
        None \<Rightarrow> Inl Invalid_inbox_state
      | Some records \<Rightarrow>
          if ib_version state \<noteq> 1 then Inl Invalid_inbox_state
          else (case find (\<lambda>(key, record). \<not> valid_inbox_record sha key record) records of
                  Some (key, _) \<Rightarrow> Inl (Invalid_inbox_record key)
                | None \<Rightarrow> Inr records))"

section \<open>Operations\<close>

datatype thrown_value = Error_value string | Other_value string \<comment> \<open>\<open>String(value)\<close>\<close>

fun formatError :: "thrown_value \<Rightarrow> string" where
  "formatError (Error_value message) = message"
| "formatError (Other_value text) = text"

definition inbox_initialize :: "(string \<Rightarrow> string) \<Rightarrow> (inbox_error, inbox_state, unit) tx" where
  "inbox_initialize sha state = rbind (validateState sha state) (\<lambda>records. Inr ((), state, False))"

definition inbox_stage ::
  "(string \<Rightarrow> string) \<Rightarrow> nat \<Rightarrow> matrix_event \<Rightarrow> int \<Rightarrow> (inbox_error, inbox_state, bool) tx" where
  "inbox_stage sha maxRecords event receivedAt state =
     rbind (validateState sha state) (\<lambda>records.
       let key = matrixEventInboxKey sha event in
       case js_get records key of
         Some current \<Rightarrow>
           (case (canonicalJson (matrix_event_json (ir_event current)),
                  canonicalJson (matrix_event_json event)) of
              (Some retained, Some received) \<Rightarrow>
                if retained \<noteq> received then Inl (Event_changed (me_eventId event))
                else Inr (False, state, False)
            | _ \<Rightarrow> Inl Not_canonical)
       | None \<Rightarrow>
           if maxRecords \<le> length records then Inl (Inbox_exceeded maxRecords)
           else Inr (True, state\<lparr>ib_records := Some (js_set key
                  \<lparr>ir_key = key, ir_event = event, ir_receivedAt = receivedAt,
                   ir_status = ''pending'', ir_error = JUndefined\<rparr> records)\<rparr>, True))"

definition pending_records :: "(string, inbox_record) jsmap \<Rightarrow> inbox_record list" where
  "pending_records records =
     sort_key (\<lambda>record. (ir_receivedAt record, ir_key record))
       (filter (\<lambda>record. ir_status record = ''pending'') (js_values records))"

definition inbox_pending :: "(string \<Rightarrow> string) \<Rightarrow> (inbox_error, inbox_state, inbox_record list) tx" where
  "inbox_pending sha state =
     rbind (validateState sha state) (\<lambda>records. Inr (pending_records records, state, False))"

definition inbox_complete :: "(string \<Rightarrow> string) \<Rightarrow> matrix_event \<Rightarrow> (inbox_error, inbox_state, unit) tx" where
  "inbox_complete sha event state =
     rbind (validateState sha state) (\<lambda>records.
       let key = matrixEventInboxKey sha event in
       if js_get records key = None then Inr ((), state, False)
       else Inr ((), state\<lparr>ib_records := Some (js_delete key records)\<rparr>, True))"

definition inbox_quarantine ::
  "(string \<Rightarrow> string) \<Rightarrow> matrix_event \<Rightarrow> thrown_value \<Rightarrow> (inbox_error, inbox_state, unit) tx" where
  "inbox_quarantine sha event error state =
     rbind (validateState sha state) (\<lambda>records.
       let key = matrixEventInboxKey sha event;
           message = take MAX_QUARANTINE_ERROR_LENGTH (formatError error) in
       case js_get records key of
         None \<Rightarrow> Inl (Event_not_in_inbox (me_eventId event))
       | Some record \<Rightarrow>
           if ir_status record = ''quarantined'' \<and> ir_error record = JStr message
           then Inr ((), state, False)
           else Inr ((), state\<lparr>ib_records := Some (js_set key
                  (record\<lparr>ir_status := ''quarantined'', ir_error := JStr message\<rparr>) records)\<rparr>, True))"

definition inbox_counts :: "(string \<Rightarrow> string) \<Rightarrow> (inbox_error, inbox_state, nat \<times> nat) tx" where
  "inbox_counts sha state =
     rbind (validateState sha state) (\<lambda>records.
       Inr (foldl (\<lambda>(pending, quarantined) record.
              if ir_status record = ''pending'' then (pending + 1, quarantined)
              else (pending, quarantined + 1)) (0, 0) (js_values records), state, False))"

text \<open>A call of the inbox, its result forgotten.\<close>

datatype inbox_call =
    Inbox_initialize
  | Inbox_stage matrix_event int
  | Inbox_pending
  | Inbox_complete matrix_event
  | Inbox_quarantine matrix_event thrown_value
  | Inbox_counts

fun inbox_tx :: "(string \<Rightarrow> string) \<Rightarrow> nat \<Rightarrow> inbox_call \<Rightarrow> (inbox_error, inbox_state, unit) tx" where
  "inbox_tx sha mx Inbox_initialize state = inbox_initialize sha state"
| "inbox_tx sha mx (Inbox_stage event receivedAt) state = forget (inbox_stage sha mx event receivedAt state)"
| "inbox_tx sha mx Inbox_pending state = forget (inbox_pending sha state)"
| "inbox_tx sha mx (Inbox_complete event) state = inbox_complete sha event state"
| "inbox_tx sha mx (Inbox_quarantine event err) state = inbox_quarantine sha event err state"
| "inbox_tx sha mx Inbox_counts state = forget (inbox_counts sha state)"

definition inbox_run :: "(string \<Rightarrow> string) \<Rightarrow> nat \<Rightarrow> inbox_call list \<Rightarrow> inbox_state fs \<Rightarrow> inbox_state fs" where
  "inbox_run sha mx calls fs =
     fold (\<lambda>f c. snd (transaction inbox_defaultState f c)) (map (inbox_tx sha mx) calls) fs"

section \<open>Validity and the retention bound\<close>

lemma find_mem: "find P xs = Some x \<Longrightarrow> x \<in> set xs \<and> P x"
  by (induction xs) (auto split: if_splits)

lemma validateState_Inr:
  "validateState sha state = Inr records \<longleftrightarrow>
     ib_records state = Some records \<and> ib_version state = 1
     \<and> (\<forall>(key, record)\<in>set records. valid_inbox_record sha key record)"
proof (cases "ib_records state")
  case (Some m)
  show ?thesis
  proof (cases "find (\<lambda>(key, record). \<not> valid_inbox_record sha key record) m")
    case None
    with Some show ?thesis by (auto simp: validateState_def) (auto simp: find_None_iff)
  next
    case (Some x)
    with find_mem [OF Some] \<open>ib_records state = _\<close> show ?thesis by (auto simp: validateState_def)
  qed
qed (simp add: validateState_def)

definition inbox_inv :: "(string \<Rightarrow> string) \<Rightarrow> nat \<Rightarrow> inbox_state \<Rightarrow> bool" where
  "inbox_inv sha mx state \<longleftrightarrow>
     (\<exists>records. validateState sha state = Inr records \<and> js_wf records \<and> length records \<le> mx)"

text \<open>The caller stamps a staged event with the current time, a non-negative safe integer.\<close>

fun inbox_call_ok :: "inbox_call \<Rightarrow> bool" where
  "inbox_call_ok (Inbox_stage event receivedAt) \<longleftrightarrow> isSafeInteger receivedAt \<and> 0 \<le> receivedAt"
| "inbox_call_ok _ \<longleftrightarrow> True"

text \<open>What a call that reports a change does to the validated records.\<close>

abbreviation pending_record :: "string \<Rightarrow> matrix_event \<Rightarrow> int \<Rightarrow> inbox_record" where
  "pending_record key event at \<equiv> \<lparr>ir_key = key, ir_event = event, ir_receivedAt = at,
     ir_status = ''pending'', ir_error = JUndefined\<rparr>"

abbreviation quarantined_record :: "thrown_value \<Rightarrow> inbox_record \<Rightarrow> inbox_record" where
  "quarantined_record err record \<equiv> record\<lparr>ir_status := ''quarantined'',
     ir_error := JStr (take MAX_QUARANTINE_ERROR_LENGTH (formatError err))\<rparr>"

fun inbox_change :: "(string \<Rightarrow> string) \<Rightarrow> nat \<Rightarrow> inbox_call \<Rightarrow>
    (string, inbox_record) jsmap \<Rightarrow> (string, inbox_record) jsmap \<Rightarrow> bool" where
  "inbox_change sha mx (Inbox_stage event at) m m' \<longleftrightarrow> (let key = matrixEventInboxKey sha event in
     \<not> js_has m key \<and> length m < mx \<and> m' = js_set key (pending_record key event at) m)"
| "inbox_change sha mx (Inbox_complete event) m m' \<longleftrightarrow> m' = js_delete (matrixEventInboxKey sha event) m"
| "inbox_change sha mx (Inbox_quarantine event err) m m' \<longleftrightarrow> (let key = matrixEventInboxKey sha event in
     \<exists>record. js_get m key = Some record \<and> m' = js_set key (quarantined_record err record) m)"
| "inbox_change sha mx _ m m' \<longleftrightarrow> False"

lemma inbox_tx_change:
  assumes "inbox_tx sha mx c state = Inr (u, t, True)"
  shows "\<exists>m m'. validateState sha state = Inr m \<and> t = state\<lparr>ib_records := Some m'\<rparr>
    \<and> inbox_change sha mx c m m'"
proof (cases c)
  case (Inbox_stage event at)
  with assms show ?thesis
    by (cases "validateState sha state")
      (auto simp: forget_Inr inbox_stage_def Let_def js_has_get split: option.splits if_splits)
next
  case (Inbox_complete event)
  with assms show ?thesis
    by (auto simp: inbox_complete_def rbind_eq_Inr Let_def split: if_splits)
next
  case (Inbox_quarantine event err)
  with assms show ?thesis
    by (auto simp: inbox_quarantine_def rbind_eq_Inr Let_def split: option.splits if_splits)
qed (use assms in \<open>auto simp: forget_Inr inbox_initialize_def inbox_pending_def inbox_counts_def rbind_eq_Inr\<close>)

lemma length_js_set_present: "js_has m k \<Longrightarrow> length (js_set k v m) = length m"
  by (induction m) (auto simp: js_has_def)

lemma valid_pending:
  "isSafeInteger at \<Longrightarrow> 0 \<le> at \<Longrightarrow> key = matrixEventInboxKey sha event \<Longrightarrow>
   valid_inbox_record sha key (pending_record key event at)"
  by (simp add: valid_inbox_record_def)

lemma valid_quarantined:
  "valid_inbox_record sha key record \<Longrightarrow>
   valid_inbox_record sha key (quarantined_record err record)"
  by (simp add: valid_inbox_record_def)

abbreviation all_valid :: "(string \<Rightarrow> string) \<Rightarrow> (string, inbox_record) jsmap \<Rightarrow> bool" where
  "all_valid sha m \<equiv> \<forall>(key, record)\<in>set m. valid_inbox_record sha key record"

lemma inbox_change_keeps:
  assumes "js_wf m" and "length m \<le> mx" and valid: "all_valid sha m"
    and "inbox_call_ok c" and "inbox_change sha mx c m m'"
  shows "js_wf m' \<and> length m' \<le> mx \<and> all_valid sha m'"
proof (cases c)
  case (Inbox_stage event at)
  with assms show ?thesis by (auto simp: Let_def js_set_fresh js_wf_def js_has_def valid_pending)
next
  case (Inbox_complete event)
  with assms show ?thesis
    by (auto simp: js_delete_filter intro: js_wf_filter le_trans [OF length_filter_le])
next
  case (Inbox_quarantine event err)
  with assms obtain rc where get: "js_get m (matrixEventInboxKey sha event) = Some rc"
    and m': "m' = js_set (matrixEventInboxKey sha event) (quarantined_record err rc) m"
    by (auto simp: Let_def)
  from get have "js_has m (matrixEventInboxKey sha event)" by (simp add: js_has_get)
  moreover from js_get_mem [OF get] valid
  have "valid_inbox_record sha (matrixEventInboxKey sha event) rc" by auto
  ultimately show ?thesis using assms(1-3) m'
    by (auto simp: length_js_set_present dest!: js_set_mem intro: valid_quarantined)
qed (use assms in auto)

lemma inbox_tx_keeps_inv:
  assumes "inbox_inv sha mx state" and "inbox_call_ok c" and "inbox_tx sha mx c state = Inr (u, t, True)"
  shows "inbox_inv sha mx t"
proof -
  obtain m m' where v: "validateState sha state = Inr m" and t: "t = state\<lparr>ib_records := Some m'\<rparr>"
    and c: "inbox_change sha mx c m m'"
    using inbox_tx_change [OF assms(3)] by blast
  from v assms(1) have "js_wf m" "length m \<le> mx" "all_valid sha m" "ib_version state = 1"
    by (auto simp: inbox_inv_def validateState_Inr)
  with inbox_change_keeps [OF this(1-3) assms(2) c] t show ?thesis
    by (auto simp: inbox_inv_def validateState_Inr)
qed

lemma inbox_run_inv:
  assumes "at_rest fs" and "inbox_inv sha mx (stored inbox_defaultState fs)"
    and "\<forall>c\<in>set calls. inbox_call_ok c"
  shows "at_rest (inbox_run sha mx calls fs)
    \<and> inbox_inv sha mx (stored inbox_defaultState (inbox_run sha mx calls fs))"
  unfolding inbox_run_def using assms
  by (intro json_file.runs_invariant) (auto intro: inbox_tx_keeps_inv)

section \<open>Staged events are not lost\<close>

text \<open>\<open>keeps_event\<close>: the call neither completes nor quarantines the event stored under \<open>key\<close>.\<close>

fun keeps_event :: "(string \<Rightarrow> string) \<Rightarrow> string \<Rightarrow> inbox_call \<Rightarrow> bool" where
  "keeps_event sha key (Inbox_complete event) \<longleftrightarrow> matrixEventInboxKey sha event \<noteq> key"
| "keeps_event sha key (Inbox_quarantine event err) \<longleftrightarrow> matrixEventInboxKey sha event \<noteq> key"
| "keeps_event sha key _ \<longleftrightarrow> True"

definition inbox_holds :: "(string \<Rightarrow> string) \<Rightarrow> nat \<Rightarrow> string \<Rightarrow> inbox_record \<Rightarrow> inbox_state \<Rightarrow> bool" where
  "inbox_holds sha mx key record state \<longleftrightarrow> inbox_inv sha mx state
     \<and> (\<exists>m. ib_records state = Some m \<and> js_get m key = Some record)"

lemma inbox_tx_keeps_event:
  assumes "inbox_holds sha mx key record state" and "inbox_call_ok c" and "keeps_event sha key c"
    and "inbox_tx sha mx c state = Inr (u, t, True)"
  shows "inbox_holds sha mx key record t"
proof -
  obtain m m' where v: "validateState sha state = Inr m" and t: "t = state\<lparr>ib_records := Some m'\<rparr>"
    and c: "inbox_change sha mx c m m'"
    using inbox_tx_change [OF assms(4)] by blast
  from v assms(1) have "js_get m key = Some record" by (auto simp: inbox_holds_def validateState_Inr)
  with c assms(3) have "js_get m' key = Some record"
    by (cases c) (auto simp: Let_def jsmap_simps)
  moreover have "inbox_inv sha mx t"
    using inbox_tx_keeps_inv [OF _ assms(2,4)] assms(1) by (simp add: inbox_holds_def)
  ultimately show ?thesis using t by (simp add: inbox_holds_def)
qed

lemma inbox_run_holds:
  assumes "at_rest fs" and "inbox_holds sha mx key record (stored inbox_defaultState fs)"
    and "\<forall>c\<in>set calls. inbox_call_ok c \<and> keeps_event sha key c"
  shows "at_rest (inbox_run sha mx calls fs)
    \<and> inbox_holds sha mx key record (stored inbox_defaultState (inbox_run sha mx calls fs))"
  unfolding inbox_run_def using assms
  by (intro json_file.runs_invariant) (auto intro: inbox_tx_keeps_event)

lemma sorted_map_fst_lex:
  "sorted (map f xs) \<Longrightarrow> sorted (map (fst \<circ> (f :: 'a \<Rightarrow> 'b::linorder \<times> 'c::linorder)) xs)"
  by (induction xs) (auto simp: less_eq_prod_def)

lemma inbox_pending_result:
  assumes "read_state inbox_defaultState fs = Inr state" and "inbox_holds sha mx key record state"
    and "ir_status record = ''pending''"
  shows "\<exists>records. fst (transaction inbox_defaultState (inbox_pending sha) fs) = Inr records
    \<and> record \<in> set records \<and> sorted (map ir_receivedAt records)"
proof -
  from assms(2) obtain m where v: "validateState sha state = Inr m" and "js_get m key = Some record"
    by (auto simp: inbox_holds_def inbox_inv_def validateState_Inr)
  with assms(3) have "record \<in> set (pending_records m)"
    by (auto simp: pending_records_def dest!: js_get_mem intro: rev_image_eqI)
  moreover have "sorted (map (fst \<circ> (\<lambda>record. (ir_receivedAt record, ir_key record))) (pending_records m))"
    by (rule sorted_map_fst_lex) (simp add: pending_records_def)
  moreover have "fst (transaction inbox_defaultState (inbox_pending sha) fs) = Inr (pending_records m)"
    using v by (simp add: transaction_on_read [OF assms(1)] inbox_pending_def)
  ultimately show ?thesis by (simp add: o_def)
qed

section \<open>Properties\<close>

definition sample_event :: matrix_event where
  "sample_event = \<lparr>me_roomId = ''!r'', me_eventId = ''$1'', me_eventType = ''m.malink'', me_sender = ''@a'',
     me_senderDeviceId = None, me_encrypted = True, me_encryptedPayloadFingerprint = None,
     me_content = JObj [], me_originServerTs = Some 5\<rparr>"

definition sample_event2 :: matrix_event where
  "sample_event2 = sample_event\<lparr>me_eventId := ''$2''\<rparr>"

text \<open>
  The inbox document stays valid and bounded. Whatever calls are made, in whatever order and
  whether they succeed or throw, the file is left at rest with a document that \<open>validateState\<close>
  accepts and that holds at most \<open>maxRecords\<close> records under pairwise different keys.
\<close>

theorem inbox_stays_valid:
  assumes "at_rest fs" and "inbox_inv sha mx (stored inbox_defaultState fs)"
    and "\<forall>c\<in>set calls. inbox_call_ok c"
  shows "at_rest (inbox_run sha mx calls fs)
    \<and> inbox_inv sha mx (stored inbox_defaultState (inbox_run sha mx calls fs))"
  by (rule inbox_run_inv [OF assms])

lemma stage_commits:
  assumes "at_rest fs" and "inbox_inv sha mx (stored inbox_defaultState fs)"
    and "isSafeInteger at" and "0 \<le> at"
    and "transaction inbox_defaultState (inbox_stage sha mx event at) fs = (Inr True, fs1)"
  shows "\<exists>s. fs1 = holding s \<and> inbox_holds sha mx (matrixEventInboxKey sha event)
     (pending_record (matrixEventInboxKey sha event) event at) s"
proof -
  let ?s = "stored inbox_defaultState fs"
  note tr = transaction_on_read [OF at_rest_read [OF assms(1)], of inbox_defaultState "inbox_stage sha mx event at"]
  obtain s where st: "inbox_stage sha mx event at ?s = Inr (True, s, True)" and fs1: "fs1 = holding s"
    using assms(5) unfolding tr
    by (auto split: sum.splits if_splits)
      (auto simp: inbox_stage_def rbind_eq_Inr Let_def split: option.splits if_splits)
  from st have tx: "inbox_tx sha mx (Inbox_stage event at) ?s = Inr ((), s, True)"
    by (auto simp: forget_Inr)
  have "inbox_inv sha mx s" using inbox_tx_keeps_inv [OF assms(2) _ tx] assms(3,4) by simp
  moreover from inbox_tx_change [OF tx] obtain m m' where "s = ?s\<lparr>ib_records := Some m'\<rparr>"
    and "inbox_change sha mx (Inbox_stage event at) m m'" by blast
  ultimately show ?thesis using fs1 by (auto simp: inbox_holds_def Let_def jsmap_simps)
qed

text \<open>
  C8: a staged event is not lost. Once \<open>stage\<close> has returned true, and through any further calls that
  neither complete nor quarantine that event, every later \<open>pending\<close> returns it with its content and
  receipt time, in the order of receipt. The same holds when the process dies at any point of the
  file-system calls with which a further such call writes its change.
\<close>

theorem staged_event_stays_pending:
  assumes "at_rest fs" and "inbox_inv sha mx (stored inbox_defaultState fs)"
    and "isSafeInteger at" and "0 \<le> at"
    and "transaction inbox_defaultState (inbox_stage sha mx event at) fs = (Inr True, fs1)"
    and "\<forall>c\<in>set (last_call # calls). inbox_call_ok c \<and> keeps_event sha (matrixEventInboxKey sha event) c"
    and "fs2 = inbox_run sha mx calls fs1"
    and "fs3 = fs2 \<or> (\<exists>s. inbox_tx sha mx last_call (stored inbox_defaultState fs2) = Inr ((), s, True)
           \<and> crashed_write n s fs2 = Inr fs3)"
  shows "\<exists>records. fst (transaction inbox_defaultState (inbox_pending sha) fs3) = Inr records
    \<and> pending_record (matrixEventInboxKey sha event) event at \<in> set records
    \<and> sorted (map ir_receivedAt records)"
proof -
  let ?key = "matrixEventInboxKey sha event"
  let ?holds = "inbox_holds sha mx ?key (pending_record ?key event at)"
  from stage_commits [OF assms(1-5)] obtain s where s: "fs1 = holding s" "?holds s" by blast
  have run: "at_rest fs2 \<and> ?holds (stored inbox_defaultState fs2)"
    unfolding assms(7) by (rule inbox_run_holds) (use s assms(6) in \<open>auto simp: at_rest_def\<close>)
  have "\<exists>v. read_state inbox_defaultState fs3 = Inr v \<and> ?holds v"
    using assms(8)
  proof
    assume "fs3 = fs2"
    with at_rest_read [of fs2 inbox_defaultState] run show ?thesis by simp
  next
    assume "\<exists>s. inbox_tx sha mx last_call (stored inbox_defaultState fs2) = Inr ((), s, True)
      \<and> crashed_write n s fs2 = Inr fs3"
    then obtain t where t: "inbox_tx sha mx last_call (stored inbox_defaultState fs2) = Inr ((), t, True)"
      and crash: "crashed_write n t fs2 = Inr fs3" by blast
    have "fs2 \<noteq> empty_fs"
      using run by (auto simp: inbox_holds_def inbox_defaultState_def)
    with run obtain u where u: "fs2 = holding u" by (auto simp: at_rest_def)
    have "?holds t" by (rule inbox_tx_keeps_event [OF _ _ _ t]) (use run assms(6) in auto)
    with crash_read [OF crash [unfolded u], of inbox_defaultState] run u show ?thesis by auto
  qed
  then obtain v where "read_state inbox_defaultState fs3 = Inr v" "?holds v" by blast
  then show ?thesis by (rule inbox_pending_result) simp
qed

theorem staged_event_stays_pending_witness:
  "\<exists>fs1 fs3. transaction inbox_defaultState (inbox_stage id 5 sample_event 3) empty_fs = (Inr True, fs1)
     \<and> (\<exists>records. fst (transaction inbox_defaultState (inbox_pending id) fs3) = Inr records
    \<and> pending_record (matrixEventInboxKey id sample_event) sample_event 3 \<in> set records
    \<and> sorted (map ir_receivedAt records))"
proof (rule exI, rule exI, rule conjI)
  let ?s = "snd (transaction inbox_defaultState (inbox_stage id 5 sample_event 3) empty_fs)"
  show st: "transaction inbox_defaultState (inbox_stage id 5 sample_event 3) empty_fs = (Inr True, ?s)"
    by (simp add: transaction_on_read [OF read_empty] inbox_stage_def validateState_def
       inbox_defaultState_def Let_def)
  show "\<exists>records. fst (transaction inbox_defaultState (inbox_pending id)
        (inbox_run id 5 [Inbox_stage sample_event2 2] ?s)) = Inr records
    \<and> pending_record (matrixEventInboxKey id sample_event) sample_event 3 \<in> set records
    \<and> sorted (map ir_receivedAt records)"
    by (rule staged_event_stays_pending [OF _ _ _ _ st, of Inbox_pending "[Inbox_stage sample_event2 2]"
          "inbox_run id 5 [Inbox_stage sample_event2 2] ?s"])
      (auto simp: at_rest_def inbox_inv_def validateState_Inr inbox_defaultState_def isSafeInteger_def
       max_safe_integer_def)
qed

end
