(* ===== verification/Matrix_Outbox.thy ===== *)
theory Matrix_Outbox
  imports Log_File "HOL-Library.Product_Lexorder"
begin

text \<open>
  Model of \<open>src/gateway/matrix/fileMatrixMlp3Outbox.ts\<close>: the write-ahead log of what the gateway
  still has to send to Matrix, with supersession of outdated messages, reclassification, compaction,
  and the merge of closed logs at a deployment handoff.

  The log is the list of its lines (\<open>Log_File\<close>). The outcomes of the coming file writes are a list in
  the state, consumed from the front; an exhausted list stands for success. A write succeeds, fails
  before its first byte, fails after all its bytes (\<open>sync\<close> or the directory \<open>sync\<close> throws), or fails
  after some whole lines and a torn one. Operations are serialized by the promise chain, so each is one
  step. SHA-256 is a parameter.

  Fields that \<open>parseEntry\<close> does not check when it reads the log (\<open>transactionId\<close>, \<open>eventType\<close>,
  \<open>stateKey\<close>) are JSON values; unknown extra properties are dropped.
\<close>

section \<open>Deliveries\<close>

datatype delivery_priority = Urgent | Control | Normal | Bulk

record supersession =
  sp_key :: string
  sp_version :: int

record event_delivery =
  ed_deliveryId :: string
  ed_roomId :: string
  ed_transactionId :: json
  ed_content :: json
  ed_createdAt :: int
  ed_priority :: "delivery_priority option"
  ed_supersession :: "supersession option"

record state_delivery =
  sd_deliveryId :: string
  sd_roomId :: string
  sd_eventType :: json
  sd_stateKey :: json
  sd_content :: json
  sd_createdAt :: int

datatype mlp3_delivery = Event_delivery event_delivery | State_delivery state_delivery

fun deliveryId :: "mlp3_delivery \<Rightarrow> string" where
  "deliveryId (Event_delivery d) = ed_deliveryId d"
| "deliveryId (State_delivery d) = sd_deliveryId d"

fun delivery_roomId :: "mlp3_delivery \<Rightarrow> string" where
  "delivery_roomId (Event_delivery d) = ed_roomId d"
| "delivery_roomId (State_delivery d) = sd_roomId d"

fun delivery_createdAt :: "mlp3_delivery \<Rightarrow> int" where
  "delivery_createdAt (Event_delivery d) = ed_createdAt d"
| "delivery_createdAt (State_delivery d) = sd_createdAt d"

fun supersession_of :: "mlp3_delivery \<Rightarrow> supersession option" where
  "supersession_of (Event_delivery d) = ed_supersession d"
| "supersession_of (State_delivery d) = None"

record delivery_metadata =
  md_priority :: "delivery_priority option"
  md_supersession :: "supersession option"

datatype outbox_entry =
    Pending_entry mlp3_delivery
  | Delivered_entry string string int
  | Superseded_entry string int "string option"
  | Classified_entry string delivery_metadata int

definition or_previous :: "'a option \<Rightarrow> 'a option \<Rightarrow> 'a option" where
  "or_previous x y = (case x of None \<Rightarrow> y | Some v \<Rightarrow> Some v)"

definition withMetadata :: "event_delivery \<Rightarrow> delivery_metadata \<Rightarrow> event_delivery" where
  "withMetadata d md = d\<lparr>ed_priority := or_previous (md_priority md) (ed_priority d),
     ed_supersession := or_previous (md_supersession md) (ed_supersession d)\<rparr>"

definition metadataFor :: "event_delivery \<Rightarrow> delivery_metadata" where
  "metadataFor d = \<lparr>md_priority = ed_priority d, md_supersession = ed_supersession d\<rparr>"

definition sameMetadata :: "event_delivery \<Rightarrow> event_delivery \<Rightarrow> bool" where
  "sameMetadata l r \<longleftrightarrow> ed_priority l = ed_priority r
     \<and> map_option sp_key (ed_supersession l) = map_option sp_key (ed_supersession r)
     \<and> map_option sp_version (ed_supersession l) = map_option sp_version (ed_supersession r)"

fun deliveryPriority :: "mlp3_delivery \<Rightarrow> int" where
  "deliveryPriority (State_delivery d) = 0"
| "deliveryPriority (Event_delivery d) =
     (case ed_priority d of Some Urgent \<Rightarrow> 0 | Some Control \<Rightarrow> 1 | Some Bulk \<Rightarrow> 3 | _ \<Rightarrow> 2)"

definition outbox_digest :: "(string \<Rightarrow> string) \<Rightarrow> json \<Rightarrow> string option" where
  "outbox_digest sha256hex v =
     map_option (\<lambda>s. sha256hex (''malink-matrix-outbox:v3'' @ [CHR 0x00] @ s)) (canonicalJson v)"

text \<open>\<open>createEvent\<close> and \<open>createState\<close> compute the identity of a delivery from its input.\<close>

definition createEvent :: "(string \<Rightarrow> string) \<Rightarrow> event_delivery \<Rightarrow> mlp3_delivery option" where
  "createEvent sha input =
     map_option (\<lambda>i. Event_delivery (input\<lparr>ed_deliveryId := i\<rparr>))
       (outbox_digest sha (JArr [JStr ''event'', JStr (ed_roomId input), ed_transactionId input]))"

definition createState :: "(string \<Rightarrow> string) \<Rightarrow> state_delivery \<Rightarrow> mlp3_delivery option" where
  "createState sha input =
     map_option (\<lambda>i. State_delivery (input\<lparr>sd_deliveryId := i\<rparr>))
       (outbox_digest sha (JArr [JStr ''state'', JStr (sd_roomId input), sd_eventType input,
          sd_stateKey input, sd_content input]))"

section \<open>Entries as JSON\<close>

fun priority_text :: "delivery_priority \<Rightarrow> string" where
  "priority_text Urgent = ''urgent''"
| "priority_text Control = ''control''"
| "priority_text Normal = ''normal''"
| "priority_text Bulk = ''bulk''"

definition supersession_json :: "supersession \<Rightarrow> json" where
  "supersession_json s = JObj [(''key'', JStr (sp_key s)), (''version'', JNum (sp_version s))]"

definition optional_json :: "string \<Rightarrow> json option \<Rightarrow> (string \<times> json) list" where
  "optional_json k x = (case x of None \<Rightarrow> [] | Some v \<Rightarrow> [(k, v)])"

definition metadata_members :: "delivery_priority option \<Rightarrow> supersession option \<Rightarrow> (string \<times> json) list" where
  "metadata_members p s = optional_json ''priority'' (map_option (\<lambda>p. JStr (priority_text p)) p)
     @ optional_json ''supersession'' (map_option supersession_json s)"

fun delivery_json :: "mlp3_delivery \<Rightarrow> json" where
  "delivery_json (Event_delivery d) = JObj
     ([(''kind'', JStr ''event''), (''deliveryId'', JStr (ed_deliveryId d)), (''roomId'', JStr (ed_roomId d)),
       (''transactionId'', ed_transactionId d), (''content'', ed_content d), (''createdAt'', JNum (ed_createdAt d))]
      @ metadata_members (ed_priority d) (ed_supersession d))"
| "delivery_json (State_delivery d) = JObj
     [(''kind'', JStr ''state''), (''deliveryId'', JStr (sd_deliveryId d)), (''roomId'', JStr (sd_roomId d)),
      (''eventType'', sd_eventType d), (''stateKey'', sd_stateKey d), (''content'', sd_content d),
      (''createdAt'', JNum (sd_createdAt d))]"

fun outbox_entry_json :: "outbox_entry \<Rightarrow> json" where
  "outbox_entry_json (Pending_entry d) = JObj
     [(''version'', JNum 3), (''status'', JStr ''pending''), (''delivery'', delivery_json d)]"
| "outbox_entry_json (Delivered_entry i eventId deliveredAt) = JObj
     [(''version'', JNum 3), (''status'', JStr ''delivered''), (''deliveryId'', JStr i),
      (''eventId'', JStr eventId), (''deliveredAt'', JNum deliveredAt)]"
| "outbox_entry_json (Superseded_entry i supersededAt reason) = JObj
     ([(''version'', JNum 3), (''status'', JStr ''superseded''), (''deliveryId'', JStr i),
       (''supersededAt'', JNum supersededAt)] @ optional_member ''reason'' reason)"
| "outbox_entry_json (Classified_entry i md classifiedAt) = JObj
     [(''version'', JNum 3), (''status'', JStr ''classified''), (''deliveryId'', JStr i),
      (''metadata'', JObj (metadata_members (md_priority md) (md_supersession md))),
      (''classifiedAt'', JNum classifiedAt)]"

datatype outbox_error =
    Invalid_outbox_entry nat
  | Unsupported_outbox_entry nat
  | Invalid_pending_delivery nat
  | Invalid_delivered_delivery nat
  | Invalid_superseded_delivery nat
  | Invalid_terminal_delivery nat
  | Json_syntax_error
  | Unstaged_delivery
  | Conflicting_delivery string
  | Conflicting_classification string
  | Conflicting_receipt string
  | Not_a_json_value
  | Wal_io_error

fun isDeliveryPriority :: "json \<Rightarrow> delivery_priority option" where
  "isDeliveryPriority (JStr s) =
     (if s = ''urgent'' then Some Urgent else if s = ''control'' then Some Control
      else if s = ''normal'' then Some Normal else if s = ''bulk'' then Some Bulk else None)"
| "isDeliveryPriority _ = None"

definition isSupersession :: "json \<Rightarrow> supersession option" where
  "isSupersession v =
     (case (is_object v, jprop v ''key'', jprop v ''version'') of
        (True, JStr k, JNum n) \<Rightarrow>
          if k \<noteq> [] \<and> isSafeInteger n \<and> 0 \<le> n then Some \<lparr>sp_key = k, sp_version = n\<rparr> else None
      | _ \<Rightarrow> None)"

text \<open>An optional property: absent, or present and accepted; None when it is present and refused.\<close>

definition optional_prop :: "(json \<Rightarrow> 'a option) \<Rightarrow> json \<Rightarrow> 'a option option" where
  "optional_prop f v = (if v = JUndefined then Some None else map_option Some (f v))"

definition isMetadata :: "json \<Rightarrow> delivery_metadata option" where
  "isMetadata v =
     (if \<not> is_object v then None
      else (case (optional_prop isDeliveryPriority (jprop v ''priority''),
                  optional_prop isSupersession (jprop v ''supersession'')) of
              (Some p, Some s) \<Rightarrow> Some \<lparr>md_priority = p, md_supersession = s\<rparr>
            | _ \<Rightarrow> None))"

fun typeof_object :: "json \<Rightarrow> bool" where
  "typeof_object (JObj _) = True"
| "typeof_object (JArr _) = True"
| "typeof_object _ = False" \<comment> \<open>\<open>null\<close> is excluded by the next test\<close>

definition parse_delivery :: "json \<Rightarrow> mlp3_delivery option" where
  "parse_delivery v =
     (case (jprop v ''deliveryId'', jprop v ''roomId'', jprop v ''createdAt'') of
        (JStr i, JStr room, JNum created) \<Rightarrow>
          if \<not> typeof_object (jprop v ''content'') \<or> \<not> isSafeInteger created then None
          else if jprop v ''kind'' = JStr ''state'' then
            Some (State_delivery \<lparr>sd_deliveryId = i, sd_roomId = room, sd_eventType = jprop v ''eventType'',
              sd_stateKey = jprop v ''stateKey'', sd_content = jprop v ''content'', sd_createdAt = created\<rparr>)
          else if jprop v ''kind'' = JStr ''event'' then
            (case (optional_prop isDeliveryPriority (jprop v ''priority''),
                   optional_prop isSupersession (jprop v ''supersession'')) of
               (Some p, Some s) \<Rightarrow>
                 Some (Event_delivery \<lparr>ed_deliveryId = i, ed_roomId = room,
                   ed_transactionId = jprop v ''transactionId'', ed_content = jprop v ''content'',
                   ed_createdAt = created, ed_priority = p, ed_supersession = s\<rparr>)
             | _ \<Rightarrow> None)
          else None
      | _ \<Rightarrow> None)"

definition parseEntry :: "json \<Rightarrow> nat \<Rightarrow> (outbox_error, outbox_entry) result" where
  "parseEntry v line =
     (if \<not> is_object v then Inl (Invalid_outbox_entry line)
      else if jprop v ''version'' \<noteq> JNum 3 then Inl (Unsupported_outbox_entry line)
      else if jprop v ''status'' = JStr ''pending'' then
        (case parse_delivery (jprop v ''delivery'') of
           None \<Rightarrow> Inl (Invalid_pending_delivery line)
         | Some d \<Rightarrow> Inr (Pending_entry d))
      else (case (jprop v ''status'', jprop v ''deliveryId'') of
        (JStr status, JStr i) \<Rightarrow>
          if status = ''classified'' then
            (case (jprop v ''classifiedAt'', isMetadata (jprop v ''metadata'')) of
               (JNum n, Some md) \<Rightarrow>
                 if isSafeInteger n then Inr (Classified_entry i md n) else Inl (Invalid_terminal_delivery line)
             | _ \<Rightarrow> Inl (Invalid_terminal_delivery line))
          else if status = ''delivered'' then
            (case (jprop v ''eventId'', jprop v ''deliveredAt'') of
               (JStr e, JNum n) \<Rightarrow>
                 if isSafeInteger n then Inr (Delivered_entry i e n) else Inl (Invalid_delivered_delivery line)
             | _ \<Rightarrow> Inl (Invalid_delivered_delivery line))
          else if status = ''superseded'' then
            (case (jprop v ''supersededAt'', optional_prop str_of (jprop v ''reason'')) of
               (JNum n, Some reason) \<Rightarrow>
                 if isSafeInteger n then Inr (Superseded_entry i n reason)
                 else Inl (Invalid_superseded_delivery line)
             | _ \<Rightarrow> Inl (Invalid_superseded_delivery line))
          else Inl (Invalid_terminal_delivery line)
      | _ \<Rightarrow> Inl (Invalid_terminal_delivery line)))"

section \<open>The outbox and its file\<close>

datatype wal_io = Wal_ok | Wal_fails_before | Wal_fails_after | Wal_fails_within nat

record outbox =
  ob_pendingEntries :: "(string, mlp3_delivery) jsmap"
  ob_deliveries :: "(string, mlp3_delivery) jsmap"
  ob_terminal :: "(string, string option) jsmap" \<comment> \<open>the event id, when delivered\<close>
  ob_walBytes :: nat
  ob_entriesSinceCompaction :: nat
  ob_file :: "journal_line list option"
  ob_io :: "wal_io list"

record outbox_options =
  oo_compactAfterBytes :: "nat option"
  oo_compactAfterEntries :: "nat option"

definition DEFAULT_COMPACT_AFTER_BYTES :: nat where
  "DEFAULT_COMPACT_AFTER_BYTES = 8 * 1024 * 1024"

definition DEFAULT_COMPACT_AFTER_ENTRIES :: nat where
  "DEFAULT_COMPACT_AFTER_ENTRIES = 10000"

definition or_default :: "nat option \<Rightarrow> nat \<Rightarrow> nat" where
  "or_default x d = (case x of None \<Rightarrow> d | Some n \<Rightarrow> n)"

definition new_outbox :: "journal_line list option \<Rightarrow> wal_io list \<Rightarrow> outbox" where
  "new_outbox file io = \<lparr>ob_pendingEntries = [], ob_deliveries = [], ob_terminal = [], ob_walBytes = 0,
     ob_entriesSinceCompaction = 0, ob_file = file, ob_io = io\<rparr>"

type_synonym 'a outbox_op = "outbox \<Rightarrow> (outbox_error, 'a) result \<times> outbox"

definition obind :: "'a outbox_op \<Rightarrow> ('a \<Rightarrow> 'b outbox_op) \<Rightarrow> 'b outbox_op" where
  "obind m f ob = (case m ob of (Inl e, ob') \<Rightarrow> (Inl e, ob') | (Inr a, ob') \<Rightarrow> f a ob')"

definition entry_line :: "outbox_entry \<Rightarrow> journal_line" where
  "entry_line e = Json_line (reparse (outbox_entry_json e))"

text \<open>Bytes of a line with its line feed; torn bytes count nothing, no later step uses that count.\<close>

definition line_bytes :: "journal_line \<Rightarrow> nat" where
  "line_bytes l = (case l of Blank_line \<Rightarrow> 1 | Torn_line \<Rightarrow> 0
     | Json_line v \<Rightarrow> length (concat (map utf8_char (render v))) + 1)"

definition encoded_bytes :: "outbox_entry list \<Rightarrow> nat" where
  "encoded_bytes entries = sum_list (map (line_bytes \<circ> entry_line) entries)"

definition add_lines :: "journal_line list \<Rightarrow> journal_line list option \<Rightarrow> journal_line list option" where
  "add_lines ls file = fold (\<lambda>l f. Some (add_line l f)) ls file"

definition take_io :: "outbox \<Rightarrow> wal_io \<times> outbox" where
  "take_io ob = (case ob_io ob of [] \<Rightarrow> (Wal_ok, ob) | io # rest \<Rightarrow> (io, ob\<lparr>ob_io := rest\<rparr>))"

definition appendMany :: "outbox_entry list \<Rightarrow> unit outbox_op" where
  "appendMany entries ob =
     (if entries = [] then (Inr (), ob)
      else (let (io, ob) = take_io ob; ls = map entry_line entries in
        case io of
          Wal_ok \<Rightarrow> (Inr (), ob\<lparr>ob_file := add_lines ls (ob_file ob),
            ob_walBytes := ob_walBytes ob + encoded_bytes entries,
            ob_entriesSinceCompaction := ob_entriesSinceCompaction ob + length entries\<rparr>)
        | Wal_fails_before \<Rightarrow> (Inl Wal_io_error, ob)
        | Wal_fails_after \<Rightarrow> (Inl Wal_io_error, ob\<lparr>ob_file := add_lines ls (ob_file ob)\<rparr>)
        | Wal_fails_within k \<Rightarrow> (Inl Wal_io_error,
            ob\<lparr>ob_file := add_lines (take k ls @ [Torn_line]) (ob_file ob)\<rparr>)))"

definition outbox_append :: "outbox_entry \<Rightarrow> unit outbox_op" where
  "outbox_append entry = appendMany [entry]"

section \<open>Compaction\<close>

definition state_address :: "state_delivery \<Rightarrow> string" where
  "state_address d = sd_roomId d @ [CHR 0x00] @ js_string (sd_eventType d) @ [CHR 0x00]
     @ js_string (sd_stateKey d)"

text \<open>The map \<open>latestStates\<close>: per address the first state of the greatest \<open>createdAt\<close>.\<close>

fun add_latest :: "mlp3_delivery \<Rightarrow> (string, state_delivery) jsmap \<Rightarrow> (string, state_delivery) jsmap" where
  "add_latest (Event_delivery d) latest = latest"
| "add_latest (State_delivery d) latest =
     (case js_get latest (state_address d) of
        None \<Rightarrow> js_set (state_address d) d latest
      | Some current \<Rightarrow>
          if sd_createdAt current < sd_createdAt d then js_set (state_address d) d latest else latest)"

definition latestStates :: "(string, mlp3_delivery) jsmap \<Rightarrow> (string, state_delivery) jsmap" where
  "latestStates deliveries = fold add_latest (js_values deliveries) []"

definition set_add :: "'a \<Rightarrow> 'a list \<Rightarrow> 'a list" where
  "set_add x xs = (if x \<in> set xs then xs else xs @ [x])"

definition retainedDeliveryIds :: "outbox \<Rightarrow> string list" where
  "retainedDeliveryIds ob =
     fold (\<lambda>d. set_add (sd_deliveryId d)) (js_values (latestStates (ob_deliveries ob)))
       (js_keys (ob_pendingEntries ob))"

definition terminal_entry :: "int \<Rightarrow> string \<times> string option \<Rightarrow> outbox_entry" where
  "terminal_entry compactedAt p =
     (case p of
        (i, Some (c # e)) \<Rightarrow> Delivered_entry i (c # e) compactedAt
      | (i, _) \<Rightarrow> Superseded_entry i compactedAt (Some ''compacted_terminal''))"

definition compact_entries :: "int \<Rightarrow> outbox \<Rightarrow> outbox_entry list" where
  "compact_entries compactedAt ob =
     map Pending_entry (List.map_filter (js_get (ob_deliveries ob)) (retainedDeliveryIds ob))
     @ map (terminal_entry compactedAt) (ob_terminal ob)"

definition outbox_compact :: "int \<Rightarrow> unit outbox_op" where
  "outbox_compact now ob =
     (let entries = compact_entries now ob; retained = retainedDeliveryIds ob;
          ls = map entry_line entries; (io, ob) = take_io ob in
      case io of
        Wal_ok \<Rightarrow> (Inr (), ob\<lparr>ob_file := Some ls,
          ob_deliveries := filter (\<lambda>(i, _). i \<in> set retained) (ob_deliveries ob),
          ob_walBytes := encoded_bytes entries, ob_entriesSinceCompaction := 0\<rparr>)
      | Wal_fails_after \<Rightarrow> (Inl Wal_io_error, ob\<lparr>ob_file := Some ls\<rparr>)
      | _ \<Rightarrow> (Inl Wal_io_error, ob))"

definition compactIfNeeded :: "outbox_options \<Rightarrow> int \<Rightarrow> unit outbox_op" where
  "compactIfNeeded opts now ob =
     (if ob_walBytes ob < or_default (oo_compactAfterBytes opts) DEFAULT_COMPACT_AFTER_BYTES
       \<and> ob_entriesSinceCompaction ob < or_default (oo_compactAfterEntries opts) DEFAULT_COMPACT_AFTER_ENTRIES
      then (Inr (), ob) else outbox_compact now ob)"

section \<open>Loading\<close>

fun replay_outbox_entry :: "outbox_entry \<Rightarrow> outbox \<Rightarrow> outbox" where
  "replay_outbox_entry (Pending_entry d) ob =
     (let ob = ob\<lparr>ob_deliveries := js_set (deliveryId d) d (ob_deliveries ob)\<rparr> in
      if js_has (ob_terminal ob) (deliveryId d) then ob
      else ob\<lparr>ob_pendingEntries := js_set (deliveryId d) d (ob_pendingEntries ob)\<rparr>)"
| "replay_outbox_entry (Classified_entry i md at) ob =
     (case js_get (ob_deliveries ob) i of
        Some (Event_delivery d) \<Rightarrow>
          (let c = Event_delivery (withMetadata d md);
               ob = ob\<lparr>ob_deliveries := js_set i c (ob_deliveries ob)\<rparr> in
           if js_has (ob_pendingEntries ob) i
           then ob\<lparr>ob_pendingEntries := js_set i c (ob_pendingEntries ob)\<rparr> else ob)
      | _ \<Rightarrow> ob)"
| "replay_outbox_entry (Delivered_entry i eventId at) ob =
     ob\<lparr>ob_pendingEntries := js_delete i (ob_pendingEntries ob),
        ob_terminal := js_set i (Some eventId) (ob_terminal ob)\<rparr>"
| "replay_outbox_entry (Superseded_entry i at reason) ob =
     ob\<lparr>ob_pendingEntries := js_delete i (ob_pendingEntries ob),
        ob_terminal := js_set i None (ob_terminal ob)\<rparr>"

fun load_lines :: "nat \<Rightarrow> journal_line list \<Rightarrow> nat \<Rightarrow> nat outbox_op" where
  "load_lines index [] loadedEntries ob = (Inr loadedEntries, ob)"
| "load_lines index (Blank_line # ls) loadedEntries ob = load_lines (index + 1) ls loadedEntries ob"
| "load_lines index (Torn_line # ls) loadedEntries ob = (Inl Json_syntax_error, ob)"
| "load_lines index (Json_line v # ls) loadedEntries ob =
     (case parseEntry v (index + 1) of
        Inl e \<Rightarrow> (Inl e, ob)
      | Inr entry \<Rightarrow> load_lines (index + 1) ls (loadedEntries + 1) (replay_outbox_entry entry ob))"

definition outbox_initialize :: "outbox_options \<Rightarrow> int \<Rightarrow> unit outbox_op" where
  "outbox_initialize opts now ob =
     (case ob_file ob of
        None \<Rightarrow> (Inr (), ob)
      | Some ls \<Rightarrow>
          obind (load_lines 0 ls 0) (\<lambda>loadedEntries ob.
            if or_default (oo_compactAfterBytes opts) DEFAULT_COMPACT_AFTER_BYTES \<le> ob_walBytes ob
             \<or> or_default (oo_compactAfterEntries opts) DEFAULT_COMPACT_AFTER_ENTRIES \<le> loadedEntries
            then outbox_compact now ob else (Inr (), ob))
          (ob\<lparr>ob_walBytes := sum_list (map line_bytes ls)\<rparr>))"

section \<open>Operations\<close>

definition settle_terminal :: "string \<Rightarrow> string option \<Rightarrow> outbox \<Rightarrow> outbox" where
  "settle_terminal i eventId ob =
     ob\<lparr>ob_pendingEntries := js_delete i (ob_pendingEntries ob),
        ob_terminal := js_set i eventId (ob_terminal ob)\<rparr>"

definition supersede :: "string \<Rightarrow> int \<Rightarrow> string \<Rightarrow> unit outbox_op" where
  "supersede i supersededAt reason =
     obind (outbox_append (Superseded_entry i supersededAt (Some (take 512 reason))))
       (\<lambda>_ ob. (Inr (), settle_terminal i None ob))"

fun supersede_all :: "string list \<Rightarrow> int \<Rightarrow> string \<Rightarrow> unit outbox_op" where
  "supersede_all [] at reason ob = (Inr (), ob)"
| "supersede_all (i # is) at reason ob =
     obind (supersede i at reason) (\<lambda>_. supersede_all is at reason) ob"

definition same_address :: "state_delivery \<Rightarrow> mlp3_delivery \<Rightarrow> bool" where
  "same_address delivery candidate = (case candidate of
      State_delivery c \<Rightarrow> sd_roomId c = sd_roomId delivery \<and> sd_eventType c = sd_eventType delivery
        \<and> sd_stateKey c = sd_stateKey delivery
    | Event_delivery _ \<Rightarrow> False)"

definition same_logical :: "string \<Rightarrow> string \<Rightarrow> (int \<Rightarrow> bool) \<Rightarrow> mlp3_delivery \<Rightarrow> bool" where
  "same_logical room key cmp candidate = (case candidate of
      State_delivery _ \<Rightarrow> False
    | Event_delivery c \<Rightarrow> ed_roomId c = room \<and> (case ed_supersession c of None \<Rightarrow> False
        | Some s \<Rightarrow> sp_key s = key \<and> cmp (sp_version s)))"

text \<open>The deliveries a new one supersedes, the reason, and whether it is obsolete on arrival.\<close>

definition stage_older :: "mlp3_delivery \<Rightarrow> outbox \<Rightarrow> string list" where
  "stage_older delivery ob =
     (let candidates = js_values (ob_pendingEntries ob) in
      case delivery of
        State_delivery d \<Rightarrow> map deliveryId (filter (same_address d) candidates)
      | Event_delivery d \<Rightarrow> (case ed_supersession d of None \<Rightarrow> []
          | Some s \<Rightarrow> map deliveryId
              (filter (same_logical (ed_roomId d) (sp_key s) (\<lambda>v. v < sp_version s)) candidates)))"

definition stage_reason :: "mlp3_delivery \<Rightarrow> string" where
  "stage_reason delivery = (case supersession_of delivery of
      None \<Rightarrow> ''newer_state'' | Some s \<Rightarrow> ''newer_logical_version:'' @ sp_key s)"

definition obsoleteOnArrival :: "mlp3_delivery \<Rightarrow> outbox \<Rightarrow> string option" where
  "obsoleteOnArrival delivery ob =
     (case supersession_of delivery of None \<Rightarrow> None
      | Some s \<Rightarrow>
          if list_ex (same_logical (delivery_roomId delivery) (sp_key s) (\<lambda>v. v > sp_version s))
               (js_values (ob_pendingEntries ob)) \<and> sp_key s \<noteq> []
          then Some (sp_key s) else None)"

definition record_pending :: "mlp3_delivery \<Rightarrow> outbox \<Rightarrow> outbox" where
  "record_pending d ob =
     ob\<lparr>ob_deliveries := js_set (deliveryId d) d (ob_deliveries ob),
        ob_pendingEntries := js_set (deliveryId d) d (ob_pendingEntries ob)\<rparr>"

definition outbox_stage :: "outbox_options \<Rightarrow> int \<Rightarrow> mlp3_delivery \<Rightarrow> string list outbox_op" where
  "outbox_stage opts now delivery ob =
     (if js_has (ob_pendingEntries ob) (deliveryId delivery) \<or> js_has (ob_terminal ob) (deliveryId delivery)
      then (Inr [], ob)
      else
        let older = stage_older delivery ob; obsolete = obsoleteOnArrival delivery ob;
            createdAt = delivery_createdAt delivery in
        obind (supersede_all older createdAt (stage_reason delivery)) (\<lambda>_.
        obind (outbox_append (Pending_entry delivery)) (\<lambda>_ ob.
        obind (case obsolete of None \<Rightarrow> (\<lambda>ob. (Inr older, ob))
               | Some key \<Rightarrow> obind (supersede (deliveryId delivery) createdAt (''obsolete_logical_version:'' @ key))
                   (\<lambda>_ ob. (Inr (older @ [deliveryId delivery]), ob))) (\<lambda>superseded.
        obind (compactIfNeeded opts now) (\<lambda>_ ob. (Inr superseded, ob))) (record_pending delivery ob))) ob)"

text \<open>\<open>classifyMany\<close>: the loop over the classifications, which updates the maps at once.\<close>

fun classify_loop :: "(string \<times> delivery_metadata) list \<Rightarrow> int \<Rightarrow> outbox_entry list \<Rightarrow> outbox \<Rightarrow>
    outbox_entry list \<times> outbox" where
  "classify_loop [] now entries ob = (entries, ob)"
| "classify_loop ((i, md) # cs) now entries ob =
     (case js_get (ob_pendingEntries ob) i of
        Some (Event_delivery d) \<Rightarrow>
          (let c = withMetadata d md in
           if sameMetadata d c then classify_loop cs now entries ob
           else classify_loop cs now
             (entries @ [Classified_entry (ed_deliveryId d) (metadataFor c) now])
             (ob\<lparr>ob_deliveries := js_set (ed_deliveryId d) (Event_delivery c) (ob_deliveries ob),
                 ob_pendingEntries := js_set (ed_deliveryId d) (Event_delivery c) (ob_pendingEntries ob)\<rparr>))
      | _ \<Rightarrow> classify_loop cs now entries ob)"

definition add_newest :: "mlp3_delivery \<Rightarrow> (string, int) jsmap \<Rightarrow> (string, int) jsmap" where
  "add_newest d newest = (case supersession_of d of None \<Rightarrow> newest
     | Some s \<Rightarrow> js_set (sp_key s)
         (max (case js_get newest (sp_key s) of None \<Rightarrow> - 1 | Some v \<Rightarrow> v) (sp_version s)) newest)"

definition newestVersions :: "(string, mlp3_delivery) jsmap \<Rightarrow> (string, int) jsmap" where
  "newestVersions pending = fold add_newest (js_values pending) []"

definition outdated :: "(string, int) jsmap \<Rightarrow> mlp3_delivery \<Rightarrow> bool" where
  "outdated newest d = (case supersession_of d of None \<Rightarrow> False
     | Some s \<Rightarrow> (case js_get newest (sp_key s) of None \<Rightarrow> False | Some n \<Rightarrow> sp_version s < n))"

definition outdated_entry :: "int \<Rightarrow> mlp3_delivery \<Rightarrow> outbox_entry" where
  "outdated_entry now d = Superseded_entry (deliveryId d) now
     (Some (take 512 (''newer_logical_version:'' @ (case supersession_of d of None \<Rightarrow> [] | Some s \<Rightarrow> sp_key s))))"

definition classifyMany :: "outbox_options \<Rightarrow> (string \<times> delivery_metadata) list \<Rightarrow> int \<Rightarrow> string list outbox_op" where
  "classifyMany opts classifications now ob =
     (let (entries, ob) = classify_loop classifications now [] ob;
          old = filter (outdated (newestVersions (ob_pendingEntries ob))) (js_values (ob_pendingEntries ob));
          superseded = map deliveryId old in
      obind (appendMany (entries @ map (outdated_entry now) old)) (\<lambda>_ ob.
        obind (compactIfNeeded opts now) (\<lambda>_ ob. (Inr superseded, ob))
          (fold (\<lambda>i. settle_terminal i None) superseded ob)) ob)"

definition outbox_markDelivered :: "outbox_options \<Rightarrow> string \<Rightarrow> string \<Rightarrow> int \<Rightarrow> unit outbox_op" where
  "outbox_markDelivered opts i eventId now ob =
     (if js_has (ob_terminal ob) i then (Inr (), ob)
      else if \<not> js_has (ob_pendingEntries ob) i then (Inl Unstaged_delivery, ob)
      else obind (outbox_append (Delivered_entry i eventId now)) (\<lambda>_ ob.
        compactIfNeeded opts now (settle_terminal i (Some eventId) ob)) ob)"

definition outbox_markSuperseded :: "outbox_options \<Rightarrow> string \<Rightarrow> string \<Rightarrow> int \<Rightarrow> unit outbox_op" where
  "outbox_markSuperseded opts i reason now ob =
     (if js_has (ob_terminal ob) i then (Inr (), ob)
      else if \<not> js_has (ob_pendingEntries ob) i then (Inl Unstaged_delivery, ob)
      else obind (outbox_append (Superseded_entry i now (Some (take 512 reason)))) (\<lambda>_ ob.
        compactIfNeeded opts now (settle_terminal i None ob)) ob)"

section \<open>Queries\<close>

definition deliveredEventId :: "string \<Rightarrow> outbox \<Rightarrow> string option" where
  "deliveredEventId i ob = (case js_get (ob_terminal ob) i of None \<Rightarrow> None | Some e \<Rightarrow> e)"

definition isPending :: "string \<Rightarrow> outbox \<Rightarrow> bool" where
  "isPending i ob = js_has (ob_pendingEntries ob) i"

definition outbox_delivery :: "string \<Rightarrow> outbox \<Rightarrow> mlp3_delivery option" where
  "outbox_delivery i ob = js_get (ob_deliveries ob) i"

definition outbox_pending :: "string option \<Rightarrow> outbox \<Rightarrow> mlp3_delivery list" where
  "outbox_pending roomId ob =
     sort_key (\<lambda>d. (deliveryPriority d, delivery_createdAt d))
       (filter (\<lambda>d. roomId = None \<or> roomId = Some (delivery_roomId d)) (js_values (ob_pendingEntries ob)))"

definition retry_target :: "outbox \<Rightarrow> string \<Rightarrow> bool" where
  "retry_target ob i \<longleftrightarrow> js_has (ob_pendingEntries ob) i
     \<or> (case js_get (ob_terminal ob) i of Some (Some (c # e)) \<Rightarrow> True | _ \<Rightarrow> False)"

fun later_state :: "outbox \<Rightarrow> string \<Rightarrow> json \<Rightarrow> json \<Rightarrow> mlp3_delivery \<Rightarrow> state_delivery option \<Rightarrow>
    state_delivery option" where
  "later_state ob room ty key (Event_delivery d) latest = latest"
| "later_state ob room ty key (State_delivery d) latest =
     (if sd_roomId d \<noteq> room \<or> sd_eventType d \<noteq> ty \<or> sd_stateKey d \<noteq> key then latest
      else if \<not> retry_target ob (sd_deliveryId d) then latest
      else (case latest of None \<Rightarrow> Some d
            | Some l \<Rightarrow> if sd_createdAt l \<le> sd_createdAt d then Some d else latest))"

definition latestState :: "outbox \<Rightarrow> string \<Rightarrow> json \<Rightarrow> json \<Rightarrow> state_delivery option" where
  "latestState ob room ty key = fold (later_state ob room ty key) (js_values (ob_deliveries ob)) None"

record outbox_health =
  oh_pending :: nat
  oh_oldestPendingAgeMs :: "int option"
  oh_retainedDeliveries :: nat
  oh_terminalTombstones :: nat
  oh_walBytes :: nat

definition health :: "int \<Rightarrow> outbox \<Rightarrow> outbox_health" where
  "health now ob =
     (let pending = js_values (ob_pendingEntries ob) in
      \<lparr>oh_pending = length pending,
       oh_oldestPendingAgeMs = (if pending = [] then None
         else Some (max 0 (now - Min (set (map delivery_createdAt pending))))),
       oh_retainedDeliveries = length (ob_deliveries ob),
       oh_terminalTombstones = length (ob_terminal ob),
       oh_walBytes = ob_walBytes ob\<rparr>)"

section \<open>Merging closed logs\<close>

record merge_state =
  mg_deliveries :: "(string, mlp3_delivery) jsmap"
  mg_classifications :: "(string, delivery_metadata \<times> int) jsmap"
  mg_terminals :: "(string, outbox_entry) jsmap"

fun terminalTimestamp :: "outbox_entry \<Rightarrow> int" where
  "terminalTimestamp (Delivered_entry i e at) = at"
| "terminalTimestamp (Superseded_entry i at reason) = at"
| "terminalTimestamp _ = 0"

fun sameTerminal :: "outbox_entry \<Rightarrow> outbox_entry \<Rightarrow> bool" where
  "sameTerminal (Delivered_entry i e at) (Delivered_entry i' e' at') \<longleftrightarrow> e = e'"
| "sameTerminal (Superseded_entry i at reason) (Superseded_entry i' at' reason') \<longleftrightarrow> True"
| "sameTerminal _ _ \<longleftrightarrow> False"

definition metadata_json :: "delivery_metadata \<Rightarrow> json" where
  "metadata_json md = JObj (metadata_members (md_priority md) (md_supersession md))"

text \<open>\<open>canonicalValue(left) !== canonicalValue(right)\<close>, which throws on a value that is not JSON.\<close>

definition differ :: "json \<Rightarrow> json \<Rightarrow> (outbox_error, bool) result" where
  "differ l r = (case (canonicalJson l, canonicalJson r) of
      (Some s, Some t) \<Rightarrow> Inr (s \<noteq> t) | _ \<Rightarrow> Inl Not_a_json_value)"

definition merge_terminal :: "string \<Rightarrow> outbox_entry \<Rightarrow> merge_state \<Rightarrow> (outbox_error, merge_state) result" where
  "merge_terminal i entry s =
     (case js_get (mg_terminals s) i of
        None \<Rightarrow> Inr (s\<lparr>mg_terminals := js_set i entry (mg_terminals s)\<rparr>)
      | Some existing \<Rightarrow>
          if \<not> sameTerminal existing entry then Inl (Conflicting_receipt i)
          else if terminalTimestamp existing \<le> terminalTimestamp entry
          then Inr (s\<lparr>mg_terminals := js_set i entry (mg_terminals s)\<rparr>) else Inr s)"

fun merge_entry :: "outbox_entry \<Rightarrow> merge_state \<Rightarrow> (outbox_error, merge_state) result" where
  "merge_entry (Pending_entry d) s =
     (let s' = s\<lparr>mg_deliveries := js_set (deliveryId d) d (mg_deliveries s)\<rparr> in
      case js_get (mg_deliveries s) (deliveryId d) of
        None \<Rightarrow> Inr s'
      | Some existing \<Rightarrow> rbind (differ (delivery_json existing) (delivery_json d)) (\<lambda>different.
          if different then Inl (Conflicting_delivery (deliveryId d)) else Inr s'))"
| "merge_entry (Classified_entry i md at) s =
     (let s' = s\<lparr>mg_classifications := js_set i (md, at) (mg_classifications s)\<rparr> in
      case js_get (mg_classifications s) i of
        None \<Rightarrow> Inr s'
      | Some (md', at') \<Rightarrow> rbind (differ (metadata_json md') (metadata_json md)) (\<lambda>different.
          if different then Inl (Conflicting_classification i)
          else if at' \<le> at then Inr s' else Inr s))"
| "merge_entry (Delivered_entry i e at) s = merge_terminal i (Delivered_entry i e at) s"
| "merge_entry (Superseded_entry i at reason) s = merge_terminal i (Superseded_entry i at reason) s"

definition merge_line :: "nat \<times> journal_line \<Rightarrow> merge_state \<Rightarrow> (outbox_error, merge_state) result" where
  "merge_line p s = (case p of (index, line) \<Rightarrow> (case line of
      Blank_line \<Rightarrow> Inr s
    | Torn_line \<Rightarrow> Inl Json_syntax_error
    | Json_line v \<Rightarrow> rbind (parseEntry v (index + 1)) (\<lambda>entry. merge_entry entry s)))"

definition merge_source :: "journal_line list option \<Rightarrow> merge_state \<Rightarrow> (outbox_error, merge_state) result" where
  "merge_source file s = (case file of None \<Rightarrow> Inr s | Some ls \<Rightarrow> rfold merge_line (enumerate 0 ls) s)"

definition merged_entries :: "merge_state \<Rightarrow> outbox_entry list" where
  "merged_entries s =
     concat (map (\<lambda>i.
       (case js_get (mg_deliveries s) i of None \<Rightarrow> []
        | Some d \<Rightarrow> Pending_entry d # (case js_get (mg_classifications s) i of None \<Rightarrow> []
            | Some (md, at) \<Rightarrow> [Classified_entry i md at]))
       @ (case js_get (mg_terminals s) i of None \<Rightarrow> [] | Some t \<Rightarrow> [t]))
       (sort (remdups (js_keys (mg_deliveries s) @ js_keys (mg_terminals s)))))"

record merge_result =
  mr_deliveryCount :: nat
  mr_pendingCount :: nat
  mr_terminalCount :: nat

text \<open>The result with the lines of the target file, written atomically (temporary file and rename).\<close>

definition mergeMatrixMlp3OutboxWals ::
  "journal_line list option list \<Rightarrow> (outbox_error, merge_result \<times> journal_line list) result" where
  "mergeMatrixMlp3OutboxWals sources =
     rbind (rfold merge_source sources \<lparr>mg_deliveries = [], mg_classifications = [], mg_terminals = []\<rparr>) (\<lambda>s.
       Inr (\<lparr>mr_deliveryCount = length (mg_deliveries s),
             mr_pendingCount = length (filter (\<lambda>i. \<not> js_has (mg_terminals s) i) (js_keys (mg_deliveries s))),
             mr_terminalCount = length (mg_terminals s)\<rparr>,
            map entry_line (merged_entries s)))"

section \<open>Entries survive the log\<close>

fun supersession_ok :: "supersession option \<Rightarrow> bool" where
  "supersession_ok None \<longleftrightarrow> True"
| "supersession_ok (Some s) \<longleftrightarrow> sp_key s \<noteq> [] \<and> isSafeInteger (sp_version s) \<and> 0 \<le> sp_version s"

fun delivery_ok :: "mlp3_delivery \<Rightarrow> bool" where
  "delivery_ok (Event_delivery d) \<longleftrightarrow> encodable (ed_transactionId d) \<and> encodable (ed_content d)
     \<and> typeof_object (ed_content d) \<and> isSafeInteger (ed_createdAt d) \<and> supersession_ok (ed_supersession d)"
| "delivery_ok (State_delivery d) \<longleftrightarrow> encodable (sd_eventType d) \<and> encodable (sd_stateKey d)
     \<and> encodable (sd_content d) \<and> typeof_object (sd_content d) \<and> isSafeInteger (sd_createdAt d)"

fun outbox_entry_ok :: "outbox_entry \<Rightarrow> bool" where
  "outbox_entry_ok (Pending_entry d) \<longleftrightarrow> delivery_ok d"
| "outbox_entry_ok (Delivered_entry i e at) \<longleftrightarrow> isSafeInteger at"
| "outbox_entry_ok (Superseded_entry i at reason) \<longleftrightarrow> isSafeInteger at"
| "outbox_entry_ok (Classified_entry i md at) \<longleftrightarrow> isSafeInteger at \<and> supersession_ok (md_supersession md)"

lemma isDeliveryPriority_text [simp]: "isDeliveryPriority (JStr (priority_text p)) = Some p"
  by (cases p) simp_all

declare isDeliveryPriority.simps [simp del]

lemma isSupersession_json [simp]: "supersession_ok (Some s) \<Longrightarrow> isSupersession (supersession_json s) = Some s"
  by (simp add: isSupersession_def supersession_json_def jprop_def)

lemma encodable_metadata [simp]: "\<forall>(k, v)\<in>set (metadata_members p s). encodable v"
  by (cases p; cases s) (simp_all add: metadata_members_def optional_json_def supersession_json_def)

lemma encodable_delivery_json: "delivery_ok d \<Longrightarrow> encodable (delivery_json d)"
  using encodable_metadata by (cases d) (auto simp: ball_Un)

lemma encodable_entry_json: "outbox_entry_ok e \<Longrightarrow> encodable (outbox_entry_json e)"
proof (cases e)
  case (Superseded_entry i at reason)
  then show ?thesis by (cases reason) (simp_all add: optional_member_def)
qed (use encodable_metadata encodable_delivery_json in \<open>auto simp: ball_Un\<close>)

lemmas parse_simps = jprop_def optional_json_def metadata_members_def optional_prop_def

lemma parse_delivery_json: "delivery_ok d \<Longrightarrow> parse_delivery (delivery_json d) = Some d"
proof (cases d)
  case (Event_delivery x)
  assume ok: "delivery_ok d"
  show ?thesis
  proof (cases "ed_supersession x")
    case None
    with ok Event_delivery show ?thesis
      by (cases "ed_priority x") (simp_all add: parse_delivery_def parse_simps)
  next
    case (Some s)
    with ok Event_delivery have "supersession_ok (Some s)" by simp
    from isSupersession_json [OF this] ok Event_delivery Some show ?thesis
      by (cases "ed_priority x") (simp_all add: parse_delivery_def parse_simps supersession_json_def)
  qed
qed (simp add: parse_delivery_def jprop_def)

lemma isMetadata_json:
  assumes "supersession_ok (md_supersession md)"
  shows "isMetadata (JObj (metadata_members (md_priority md) (md_supersession md))) = Some md"
proof (cases "md_supersession md")
  case None
  then show ?thesis by (cases "md_priority md") (simp_all add: isMetadata_def parse_simps)
next
  case (Some s)
  with isSupersession_json [of s] assms show ?thesis
    by (cases "md_priority md") (simp_all add: isMetadata_def parse_simps supersession_json_def)
qed

lemma parseEntry_json:
  assumes "outbox_entry_ok e"
  shows "parseEntry (reparse (outbox_entry_json e)) n = Inr e"
  unfolding reparse_encodable [OF encodable_entry_json [OF assms]]
proof (cases e)
  case (Pending_entry d)
  with assms show "parseEntry (outbox_entry_json e) n = Inr e"
    by (simp add: parseEntry_def jprop_def parse_delivery_json)
next
  case (Classified_entry i md at)
  with assms show "parseEntry (outbox_entry_json e) n = Inr e"
    by (simp add: parseEntry_def jprop_def isMetadata_json)
next
  case (Superseded_entry i at reason)
  with assms show "parseEntry (outbox_entry_json e) n = Inr e"
    by (cases reason) (simp_all add: parseEntry_def jprop_def optional_member_def optional_prop_def)
qed (use assms in \<open>simp add: parseEntry_def jprop_def\<close>)

lemma load_lines_append:
  "load_lines k (ls @ ls') n ob = (case load_lines k ls n ob of
     (Inr m, ob') \<Rightarrow> load_lines (k + length ls) ls' m ob' | (Inl e, ob') \<Rightarrow> (Inl e, ob'))"
  by (induction k ls n ob rule: load_lines.induct) (auto split: sum.splits prod.splits)

lemma load_entry_lines:
  "\<forall>e\<in>set es. outbox_entry_ok e \<Longrightarrow>
   load_lines k (map entry_line es) n ob = (Inr (n + length es), fold replay_outbox_entry es ob)"
  by (induction es arbitrary: k n ob) (simp_all add: entry_line_def parseEntry_json)

end
