(* ===== verification/Outbox_Recovery.thy ===== *)
theory Outbox_Recovery
  imports Matrix_Outbox
begin

text \<open>
  Restarting the Matrix outbox from its log: the state that loading the log produces is the state of
  the running outbox, after any operations, failed writes, compactions and earlier restarts. From this
  the finality of terminal deliveries and the supersession invariant follow.
\<close>

section \<open>Event-sourced state\<close>

text \<open>
  A state built by replaying entries, and an equivalence that replaying one entry respects: what the
  log has to reproduce. Replaying the same entries on equivalent states gives equivalent states.
\<close>

locale event_sourced =
  fixes replay :: "'e \<Rightarrow> 's \<Rightarrow> 's"
    and same :: "'s \<Rightarrow> 's \<Rightarrow> bool"
  assumes same_refl: "same s s"
    and same_trans: "same s t \<Longrightarrow> same t u \<Longrightarrow> same s u"
    and replay_same: "same s t \<Longrightarrow> same (replay e s) (replay e t)"
begin

lemma fold_same: "same s t \<Longrightarrow> same (fold replay es s) (fold replay es t)"
  by (induction es arbitrary: s t) (auto intro: replay_same)

text \<open>A log that reproduces a state reproduces the state after more entries once it has them too.\<close>

lemma log_extends:
  assumes "same (fold replay log s0) s" and "same (fold replay es s) t"
  shows "same (fold replay (log @ es) s0) t"
  using same_trans [OF fold_same [OF assms(1), of es] assms(2)] by simp

end

definition mirrors :: "outbox \<Rightarrow> outbox \<Rightarrow> bool" where
  "mirrors ob ob' \<longleftrightarrow> ob_pendingEntries ob = ob_pendingEntries ob' \<and> ob_terminal ob = ob_terminal ob'
     \<and> js_get (ob_deliveries ob) = js_get (ob_deliveries ob')"

interpretation outbox_log: event_sourced replay_outbox_entry mirrors
proof
  fix s t :: outbox and e
  assume st: "mirrors s t"
  show "mirrors (replay_outbox_entry e s) (replay_outbox_entry e t)"
  proof (cases e)
    case (Classified_entry i md at)
    with st show ?thesis
      by (cases "js_get (ob_deliveries t) i")
        (auto simp: mirrors_def Let_def update_conv split: mlp3_delivery.splits)
  qed (use st in \<open>auto simp: mirrors_def Let_def update_conv\<close>)
qed (auto simp: mirrors_def)

section \<open>The invariant of the running outbox\<close>

definition outbox_wf :: "outbox \<Rightarrow> bool" where
  "outbox_wf ob \<longleftrightarrow>
     js_wf (ob_pendingEntries ob) \<and> js_wf (ob_deliveries ob) \<and> js_wf (ob_terminal ob)
   \<and> (\<forall>i d. js_get (ob_pendingEntries ob) i = Some d \<longrightarrow>
        js_get (ob_deliveries ob) i = Some d \<and> js_get (ob_terminal ob) i = None)
   \<and> (\<forall>i d. js_get (ob_deliveries ob) i = Some d \<longrightarrow> deliveryId d = i \<and> delivery_ok d
        \<and> (js_has (ob_pendingEntries ob) i \<or> js_has (ob_terminal ob) i))
   \<and> (\<forall>i. js_get (ob_terminal ob) i \<noteq> Some (Some []))"

abbreviation no_outbox :: outbox where
  "no_outbox \<equiv> new_outbox None []"

definition lines_of :: "journal_line list option \<Rightarrow> journal_line list" where
  "lines_of f = (case f of None \<Rightarrow> [] | Some ls \<Rightarrow> ls)"

text \<open>The file holds entries whose replay mirrors the outbox.\<close>

definition outbox_synced :: "outbox \<Rightarrow> bool" where
  "outbox_synced ob \<longleftrightarrow> (\<exists>es. (\<forall>e\<in>set es. outbox_entry_ok e)
     \<and> lines_of (ob_file ob) = map entry_line es
     \<and> mirrors (fold replay_outbox_entry es no_outbox) ob)"

definition clean_wal :: "wal_io list \<Rightarrow> bool" where
  "clean_wal io \<longleftrightarrow> set io \<subseteq> {Wal_ok, Wal_fails_before}"

definition terminal_grows :: "outbox \<Rightarrow> outbox \<Rightarrow> bool" where
  "terminal_grows ob ob' \<longleftrightarrow> (\<forall>i v. js_get (ob_terminal ob) i = Some v \<longrightarrow> js_get (ob_terminal ob') i = Some v)"

definition outbox_inv :: "outbox \<Rightarrow> bool" where
  "outbox_inv ob \<longleftrightarrow> outbox_wf ob \<and> outbox_synced ob"

lemma terminal_grows_refl [simp]: "terminal_grows ob ob"
  by (simp add: terminal_grows_def)

lemma terminal_grows_trans: "terminal_grows a b \<Longrightarrow> terminal_grows b c \<Longrightarrow> terminal_grows a c"
  by (auto simp: terminal_grows_def)

text \<open>The parts of the state the invariant reads.\<close>

lemma outbox_wf_cong:
  "ob_pendingEntries a = ob_pendingEntries b \<Longrightarrow> ob_deliveries a = ob_deliveries b \<Longrightarrow>
   ob_terminal a = ob_terminal b \<Longrightarrow> outbox_wf a = outbox_wf b"
  by (simp add: outbox_wf_def)

lemma outbox_synced_cong:
  "ob_pendingEntries a = ob_pendingEntries b \<Longrightarrow> ob_deliveries a = ob_deliveries b \<Longrightarrow>
   ob_terminal a = ob_terminal b \<Longrightarrow> ob_file a = ob_file b \<Longrightarrow> outbox_synced a = outbox_synced b"
  by (simp add: outbox_synced_def mirrors_def)

section \<open>Appending\<close>

lemma lines_of_add:
  "lines_of f = map entry_line es \<Longrightarrow>
   lines_of (add_lines (map entry_line es') f) = map entry_line (es @ es')"
proof (induction es' arbitrary: es f)
  case (Cons e es')
  have "lines_of (Some (add_line (entry_line e) f)) = map entry_line (es @ [e])"
    using Cons.prems
    by (cases es rule: rev_cases) (auto simp: lines_of_def add_line_def entry_line_def split: option.splits)
  from Cons.IH [OF this] show ?case by (simp add: add_lines_def)
qed (simp add: add_lines_def)

text \<open>One append: it succeeds and its entries are in the log, or nothing happened.\<close>

lemma appendMany_clean:
  assumes "clean_wal (ob_io ob)" and "appendMany entries ob = (r, ob')"
  shows "clean_wal (ob_io ob')" "ob_pendingEntries ob' = ob_pendingEntries ob"
    "ob_deliveries ob' = ob_deliveries ob" "ob_terminal ob' = ob_terminal ob"
    "r = Inr () \<and> ob_file ob' = (if entries = [] then ob_file ob
        else add_lines (map entry_line entries) (ob_file ob))
     \<or> r = Inl Wal_io_error \<and> ob_file ob' = ob_file ob"
proof -
  consider "entries = []" | "ob_io ob = []" "entries \<noteq> []"
    | io where "ob_io ob = Wal_ok # io" "entries \<noteq> []"
    | io where "ob_io ob = Wal_fails_before # io" "entries \<noteq> []"
    using assms(1) by (cases "ob_io ob") (auto simp: clean_wal_def)
  note cs = this
  show "clean_wal (ob_io ob')" "ob_pendingEntries ob' = ob_pendingEntries ob"
    "ob_deliveries ob' = ob_deliveries ob" "ob_terminal ob' = ob_terminal ob"
    "r = Inr () \<and> ob_file ob' = (if entries = [] then ob_file ob
        else add_lines (map entry_line entries) (ob_file ob))
     \<or> r = Inl Wal_io_error \<and> ob_file ob' = ob_file ob"
    using assms by (cases rule: cs; auto simp: appendMany_def take_io_def clean_wal_def)+
qed

lemma appendMany_failed_inv:
  assumes "outbox_inv ob" and "clean_wal (ob_io ob)" and "appendMany entries ob = (Inl e, ob')"
  shows "outbox_inv ob'"
  using appendMany_clean [OF assms(2,3)] assms(1) outbox_wf_cong [of ob ob'] outbox_synced_cong [of ob ob']
  by (auto simp: outbox_inv_def)

text \<open>A write followed by the same change in memory keeps the log in step.\<close>

lemma appendMany_synced:
  assumes "outbox_synced ob0" and "clean_wal (ob_io ob)" and "appendMany entries ob = (Inr (), ob')"
    and "\<forall>e\<in>set entries. outbox_entry_ok e" and "ob_file ob = ob_file ob0"
    and "mirrors (fold replay_outbox_entry entries ob0) t" and "ob_file t = ob_file ob'"
  shows "outbox_synced t"
proof -
  from assms(1) obtain es where es: "\<forall>e\<in>set es. outbox_entry_ok e"
    "lines_of (ob_file ob0) = map entry_line es" "mirrors (fold replay_outbox_entry es no_outbox) ob0"
    by (auto simp: outbox_synced_def)
  have "lines_of (ob_file t) = map entry_line (es @ entries)"
    using appendMany_clean(5) [OF assms(2,3)] assms(5,7) lines_of_add [OF es(2), of entries] es(2)
    by (auto split: if_splits)
  moreover have "mirrors (fold replay_outbox_entry (es @ entries) no_outbox) t"
    by (rule outbox_log.log_extends [OF es(3) assms(6)])
  ultimately show ?thesis using es(1) assms(4)
    unfolding outbox_synced_def by (intro exI [of _ "es @ entries"]) auto
qed

lemma replay_keeps_file [simp]:
  "ob_file (replay_outbox_entry e ob) = ob_file ob" "ob_io (replay_outbox_entry e ob) = ob_io ob"
  by (cases e; auto simp: Let_def split: option.splits mlp3_delivery.splits)+

lemma fold_replay_keeps_file [simp]:
  "ob_file (fold replay_outbox_entry es ob) = ob_file ob" "ob_io (fold replay_outbox_entry es ob) = ob_io ob"
  by (induction es arbitrary: ob) auto

lemma append_then_replay:
  assumes "outbox_inv ob" and "clean_wal (ob_io ob)" and "appendMany entries ob = (Inr (), ob')"
    and "\<forall>e\<in>set entries. outbox_entry_ok e" and "outbox_wf (fold replay_outbox_entry entries ob')"
  shows "outbox_inv (fold replay_outbox_entry entries ob')"
proof -
  have "mirrors (fold replay_outbox_entry entries ob) (fold replay_outbox_entry entries ob')"
    by (rule outbox_log.fold_same) (use appendMany_clean [OF assms(2,3)] in \<open>simp add: mirrors_def\<close>)
  from appendMany_synced [OF _ assms(2-4) refl this] assms(1)
  have "outbox_synced (fold replay_outbox_entry entries ob')" by (simp add: outbox_inv_def)
  with assms(5) show ?thesis by (simp add: outbox_inv_def)
qed

section \<open>Changes of the maps\<close>

lemma replay_terminal:
  "replay_outbox_entry (Superseded_entry i at reason) ob = settle_terminal i None ob"
  "replay_outbox_entry (Delivered_entry i e at) ob = settle_terminal i (Some e) ob"
  by (simp_all add: settle_terminal_def)

lemma replay_pending:
  "\<not> js_has (ob_terminal ob) (deliveryId d) \<Longrightarrow> replay_outbox_entry (Pending_entry d) ob = record_pending d ob"
  by (simp add: record_pending_def)

lemma settle_wf:
  assumes "outbox_wf ob" and "e \<noteq> Some []"
  shows "outbox_wf (settle_terminal i e ob)"
  using assms unfolding outbox_wf_def settle_terminal_def
  by (auto simp: js_has_get jsmap_simps)

lemma record_wf:
  assumes "outbox_wf ob" and "delivery_ok d" and "\<not> js_has (ob_terminal ob) (deliveryId d)"
  shows "outbox_wf (record_pending d ob)"
  using assms unfolding outbox_wf_def record_pending_def
  by (auto simp: jsmap_simps split: if_splits)

lemma settle_grows:
  "\<not> js_has (ob_terminal ob) i \<Longrightarrow> terminal_grows ob (settle_terminal i e ob)"
  by (auto simp: terminal_grows_def settle_terminal_def jsmap_simps)

text \<open>
  What every part of an operation keeps: the invariant, writes that fail cleanly, and the deliveries
  that are already terminal.
\<close>

definition sound :: "outbox \<Rightarrow> outbox \<Rightarrow> bool" where
  "sound ob ob' \<longleftrightarrow> outbox_inv ob' \<and> clean_wal (ob_io ob') \<and> terminal_grows ob ob'"

lemma sound_trans: "sound a b \<Longrightarrow> sound b c \<Longrightarrow> sound a c"
  by (auto simp: sound_def intro: terminal_grows_trans)

lemma append_settle_sound:
  assumes inv: "outbox_inv ob" "clean_wal (ob_io ob)" and e: "e \<noteq> Some []"
    and "replay_outbox_entry entry = settle_terminal i e" and "outbox_entry_ok entry"
    and "\<not> js_has (ob_terminal ob) i" and ap: "outbox_append entry ob = (r, ob')"
  shows "case r of Inl _ \<Rightarrow> sound ob ob' \<and> ob_pendingEntries ob' = ob_pendingEntries ob
      \<and> ob_terminal ob' = ob_terminal ob
    | Inr _ \<Rightarrow> sound ob (settle_terminal i e ob') \<and> ob_pendingEntries ob' = ob_pendingEntries ob
      \<and> ob_terminal ob' = ob_terminal ob"
proof -
  note am = ap [unfolded outbox_append_def]
  note c = appendMany_clean [OF inv(2) am]
  show ?thesis
  proof (cases r)
    case (Inl err)
    with appendMany_failed_inv [OF inv am [unfolded Inl]] c show ?thesis
      by (simp add: sound_def terminal_grows_def)
  next
    case (Inr u)
    have "outbox_wf ob'" using inv(1) outbox_wf_cong [of ob ob'] c by (simp add: outbox_inv_def)
    from settle_wf [OF this e, of i]
    have "outbox_inv (fold replay_outbox_entry [entry] ob')"
      using Inr am assms(4,5) by (intro append_then_replay [OF inv]) auto
    moreover have "terminal_grows ob (settle_terminal i e ob')"
      using settle_grows [of ob' i e] assms(6) c by (simp add: terminal_grows_def)
    ultimately show ?thesis using c Inr assms(4) by (simp add: sound_def settle_terminal_def)
  qed
qed

section \<open>Superseding\<close>

lemma supersede_sound:
  assumes "outbox_inv ob" and "clean_wal (ob_io ob)" and "\<not> js_has (ob_terminal ob) i"
    and "isSafeInteger at" and s: "supersede i at reason ob = (r, ob')"
  shows "sound ob ob'
    \<and> (case r of Inl _ \<Rightarrow> ob_pendingEntries ob' = ob_pendingEntries ob \<and> ob_terminal ob' = ob_terminal ob
       | Inr _ \<Rightarrow> ob_pendingEntries ob' = js_delete i (ob_pendingEntries ob)
           \<and> ob_terminal ob' = js_set i None (ob_terminal ob))"
proof -
  let ?entry = "Superseded_entry i at (Some (take 512 reason))"
  obtain r1 ob1 where ap: "outbox_append ?entry ob = (r1, ob1)" by (cases "outbox_append ?entry ob")
  have "replay_outbox_entry ?entry = settle_terminal i None" by (rule ext) (simp add: settle_terminal_def)
  from append_settle_sound [OF assms(1,2) _ this _ assms(3) ap] assms(4) s ap show ?thesis
    by (cases r1) (auto simp: supersede_def obind_def settle_terminal_def)
qed

lemma js_delete_filter_conj: "js_delete i (filter (\<lambda>p. fst p \<notin> S) m) = filter (\<lambda>p. fst p \<notin> insert i S) m"
  by (auto simp: js_delete_filter intro!: filter_cong)

lemma supersede_all_sound:
  assumes "outbox_inv ob" and "clean_wal (ob_io ob)" and "distinct ids"
    and "\<forall>i\<in>set ids. \<not> js_has (ob_terminal ob) i" and "isSafeInteger at"
    and "supersede_all ids at reason ob = (r, ob')"
  shows "sound ob ob' \<and> (\<forall>j. js_has (ob_terminal ob') j \<longrightarrow> js_has (ob_terminal ob) j \<or> j \<in> set ids)
    \<and> (r = Inr () \<longrightarrow> ob_pendingEntries ob' = filter (\<lambda>p. fst p \<notin> set ids) (ob_pendingEntries ob))
    \<and> set (ob_pendingEntries ob') \<subseteq> set (ob_pendingEntries ob)"
  using assms
proof (induction ids arbitrary: ob)
  case Nil
  then show ?case by (simp add: sound_def)
next
  case (Cons i ids)
  obtain r1 ob1 where s: "supersede i at reason ob = (r1, ob1)" by (cases "supersede i at reason ob")
  have one: "sound ob ob1 \<and> (case r1 of
      Inl _ \<Rightarrow> ob_pendingEntries ob1 = ob_pendingEntries ob \<and> ob_terminal ob1 = ob_terminal ob
    | Inr _ \<Rightarrow> ob_pendingEntries ob1 = js_delete i (ob_pendingEntries ob)
        \<and> ob_terminal ob1 = js_set i None (ob_terminal ob))"
    by (rule supersede_sound [OF Cons.prems(1,2) _ Cons.prems(5) s]) (use Cons.prems(4) in simp)
  show ?case
  proof (cases r1)
    case (Inl e)
    with one s Cons.prems(6) show ?thesis by (auto simp: obind_def)
  next
    case (Inr u)
    with one have p: "ob_pendingEntries ob1 = js_delete i (ob_pendingEntries ob)"
      and t: "ob_terminal ob1 = js_set i None (ob_terminal ob)" and so: "sound ob ob1" by auto
    from Inr s Cons.prems(6) have rest: "supersede_all ids at reason ob1 = (r, ob')"
      by (simp add: obind_def)
    have "sound ob1 ob' \<and> (\<forall>j. js_has (ob_terminal ob') j \<longrightarrow> js_has (ob_terminal ob1) j \<or> j \<in> set ids)
      \<and> (r = Inr () \<longrightarrow> ob_pendingEntries ob' = filter (\<lambda>p. fst p \<notin> set ids) (ob_pendingEntries ob1))
      \<and> set (ob_pendingEntries ob') \<subseteq> set (ob_pendingEntries ob1)"
      by (rule Cons.IH [OF _ _ _ _ Cons.prems(5) rest]) (use so t Cons.prems(3,4) in \<open>auto simp: sound_def\<close>)
    with so p t show ?thesis
      by (auto simp: js_delete_filter intro: sound_trans)
  qed
qed

section \<open>Compaction\<close>

lemma replay_pendings:
  assumes "distinct (map deliveryId ds)" and "ob_terminal ob = []"
    and "\<forall>d\<in>set ds. \<not> js_has (ob_deliveries ob) (deliveryId d)"
    and "ob_pendingEntries ob = ob_deliveries ob"
  shows "ob_deliveries (fold replay_outbox_entry (map Pending_entry ds) ob)
      = ob_deliveries ob @ map (\<lambda>d. (deliveryId d, d)) ds
    \<and> ob_pendingEntries (fold replay_outbox_entry (map Pending_entry ds) ob)
      = ob_deliveries ob @ map (\<lambda>d. (deliveryId d, d)) ds
    \<and> ob_terminal (fold replay_outbox_entry (map Pending_entry ds) ob) = []"
  using assms
proof (induction ds arbitrary: ob)
  case (Cons d ds)
  let ?ob = "replay_outbox_entry (Pending_entry d) ob"
  from Cons.prems have ob: "ob_deliveries ?ob = ob_deliveries ob @ [(deliveryId d, d)]"
    "ob_pendingEntries ?ob = ob_deliveries ob @ [(deliveryId d, d)]" "ob_terminal ?ob = []"
    by (auto simp: js_set_fresh js_has_def Let_def)
  have "\<forall>x\<in>set ds. \<not> js_has (ob_deliveries ?ob) (deliveryId x)"
  proof
    fix x
    assume x: "x \<in> set ds"
    from imageI [OF x, of deliveryId] Cons.prems(1) have "deliveryId x \<noteq> deliveryId d" by (metis distinct.simps(2) list.simps(9) set_map)
    with x Cons.prems(3) show "\<not> js_has (ob_deliveries ?ob) (deliveryId x)"
      unfolding ob(1) by (auto simp: js_has_def)
  qed
  with Cons.IH [of ?ob] Cons.prems(1) ob show ?case
    by (simp del: replay_outbox_entry.simps)
qed simp

lemma terminal_entry_replay:
  "e \<noteq> Some [] \<Longrightarrow> replay_outbox_entry (terminal_entry now (i, e)) ob = settle_terminal i e ob"
  by (auto simp: terminal_entry_def settle_terminal_def split: option.splits list.splits)

lemma replay_terminals:
  assumes "js_wf ts" and "\<forall>(i, e)\<in>set ts. e \<noteq> Some [] \<and> \<not> js_has (ob_terminal ob) i"
  shows "ob_deliveries (fold replay_outbox_entry (map (terminal_entry now) ts) ob) = ob_deliveries ob
    \<and> ob_pendingEntries (fold replay_outbox_entry (map (terminal_entry now) ts) ob)
      = filter (\<lambda>p. fst p \<notin> set (js_keys ts)) (ob_pendingEntries ob)
    \<and> ob_terminal (fold replay_outbox_entry (map (terminal_entry now) ts) ob) = ob_terminal ob @ ts"
  using assms
proof (induction ts arbitrary: ob)
  case (Cons t ts)
  obtain i e where t: "t = (i, e)" by (cases t)
  let ?ob = "settle_terminal i e ob"
  from Cons.prems t have fresh: "\<not> js_has (ob_terminal ob) i" and e: "e \<noteq> Some []" by auto
  have "\<forall>(j, e)\<in>set ts. e \<noteq> Some [] \<and> \<not> js_has (ob_terminal ?ob) j"
  proof (clarify, intro conjI)
    fix j e'
    assume j: "(j, e') \<in> set ts"
    then have "j \<noteq> i" using Cons.prems(1) t by (force simp: js_wf_def)
    with j Cons.prems(2) show "\<not> js_has (ob_terminal ?ob) j" by (auto simp: settle_terminal_def)
    show "e' \<noteq> Some []" using j Cons.prems(2) by auto
  qed
  moreover have "js_wf ts" using Cons.prems(1) by (simp add: js_wf_def)
  ultimately show ?case using Cons.IH [of ?ob] t fresh e terminal_entry_replay [OF e]
    by (auto simp: settle_terminal_def js_set_fresh js_delete_filter intro!: filter_cong)
qed simp

lemma latestStates_from:
  assumes "(a, d) \<in> set (fold add_latest ds m)"
  shows "(a, d) \<in> set m \<or> State_delivery d \<in> set ds"
  using assms
proof (induction ds arbitrary: m)
  case (Cons x ds)
  then have "(a, d) \<in> set (add_latest x m) \<or> State_delivery d \<in> set ds" by simp
  then show ?case by (cases x) (auto split: option.splits if_splits dest!: js_set_mem)
qed simp

lemma fold_set_add:
  "distinct xs \<Longrightarrow> \<exists>ys. fold (\<lambda>d. set_add (f d)) ds xs = xs @ ys \<and> set ys \<subseteq> f ` set ds \<and> distinct (xs @ ys)"
proof (induction ds arbitrary: xs)
  case (Cons d ds)
  then have "distinct (set_add (f d) xs)" by (simp add: set_add_def)
  from Cons.IH [OF this] obtain ys where "fold (\<lambda>d. set_add (f d)) ds (set_add (f d) xs) = set_add (f d) xs @ ys"
    "set ys \<subseteq> f ` set ds" "distinct (set_add (f d) xs @ ys)" by blast
  then show ?case
    by (intro exI [of _ "(if f d \<in> set xs then [] else [f d]) @ ys"])
      (simp add: set_add_def [of "f d" xs] subset_insertI2 split: if_splits)
qed simp

text \<open>The retained identities: the pending ones in order, then terminal states.\<close>

lemma retained_split:
  assumes wf: "outbox_wf ob"
  obtains ys where "retainedDeliveryIds ob = js_keys (ob_pendingEntries ob) @ ys"
    and "distinct (retainedDeliveryIds ob)"
    and "\<forall>i\<in>set ys. js_has (ob_terminal ob) i"
    and "\<forall>i\<in>set (retainedDeliveryIds ob). \<exists>d. js_get (ob_deliveries ob) i = Some d \<and> deliveryId d = i"
proof -
  let ?states = "js_values (latestStates (ob_deliveries ob))"
  have "distinct (js_keys (ob_pendingEntries ob))" using wf by (simp add: outbox_wf_def js_wf_def)
  from fold_set_add [OF this, of sd_deliveryId ?states] obtain ys where
    ys: "retainedDeliveryIds ob = js_keys (ob_pendingEntries ob) @ ys" "set ys \<subseteq> sd_deliveryId ` set ?states"
    "distinct (retainedDeliveryIds ob)" by (auto simp: retainedDeliveryIds_def)
  have get: "\<exists>d. js_get (ob_deliveries ob) i = Some d \<and> deliveryId d = i" if "i \<in> set ys" for i
  proof -
    from that ys(2) obtain s where s: "s \<in> set ?states" and i: "i = sd_deliveryId s" by blast
    from s obtain a where "(a, s) \<in> set (latestStates (ob_deliveries ob))" by auto
    then have "State_delivery s \<in> set (js_values (ob_deliveries ob))"
      unfolding latestStates_def using latestStates_from by fastforce
    then obtain j where "(j, State_delivery s) \<in> set (ob_deliveries ob)" by auto
    with wf js_mem_get have "js_get (ob_deliveries ob) j = Some (State_delivery s)"
      unfolding outbox_wf_def by metis
    moreover from this wf have "j = i" unfolding outbox_wf_def i by fastforce
    ultimately show ?thesis by (auto simp: i)
  qed
  have tm: "\<forall>i\<in>set ys. js_has (ob_terminal ob) i"
  proof
    fix i
    assume i: "i \<in> set ys"
    then have "\<not> js_has (ob_pendingEntries ob) i" using ys(1,3) by (auto simp: js_has_def)
    with get [OF i] wf show "js_has (ob_terminal ob) i" unfolding outbox_wf_def by blast
  qed
  have "\<exists>d. js_get (ob_deliveries ob) i = Some d \<and> deliveryId d = i" if "js_has (ob_pendingEntries ob) i" for i
    using that wf unfolding outbox_wf_def js_has_get by (metis option.exhaust)
  with get have "\<exists>d. js_get (ob_deliveries ob) i = Some d \<and> deliveryId d = i"
    if "i \<in> set (retainedDeliveryIds ob)" for i
    using that unfolding ys(1) js_has_def set_append by blast
  with ys(1,3) tm show ?thesis by (intro that [of ys]) auto
qed

lemma map_filter_all: "(\<And>x. x \<in> set xs \<Longrightarrow> f x \<noteq> None) \<Longrightarrow> List.map_filter f xs = map (the \<circ> f) xs"
  by (induction xs) (force simp: List.map_filter_simps split: option.splits)+

lemma assoc_of_keys: "js_wf m \<Longrightarrow> map (\<lambda>i. (i, the (js_get m i))) (js_keys m) = m"
proof -
  assume wf: "js_wf m"
  have "map ((\<lambda>i. (i, the (js_get m i))) \<circ> fst) m = m"
    by (rule map_idI) (use wf js_mem_get in \<open>fastforce simp: o_def\<close>)
  then show ?thesis by simp
qed

text \<open>Loading a compacted log yields the compacted outbox.\<close>

lemma compact_entries_replay:
  assumes wf: "outbox_wf ob"
  shows "mirrors (fold replay_outbox_entry (compact_entries now ob) no_outbox)
    (ob\<lparr>ob_deliveries := filter (\<lambda>(i, _). i \<in> set (retainedDeliveryIds ob)) (ob_deliveries ob)\<rparr>)"
proof -
  let ?R = "retainedDeliveryIds ob"
  let ?get = "\<lambda>i. the (js_get (ob_deliveries ob) i)"
  obtain ys where R: "?R = js_keys (ob_pendingEntries ob) @ ys" "distinct ?R"
    and ys: "\<forall>i\<in>set ys. js_has (ob_terminal ob) i"
    and get: "\<forall>i\<in>set ?R. \<exists>d. js_get (ob_deliveries ob) i = Some d \<and> deliveryId d = i"
    by (rule retained_split [OF wf])
  define ds where "ds = List.map_filter (js_get (ob_deliveries ob)) ?R"
  have ds: "ds = map ?get ?R"
    unfolding ds_def by (subst map_filter_all) (use get in \<open>auto simp: o_def\<close>)
  have ids: "map deliveryId ds = ?R" unfolding ds using get by (auto intro!: map_idI)
  have pairs: "map (\<lambda>d. (deliveryId d, d)) ds = map (\<lambda>i. (i, ?get i)) ?R"
    unfolding ds using get by auto
  let ?ob1 = "fold replay_outbox_entry (map Pending_entry ds) no_outbox"
  have one: "ob_deliveries ?ob1 = map (\<lambda>i. (i, ?get i)) ?R"
    "ob_pendingEntries ?ob1 = map (\<lambda>i. (i, ?get i)) ?R" "ob_terminal ?ob1 = []"
    using replay_pendings [of ds no_outbox] R(2) ids pairs
    by (simp_all add: new_outbox_def js_has_def)
  have two: "ob_deliveries (fold replay_outbox_entry (map (terminal_entry now) (ob_terminal ob)) ?ob1) = ob_deliveries ?ob1
    \<and> ob_pendingEntries (fold replay_outbox_entry (map (terminal_entry now) (ob_terminal ob)) ?ob1)
      = filter (\<lambda>p. fst p \<notin> set (js_keys (ob_terminal ob))) (ob_pendingEntries ?ob1)
    \<and> ob_terminal (fold replay_outbox_entry (map (terminal_entry now) (ob_terminal ob)) ?ob1)
      = ob_terminal ?ob1 @ ob_terminal ob"
  proof (rule replay_terminals)
    show "js_wf (ob_terminal ob)" using wf by (simp add: outbox_wf_def)
    show "\<forall>(i, e)\<in>set (ob_terminal ob). e \<noteq> Some [] \<and> \<not> js_has (ob_terminal ?ob1) i"
      using wf one(3) js_mem_get unfolding outbox_wf_def by (fastforce simp: js_has_def)
  qed
  have "map (\<lambda>i. (i, ?get i)) (js_keys (ob_pendingEntries ob))
      = map (\<lambda>i. (i, the (js_get (ob_pendingEntries ob) i))) (js_keys (ob_pendingEntries ob))"
    using wf js_mem_get unfolding outbox_wf_def by fastforce
  also have "\<dots> = ob_pendingEntries ob" by (rule assoc_of_keys) (use wf in \<open>simp add: outbox_wf_def\<close>)
  finally have pend: "map (\<lambda>i. (i, ?get i)) (js_keys (ob_pendingEntries ob)) = ob_pendingEntries ob" .
  have "filter (\<lambda>p. fst p \<notin> set (js_keys (ob_terminal ob))) (ob_pendingEntries ob) = ob_pendingEntries ob"
  proof (rule filter_True, rule)
    fix p
    assume p: "p \<in> set (ob_pendingEntries ob)"
    have "js_get (ob_pendingEntries ob) (fst p) = Some (snd p)"
      by (rule js_mem_get) (use wf p in \<open>simp_all add: outbox_wf_def\<close>)
    with wf have "js_get (ob_terminal ob) (fst p) = None" by (simp add: outbox_wf_def)
    then show "fst p \<notin> set (js_keys (ob_terminal ob))" by (simp add: map_of_eq_None_iff)
  qed
  moreover have "filter (\<lambda>p. fst p \<notin> set (js_keys (ob_terminal ob))) (map (\<lambda>i. (i, ?get i)) ys) = []"
    using ys by (auto simp: filter_empty_conv js_has_def)
  ultimately have "filter (\<lambda>p. fst p \<notin> set (js_keys (ob_terminal ob))) (map (\<lambda>i. (i, ?get i)) ?R) = ob_pendingEntries ob"
    unfolding R(1) map_append filter_append pend by simp
  moreover have "js_get (map (\<lambda>i. (i, ?get i)) ?R)
      = js_get (filter (\<lambda>(i, _). i \<in> set ?R) (ob_deliveries ob))"
  proof
    fix i
    have "js_get (filter (\<lambda>(i, _). i \<in> set ?R) (ob_deliveries ob)) i
        = (case js_get (ob_deliveries ob) i of None \<Rightarrow> None | Some v \<Rightarrow> if i \<in> set ?R then Some v else None)"
      using wf by (subst js_get_filter) (auto simp: outbox_wf_def)
    with get show "js_get (map (\<lambda>i. (i, ?get i)) ?R) i = js_get (filter (\<lambda>(i, _). i \<in> set ?R) (ob_deliveries ob)) i"
      by (auto simp: map_of_map_restrict restrict_map_def split: option.splits)
  qed
  ultimately show ?thesis using one two
    by (simp add: mirrors_def compact_entries_def ds_def [symmetric])
qed

lemma compact_entries_ok:
  assumes "outbox_wf ob" and "isSafeInteger now"
  shows "\<forall>e\<in>set (compact_entries now ob). outbox_entry_ok e"
proof
  fix e
  assume "e \<in> set (compact_entries now ob)"
  then consider d i where "e = Pending_entry d" "js_get (ob_deliveries ob) i = Some d"
    | p where "e = terminal_entry now p"
    by (auto simp: compact_entries_def List.map_filter_def)
  then show "outbox_entry_ok e"
  proof cases
    case (1 d i)
    with assms(1) show ?thesis by (simp add: outbox_wf_def)
  next
    case (2 p)
    with assms(2) show ?thesis
      by (cases p) (auto simp: terminal_entry_def split: option.splits list.splits)
  qed
qed

lemma trimmed_wf:
  assumes "outbox_wf ob"
  shows "outbox_wf (ob\<lparr>ob_deliveries := filter (\<lambda>(i, _). i \<in> set (retainedDeliveryIds ob)) (ob_deliveries ob)\<rparr>)"
proof -
  obtain ys where "retainedDeliveryIds ob = js_keys (ob_pendingEntries ob) @ ys"
    by (rule retained_split [OF assms])
  then have R: "\<forall>i d. js_get (ob_pendingEntries ob) i = Some d \<longrightarrow> i \<in> set (retainedDeliveryIds ob)"
    by (auto dest: js_get_mem intro: rev_image_eqI)
  have get: "js_get (filter (\<lambda>(i, _). i \<in> set (retainedDeliveryIds ob)) (ob_deliveries ob)) i
        = (case js_get (ob_deliveries ob) i of None \<Rightarrow> None
           | Some v \<Rightarrow> if i \<in> set (retainedDeliveryIds ob) then Some v else None)" for i
    using assms by (subst js_get_filter) (auto simp: outbox_wf_def)
  from assms R show ?thesis
    unfolding outbox_wf_def by (simp add: get js_wf_filter split: option.splits)
qed

lemma compact_sound:
  assumes inv: "outbox_inv ob" and clean: "clean_wal (ob_io ob)" and now: "isSafeInteger now"
    and c: "outbox_compact now ob = (r, ob')"
  shows "sound ob ob' \<and> ob_pendingEntries ob' = ob_pendingEntries ob \<and> ob_terminal ob' = ob_terminal ob"
proof -
  let ?t = "ob\<lparr>ob_deliveries := filter (\<lambda>(i, _). i \<in> set (retainedDeliveryIds ob)) (ob_deliveries ob)\<rparr>"
  from inv have wf: "outbox_wf ob" by (simp add: outbox_inv_def)
  obtain io ob1 where io: "take_io ob = (io, ob1)" by (cases "take_io ob")
  then have ob1: "ob_pendingEntries ob1 = ob_pendingEntries ob" "ob_deliveries ob1 = ob_deliveries ob"
    "ob_terminal ob1 = ob_terminal ob" "ob_file ob1 = ob_file ob" "clean_wal (ob_io ob1)"
    "io = Wal_ok \<or> io = Wal_fails_before"
    using clean by (auto simp: take_io_def clean_wal_def split: list.splits)
  from ob1(6) show ?thesis
  proof
    assume "io = Wal_ok"
    with c io have ob': "ob' = ob1\<lparr>ob_file := Some (map entry_line (compact_entries now ob)),
        ob_deliveries := ob_deliveries ?t, ob_walBytes := encoded_bytes (compact_entries now ob),
        ob_entriesSinceCompaction := 0\<rparr>"
      by (simp add: outbox_compact_def Let_def ob1)
    have "mirrors (fold replay_outbox_entry (compact_entries now ob) no_outbox) ob'"
      using compact_entries_replay [OF wf, of now] ob' ob1 by (simp add: mirrors_def)
    with compact_entries_ok [OF wf now] have "outbox_synced ob'"
      unfolding outbox_synced_def by (intro exI [of _ "compact_entries now ob"]) (simp add: ob' lines_of_def)
    moreover have "outbox_wf ob'"
      using trimmed_wf [OF wf] outbox_wf_cong [of ob' ?t] ob' ob1 by simp
    ultimately show ?thesis using ob' ob1 by (simp add: sound_def outbox_inv_def terminal_grows_def)
  next
    assume "io = Wal_fails_before"
    with c io have "ob' = ob1" by (simp add: outbox_compact_def Let_def)
    with ob1 inv outbox_wf_cong [of ob ob'] outbox_synced_cong [of ob ob'] show ?thesis
      by (simp add: sound_def outbox_inv_def terminal_grows_def)
  qed
qed

lemma compactIfNeeded_sound:
  assumes "outbox_inv ob" and "clean_wal (ob_io ob)" and "isSafeInteger now"
    and "compactIfNeeded opts now ob = (r, ob')"
  shows "sound ob ob' \<and> ob_pendingEntries ob' = ob_pendingEntries ob \<and> ob_terminal ob' = ob_terminal ob"
  using assms compact_sound [OF assms(1-3)]
  by (auto simp: compactIfNeeded_def sound_def split: if_splits)

section \<open>Operations keep the invariant\<close>

lemma pending_ids:
  assumes "outbox_wf ob"
  shows "distinct (map deliveryId (filter P (js_values (ob_pendingEntries ob))))"
    and "\<forall>i\<in>set (map deliveryId (filter P (js_values (ob_pendingEntries ob)))).
      js_has (ob_pendingEntries ob) i \<and> \<not> js_has (ob_terminal ob) i"
proof -
  have key: "map deliveryId (js_values (ob_pendingEntries ob)) = js_keys (ob_pendingEntries ob)"
    using assms js_mem_get unfolding outbox_wf_def by fastforce
  have "distinct (map deliveryId (js_values (ob_pendingEntries ob)))"
    unfolding key using assms by (simp add: outbox_wf_def js_wf_def)
  then show "distinct (map deliveryId (filter P (js_values (ob_pendingEntries ob))))"
    by (rule distinct_map_filter)
  have "\<not> js_has (ob_terminal ob) i" if "js_has (ob_pendingEntries ob) i" for i
    using that assms unfolding outbox_wf_def js_has_get by (metis not_None_eq)
  moreover have "set (map deliveryId (filter P (js_values (ob_pendingEntries ob)))) \<subseteq> set (js_keys (ob_pendingEntries ob))"
    unfolding key [symmetric] by auto
  ultimately show "\<forall>i\<in>set (map deliveryId (filter P (js_values (ob_pendingEntries ob)))).
      js_has (ob_pendingEntries ob) i \<and> \<not> js_has (ob_terminal ob) i"
    unfolding js_has_def by blast
qed

lemma stage_older_pending:
  assumes "outbox_wf ob"
  shows "distinct (stage_older d ob)
    \<and> (\<forall>i\<in>set (stage_older d ob). js_has (ob_pendingEntries ob) i \<and> \<not> js_has (ob_terminal ob) i)"
proof -
  have "stage_older d ob = []
    \<or> (\<exists>P. stage_older d ob = map deliveryId (filter P (js_values (ob_pendingEntries ob))))"
    by (cases d) (auto simp: stage_older_def Let_def split: option.splits)
  with pending_ids [OF assms] show ?thesis by (elim disjE exE) (simp, presburger)
qed

lemma obind_cases:
  assumes "obind m f ob = (r, ob')"
  obtains e where "m ob = (Inl e, ob')" "r = Inl e"
    | a ob1 where "m ob = (Inr a, ob1)" "f a ob1 = (r, ob')"
  using assms by (cases "m ob"; cases "fst (m ob)") (auto simp: obind_def)

lemma append_pending_sound:
  assumes inv: "outbox_inv ob" "clean_wal (ob_io ob)" and "delivery_ok d"
    and new: "\<not> js_has (ob_pendingEntries ob) (deliveryId d)" "\<not> js_has (ob_terminal ob) (deliveryId d)"
    and ap: "outbox_append (Pending_entry d) ob = (r, ob')"
  shows "case r of Inl _ \<Rightarrow> sound ob ob' \<and> ob_pendingEntries ob' = ob_pendingEntries ob
    | Inr _ \<Rightarrow> sound ob (record_pending d ob')
        \<and> ob_pendingEntries (record_pending d ob') = ob_pendingEntries ob @ [(deliveryId d, d)]
        \<and> ob_terminal (record_pending d ob') = ob_terminal ob"
proof -
  note am = ap [unfolded outbox_append_def]
  note c = appendMany_clean [OF inv(2) am]
  show ?thesis
  proof (cases r)
    case (Inl err)
    with appendMany_failed_inv [OF inv am [unfolded Inl]] c show ?thesis
      by (simp add: sound_def terminal_grows_def)
  next
    case (Inr u)
    have wf: "outbox_wf ob'" using inv(1) outbox_wf_cong [of ob ob'] c by (simp add: outbox_inv_def)
    have nt: "\<not> js_has (ob_terminal ob') (deliveryId d)" using new c by simp
    have "outbox_inv (fold replay_outbox_entry [Pending_entry d] ob')"
      using Inr am assms(3) record_wf [OF wf assms(3) nt] replay_pending [OF nt]
      by (intro append_then_replay [OF inv]) auto
    then have "outbox_inv (record_pending d ob')" using replay_pending [OF nt] by simp
    with c Inr new show ?thesis
      by (simp add: sound_def record_pending_def terminal_grows_def js_set_fresh)
  qed
qed

lemma compact_then_sound:
  assumes op: "obind (compactIfNeeded opts now) (\<lambda>_ ob. (Inr s, ob)) ob = (r, ob')"
    and inv: "outbox_inv ob" "clean_wal (ob_io ob)" and now: "isSafeInteger now"
  shows "sound ob ob' \<and> ob_pendingEntries ob' = ob_pendingEntries ob"
  using op
proof (rule obind_cases)
  fix e
  assume "compactIfNeeded opts now ob = (Inl e, ob')"
  from compactIfNeeded_sound [OF inv now this] show ?thesis by simp
next
  fix a ob1
  assume c: "compactIfNeeded opts now ob = (Inr a, ob1)" and "(Inr s, ob1) = (r, ob')"
  with compactIfNeeded_sound [OF inv now c] show ?thesis by simp
qed

text \<open>The end of \<open>stage\<close>: a delivery that is obsolete on arrival is superseded at once.\<close>

lemma stage_tail:
  assumes inv: "outbox_inv ob" "clean_wal (ob_io ob)" and nt: "\<not> js_has (ob_terminal ob) i"
    and "isSafeInteger at" "isSafeInteger now" and p: "ob_pendingEntries ob = m @ [(i, d)]"
    and fresh: "\<not> js_has m i"
    and t: "obind (case obsolete of None \<Rightarrow> (\<lambda>ob. (Inr older, ob))
               | Some key \<Rightarrow> obind (supersede i at (c @ key)) (\<lambda>_ ob. (Inr older', ob))) (\<lambda>superseded.
        obind (compactIfNeeded opts now) (\<lambda>_ ob. (Inr superseded, ob))) ob = (r, ob')"
  shows "sound ob ob' \<and> (ok r \<longrightarrow>
     ob_pendingEntries ob' = m @ (if obsolete = None then [(i, d)] else []))"
proof -
  show ?thesis
  proof (cases obsolete)
    case None
    with t have "obind (compactIfNeeded opts now) (\<lambda>_ ob. (Inr older, ob)) ob = (r, ob')"
      by (simp add: obind_def)
    with compact_then_sound [OF this inv assms(5)] None p show ?thesis by simp
  next
    case (Some key)
    obtain r1 ob1 where s: "supersede i at (c @ key) ob = (r1, ob1)" by (cases "supersede i at (c @ key) ob")
    note so = supersede_sound [OF inv nt assms(4) s]
    show ?thesis
    proof (cases r1)
      case (Inl e)
      with t Some s so show ?thesis by (auto simp: obind_def)
    next
      case (Inr u)
      with t Some s have "obind (compactIfNeeded opts now) (\<lambda>_ ob. (Inr older', ob)) ob1 = (r, ob')"
        by (simp add: obind_def)
      from compact_then_sound [OF this _ _ assms(5)] so Inr have "sound ob1 ob'" "ob_pendingEntries ob' = ob_pendingEntries ob1"
        by (auto simp: sound_def)
      moreover have "js_delete i (m @ [(i, d)]) = m"
        using fresh by (auto simp: js_delete_filter js_has_def filter_id_conv)
      ultimately show ?thesis using so Inr Some p by (auto intro: sound_trans)
    qed
  qed
qed

lemma stage_sound:
  assumes inv: "outbox_inv ob" "clean_wal (ob_io ob)" and d: "delivery_ok d" and now: "isSafeInteger now"
    and st: "outbox_stage opts now d ob = (r, ob')"
  shows "sound ob ob' \<and> (ok r \<longrightarrow>
     ob_pendingEntries ob' = ob_pendingEntries ob \<and> (js_has (ob_pendingEntries ob) (deliveryId d) \<or> js_has (ob_terminal ob) (deliveryId d))
   \<or> \<not> js_has (ob_pendingEntries ob) (deliveryId d) \<and>
     ob_pendingEntries ob' = filter (\<lambda>p. fst p \<notin> set (stage_older d ob)) (ob_pendingEntries ob)
       @ (if obsoleteOnArrival d ob = None then [(deliveryId d, d)] else []))"
proof (cases "js_has (ob_pendingEntries ob) (deliveryId d) \<or> js_has (ob_terminal ob) (deliveryId d)")
  case True
  with st inv show ?thesis by (auto simp: outbox_stage_def sound_def)
next
  case new: False
  let ?older = "stage_older d ob" and ?at = "delivery_createdAt d"
  have at: "isSafeInteger ?at" using d by (cases d) auto
  from inv(1) have wf: "outbox_wf ob" by (simp add: outbox_inv_def)
  note older = stage_older_pending [OF wf, of d]
  note st' = st [unfolded outbox_stage_def Let_def, simplified new if_False]
  from st' show ?thesis
  proof (rule obind_cases)
    fix e
    assume s: "supersede_all ?older ?at (stage_reason d) ob = (Inl e, ob')" and "r = Inl e"
    with supersede_all_sound [OF inv _ _ at s] older show ?thesis by auto
  next
    fix a ob1
    assume s: "supersede_all ?older ?at (stage_reason d) ob = (Inr a, ob1)"
    assume rest: "obind (outbox_append (Pending_entry d)) (\<lambda>_ ob'.
        obind (case obsoleteOnArrival d ob of None \<Rightarrow> (\<lambda>ob. (Inr ?older, ob))
               | Some key \<Rightarrow> obind (supersede (deliveryId d) ?at (''obsolete_logical_version:'' @ key))
                   (\<lambda>_ ob. (Inr (?older @ [deliveryId d]), ob))) (\<lambda>superseded.
        obind (compactIfNeeded opts now) (\<lambda>_ ob. (Inr superseded, ob))) (record_pending d ob')) ob1 = (r, ob')"
    from supersede_all_sound [OF inv _ _ at s] older
    have s1: "sound ob ob1"
      and p1: "ob_pendingEntries ob1 = filter (\<lambda>p. fst p \<notin> set ?older) (ob_pendingEntries ob)"
      and t1: "\<forall>j. js_has (ob_terminal ob1) j \<longrightarrow> js_has (ob_terminal ob) j \<or> j \<in> set ?older" by auto
    have new1: "\<not> js_has (ob_pendingEntries ob1) (deliveryId d)" "\<not> js_has (ob_terminal ob1) (deliveryId d)"
      using new p1 t1 older by (auto simp: js_has_def)
    from s1 have inv1: "outbox_inv ob1" "clean_wal (ob_io ob1)" by (auto simp: sound_def)
    from rest show ?thesis
    proof (rule obind_cases)
      fix e
      assume ap: "outbox_append (Pending_entry d) ob1 = (Inl e, ob')" and "r = Inl e"
      with append_pending_sound [OF inv1 d new1 ap] s1 show ?thesis by (auto intro: sound_trans)
    next
      fix a ob2
      assume ap: "outbox_append (Pending_entry d) ob1 = (Inr a, ob2)"
      let ?ob2 = "record_pending d ob2"
      from append_pending_sound [OF inv1 d new1 ap] s1
      have s2: "sound ob ?ob2" and p2: "ob_pendingEntries ?ob2 = ob_pendingEntries ob1 @ [(deliveryId d, d)]"
        and t2: "ob_terminal ?ob2 = ob_terminal ob1" by (auto intro: sound_trans)
      have inv2: "outbox_inv ?ob2" "clean_wal (ob_io ?ob2)" using s2 by (auto simp: sound_def)
      have nt2: "\<not> js_has (ob_terminal ?ob2) (deliveryId d)" using new1 t2 by simp
      assume "obind (case obsoleteOnArrival d ob of None \<Rightarrow> (\<lambda>ob. (Inr ?older, ob))
               | Some key \<Rightarrow> obind (supersede (deliveryId d) ?at (''obsolete_logical_version:'' @ key))
                   (\<lambda>_ ob. (Inr (?older @ [deliveryId d]), ob))) (\<lambda>superseded.
        obind (compactIfNeeded opts now) (\<lambda>_ ob. (Inr superseded, ob))) ?ob2 = (r, ob')"
      then have "sound ?ob2 ob' \<and> (ok r \<longrightarrow> ob_pendingEntries ob' = ob_pendingEntries ob1
          @ (if obsoleteOnArrival d ob = None then [(deliveryId d, d)] else []))"
        by (rule stage_tail [OF inv2 nt2 at now p2 new1(1)])
      with s2 p1 new show ?thesis by (auto intro: sound_trans)
    qed
  qed
qed

lemma settle_op_sound:
  assumes inv: "outbox_inv ob" "clean_wal (ob_io ob)" and e: "e \<noteq> Some []" and now: "isSafeInteger now"
    and rep: "replay_outbox_entry entry = settle_terminal i e" and ok: "outbox_entry_ok entry"
    and nt: "\<not> js_has (ob_terminal ob) i"
    and op: "obind (outbox_append entry) (\<lambda>_ ob. compactIfNeeded opts now (settle_terminal i e ob)) ob = (r, ob')"
  shows "sound ob ob' \<and> set (ob_pendingEntries ob') \<subseteq> set (ob_pendingEntries ob)"
proof -
  obtain r1 ob1 where ap: "outbox_append entry ob = (r1, ob1)" by (cases "outbox_append entry ob")
  note so = append_settle_sound [OF inv e rep ok nt ap]
  show ?thesis
  proof (cases r1)
    case (Inl err)
    with op ap so show ?thesis by (auto simp: obind_def)
  next
    case (Inr u)
    with op ap have "compactIfNeeded opts now (settle_terminal i e ob1) = (r, ob')" by (simp add: obind_def)
    with compactIfNeeded_sound [OF _ _ now this] so Inr
    have "sound (settle_terminal i e ob1) ob'" "sound ob (settle_terminal i e ob1)"
      "ob_pendingEntries ob' = ob_pendingEntries (settle_terminal i e ob1)"
      "ob_pendingEntries ob1 = ob_pendingEntries ob"
      by (auto simp: sound_def)
    then show ?thesis by (auto simp: settle_terminal_def js_delete_filter intro: sound_trans)
  qed
qed

lemma markDelivered_sound:
  assumes "outbox_inv ob" "clean_wal (ob_io ob)" and "eventId \<noteq> []" and "isSafeInteger now"
    and "outbox_markDelivered opts i eventId now ob = (r, ob')"
  shows "sound ob ob' \<and> set (ob_pendingEntries ob') \<subseteq> set (ob_pendingEntries ob)"
proof (cases "js_has (ob_terminal ob) i \<or> \<not> js_has (ob_pendingEntries ob) i")
  case True
  with assms show ?thesis by (auto simp: outbox_markDelivered_def sound_def split: if_splits)
next
  case False
  have "replay_outbox_entry (Delivered_entry i eventId now) = settle_terminal i (Some eventId)"
    by (rule ext) (simp add: settle_terminal_def)
  from settle_op_sound [OF assms(1,2) _ assms(4) this] False assms show ?thesis
    by (auto simp: outbox_markDelivered_def)
qed

lemma markSuperseded_sound:
  assumes "outbox_inv ob" "clean_wal (ob_io ob)" and "isSafeInteger now"
    and "outbox_markSuperseded opts i reason now ob = (r, ob')"
  shows "sound ob ob' \<and> set (ob_pendingEntries ob') \<subseteq> set (ob_pendingEntries ob)"
proof (cases "js_has (ob_terminal ob) i \<or> \<not> js_has (ob_pendingEntries ob) i")
  case True
  with assms show ?thesis by (auto simp: outbox_markSuperseded_def sound_def split: if_splits)
next
  case False
  have "replay_outbox_entry (Superseded_entry i now (Some (take 512 reason))) = settle_terminal i None"
    by (rule ext) (simp add: settle_terminal_def)
  from settle_op_sound [OF assms(1,2) _ assms(3) this] False assms show ?thesis
    by (auto simp: outbox_markSuperseded_def)
qed

subsection \<open>Classification\<close>

lemma withMetadata_again [simp]: "withMetadata d (metadataFor (withMetadata d md)) = withMetadata d md"
  by (cases "md_priority md"; cases "md_supersession md")
    (simp_all add: withMetadata_def metadataFor_def or_previous_def split: option.splits)

lemma withMetadata_ok:
  assumes "delivery_ok (Event_delivery d)" and "supersession_ok (md_supersession md)"
  shows "delivery_ok (Event_delivery (withMetadata d md))"
    and "supersession_ok (md_supersession (metadataFor (withMetadata d md)))"
    and "ed_deliveryId (withMetadata d md) = ed_deliveryId d"
  using assms by (auto simp: withMetadata_def metadataFor_def or_previous_def split: option.splits)

definition reclassified :: "event_delivery \<Rightarrow> delivery_metadata \<Rightarrow> outbox \<Rightarrow> outbox" where
  "reclassified d md ob = (let c = Event_delivery (withMetadata d md) in
     ob\<lparr>ob_deliveries := js_set (ed_deliveryId d) c (ob_deliveries ob),
        ob_pendingEntries := js_set (ed_deliveryId d) c (ob_pendingEntries ob)\<rparr>)"

lemma replay_classified:
  assumes wf: "outbox_wf ob" and p: "js_get (ob_pendingEntries ob) i = Some (Event_delivery d)"
    and md: "supersession_ok (md_supersession md)"
  shows "replay_outbox_entry (Classified_entry (ed_deliveryId d) (metadataFor (withMetadata d md)) now) ob
    = reclassified d md ob"
    and "outbox_wf (reclassified d md ob)"
    and "supersession_ok (md_supersession (metadataFor (withMetadata d md)))"
proof -
  from wf p have del: "js_get (ob_deliveries ob) i = Some (Event_delivery d)" by (simp add: outbox_wf_def)
  with wf have i: "ed_deliveryId d = i" and ok: "delivery_ok (Event_delivery d)"
    by (fastforce simp: outbox_wf_def)+
  show "replay_outbox_entry (Classified_entry (ed_deliveryId d) (metadataFor (withMetadata d md)) now) ob
    = reclassified d md ob"
    using del p i by (simp add: reclassified_def js_has_get Let_def)
  from withMetadata_ok [OF ok md] wf p i show "outbox_wf (reclassified d md ob)"
    unfolding outbox_wf_def reclassified_def Let_def
    by (auto simp: jsmap_simps split: if_splits)
  show "supersession_ok (md_supersession (metadataFor (withMetadata d md)))"
    by (rule withMetadata_ok [OF ok md])
qed

lemma classify_loop_replay:
  assumes "classify_loop cs now es ob = (es', ob')" and "outbox_wf ob"
    and "\<forall>(i, md)\<in>set cs. supersession_ok (md_supersession md)" and "isSafeInteger now"
  shows "\<exists>new. es' = es @ new \<and> ob' = fold replay_outbox_entry new ob \<and> outbox_wf ob'
    \<and> (\<forall>e\<in>set new. outbox_entry_ok e) \<and> ob_terminal ob' = ob_terminal ob"
  using assms
proof (induction cs arbitrary: es ob)
  case Nil
  then show ?case by simp
next
  case (Cons cmd cs)
  obtain i md where cmd: "cmd = (i, md)" by (cases cmd)
  from Cons.prems(3) cmd have cs: "\<forall>(i, md)\<in>set cs. supersession_ok (md_supersession md)"
    and md: "supersession_ok (md_supersession md)" by auto
  show ?case
  proof (cases "\<exists>d. js_get (ob_pendingEntries ob) i = Some (Event_delivery d) \<and> \<not> sameMetadata d (withMetadata d md)")
    case False
    with Cons.prems(1) cmd have "classify_loop cs now es ob = (es', ob')"
      by (auto simp: Let_def split: option.splits mlp3_delivery.splits if_splits)
    from Cons.IH [OF this Cons.prems(2) cs Cons.prems(4)] show ?thesis .
  next
    case True
    then obtain d where d: "js_get (ob_pendingEntries ob) i = Some (Event_delivery d)"
      "\<not> sameMetadata d (withMetadata d md)" by blast
    note rc = replay_classified [OF Cons.prems(2) d(1) md]
    let ?e = "Classified_entry (ed_deliveryId d) (metadataFor (withMetadata d md)) now"
    from Cons.prems(1) cmd d have "classify_loop cs now (es @ [?e]) (reclassified d md ob) = (es', ob')"
      by (simp add: reclassified_def Let_def)
    from Cons.IH [OF this rc(2) cs Cons.prems(4)] obtain new where "es' = (es @ [?e]) @ new"
      "ob' = fold replay_outbox_entry new (reclassified d md ob)" "outbox_wf ob'"
      "\<forall>e\<in>set new. outbox_entry_ok e" "ob_terminal ob' = ob_terminal (reclassified d md ob)" by blast
    moreover have "ob_terminal (reclassified d md ob) = ob_terminal ob" by (simp add: reclassified_def Let_def)
    ultimately show ?thesis using rc(1) [of now] rc(3) Cons.prems(4)
      by (intro exI [of _ "?e # new"]) (simp del: replay_outbox_entry.simps)
  qed
qed

lemma fold_settle:
  assumes "outbox_wf ob"
  shows "outbox_wf (fold (\<lambda>i. settle_terminal i None) ids ob)"
    and "ob_pendingEntries (fold (\<lambda>i. settle_terminal i None) ids ob)
      = filter (\<lambda>p. fst p \<notin> set ids) (ob_pendingEntries ob)"
    and "distinct ids \<Longrightarrow> \<forall>i\<in>set ids. \<not> js_has (ob_terminal ob) i \<Longrightarrow>
      terminal_grows ob (fold (\<lambda>i. settle_terminal i None) ids ob)"
    and "ob_file (fold (\<lambda>i. settle_terminal i None) ids ob) = ob_file ob"
    and "ob_io (fold (\<lambda>i. settle_terminal i None) ids ob) = ob_io ob"
proof -
  show "outbox_wf (fold (\<lambda>i. settle_terminal i None) ids ob)"
    using assms by (induction ids arbitrary: ob) (auto intro: settle_wf)
  show "ob_pendingEntries (fold (\<lambda>i. settle_terminal i None) ids ob)
      = filter (\<lambda>p. fst p \<notin> set ids) (ob_pendingEntries ob)"
    by (induction ids arbitrary: ob)
      (auto simp: settle_terminal_def js_delete_filter intro!: filter_cong)
  show "ob_file (fold (\<lambda>i. settle_terminal i None) ids ob) = ob_file ob"
    "ob_io (fold (\<lambda>i. settle_terminal i None) ids ob) = ob_io ob"
    by (induction ids arbitrary: ob) (auto simp: settle_terminal_def)
  show "terminal_grows ob (fold (\<lambda>i. settle_terminal i None) ids ob)"
    if "distinct ids" "\<forall>i\<in>set ids. \<not> js_has (ob_terminal ob) i"
    using that
  proof (induction ids arbitrary: ob)
    case (Cons i ids)
    then have "terminal_grows (settle_terminal i None ob)
        (fold (\<lambda>i. settle_terminal i None) ids (settle_terminal i None ob))"
      by (intro Cons.IH) (auto simp: settle_terminal_def)
    with settle_grows [of ob i None] Cons.prems show ?case by (auto intro: terminal_grows_trans)
  qed simp
qed

lemma outdated_replay:
  "fold replay_outbox_entry (map (outdated_entry now) ds) ob
   = fold (\<lambda>i. settle_terminal i None) (map deliveryId ds) ob"
  by (induction ds arbitrary: ob) (simp_all add: outdated_entry_def settle_terminal_def)

lemma appendMany_succeeds:
  "ob_io ob = [] \<or> hd (ob_io ob) = Wal_ok \<Longrightarrow> fst (appendMany es ob) = Inr ()"
  by (cases "ob_io ob") (auto simp: appendMany_def take_io_def Let_def)

lemma classifyMany_sound:
  assumes inv: "outbox_inv ob" "clean_wal (ob_io ob)" and now: "isSafeInteger now"
    and md: "\<forall>(i, md)\<in>set cs. supersession_ok (md_supersession md)"
    and io: "ob_io ob = [] \<or> hd (ob_io ob) = Wal_ok"
    and op: "classifyMany opts cs now ob = (r, ob')"
  shows "sound ob ob' \<and> (\<exists>m. ob_pendingEntries (snd (classify_loop cs now [] ob)) = m
    \<and> ob_pendingEntries ob' = filter (\<lambda>p. fst p \<notin> set (map deliveryId
        (filter (outdated (newestVersions m)) (js_values m)))) m)"
proof -
  obtain es ob1 where cl: "classify_loop cs now [] ob = (es, ob1)" by (cases "classify_loop cs now [] ob")
  from inv(1) have wf: "outbox_wf ob" by (simp add: outbox_inv_def)
  from classify_loop_replay [OF cl wf md now] have ob1: "ob1 = fold replay_outbox_entry es ob"
    and wf1: "outbox_wf ob1" and es: "\<forall>e\<in>set es. outbox_entry_ok e" and t1: "ob_terminal ob1 = ob_terminal ob"
    by auto
  let ?m = "ob_pendingEntries ob1"
  let ?old = "filter (outdated (newestVersions ?m)) (js_values ?m)"
  let ?new = "es @ map (outdated_entry now) ?old"
  obtain r2 ob2 where ap: "appendMany ?new ob1 = (r2, ob2)" by (cases "appendMany ?new ob1")
  have io1: "ob_io ob1 = ob_io ob" "ob_file ob1 = ob_file ob" by (simp_all add: ob1)
  have "r2 = Inr ()" using appendMany_succeeds [of ob1 ?new] io io1 ap by simp
  note ap = ap [unfolded this]
  have clean1: "clean_wal (ob_io ob1)" using inv(2) io1 by simp
  note c = appendMany_clean [OF clean1 ap]
  let ?t = "fold (\<lambda>i. settle_terminal i None) (map deliveryId ?old) ob2"
  have "outbox_wf ob2" using wf1 outbox_wf_cong [of ob1 ob2] c by simp
  note fs = fold_settle [OF this, of "map deliveryId ?old"]
  have ok: "\<forall>e\<in>set ?new. outbox_entry_ok e" using es now by (auto simp: outdated_entry_def)
  have "mirrors ob1 ob2" using c by (simp add: mirrors_def)
  from outbox_log.fold_same [OF this, of "map (outdated_entry now) ?old"]
  have mir: "mirrors (fold replay_outbox_entry ?new ob) ?t"
    by (simp only: fold_append o_apply ob1 [symmetric] outdated_replay)
  have "outbox_synced ?t"
    using appendMany_synced [OF _ clean1 ap ok io1(2) mir fs(4)] inv(1) by (simp add: outbox_inv_def)
  moreover have "terminal_grows ob2 ?t"
    using pending_ids [OF wf1, of "outdated (newestVersions ?m)"] c by (intro fs(3)) auto
  ultimately have st: "sound ob ?t"
    using fs(1,5) c(1,4) t1 by (simp add: sound_def outbox_inv_def terminal_grows_def)
  from op cl ap have "obind (compactIfNeeded opts now) (\<lambda>_ ob. (Inr (map deliveryId ?old), ob)) ?t = (r, ob')"
    by (simp add: classifyMany_def obind_def Let_def)
  from compact_then_sound [OF this _ _ now] st
  have "sound ?t ob' \<and> ob_pendingEntries ob' = ob_pendingEntries ?t" by (simp add: sound_def)
  with st fs(2) c(2) cl show ?thesis by (auto intro: sound_trans)
qed

section \<open>Restarts\<close>

lemma replay_deliveries_wf: "js_wf (ob_deliveries ob) \<Longrightarrow> js_wf (ob_deliveries (fold replay_outbox_entry es ob))"
proof (induction es arbitrary: ob)
  case (Cons e es)
  then have "js_wf (ob_deliveries (replay_outbox_entry e ob))"
    by (cases e) (auto simp: Let_def split: option.splits mlp3_delivery.splits)
  with Cons.IH show ?case by simp
qed simp

lemma mirrors_wf:
  assumes "outbox_wf ob" and "mirrors ob' ob" and "js_wf (ob_deliveries ob')"
  shows "outbox_wf ob'"
  using assms unfolding outbox_wf_def mirrors_def by metis

text \<open>Loading the log of a running outbox into a fresh one reproduces it.\<close>

lemma load_mirrors:
  assumes "outbox_inv ob" and "s0 = (new_outbox (ob_file ob) io)\<lparr>ob_walBytes := b\<rparr>"
  shows "\<exists>n r. load_lines 0 (lines_of (ob_file ob)) 0 s0 = (Inr n, r) \<and> mirrors r ob \<and> outbox_inv r
    \<and> ob_io r = io \<and> ob_file r = ob_file ob"
proof -
  from assms(1) obtain es where es: "\<forall>e\<in>set es. outbox_entry_ok e"
    "lines_of (ob_file ob) = map entry_line es" "mirrors (fold replay_outbox_entry es no_outbox) ob"
    by (auto simp: outbox_inv_def outbox_synced_def)
  let ?r = "fold replay_outbox_entry es s0"
  have "mirrors ?r (fold replay_outbox_entry es no_outbox)"
    by (rule outbox_log.fold_same) (simp add: assms(2) mirrors_def new_outbox_def)
  with es(3) have m: "mirrors ?r ob" by (auto simp: mirrors_def)
  have "outbox_wf ?r"
    by (rule mirrors_wf [OF _ m replay_deliveries_wf])
      (use assms in \<open>simp_all add: outbox_inv_def new_outbox_def\<close>)
  moreover have "mirrors (fold replay_outbox_entry es no_outbox) ?r"
    using m es(3) by (simp add: mirrors_def)
  with es have "outbox_synced ?r"
    unfolding outbox_synced_def by (intro exI [of _ es]) (simp add: assms(2) new_outbox_def)
  ultimately show ?thesis using load_entry_lines [OF es(1), of 0 0 s0] es(2) m
    by (simp add: outbox_inv_def assms(2) new_outbox_def)
qed

lemma restart_sound:
  assumes inv: "outbox_inv ob" and io: "clean_wal io" and now: "isSafeInteger now"
    and op: "outbox_initialize opts now (new_outbox (ob_file ob) io) = (r, ob')"
  shows "sound ob ob' \<and> ob_pendingEntries ob' = ob_pendingEntries ob \<and> ob_terminal ob' = ob_terminal ob
    \<and> (io = [] \<longrightarrow> r = Inr ())"
proof (cases "ob_file ob")
  case None
  let ?s0 = "new_outbox (ob_file ob) io"
  from load_mirrors [OF inv, where io = io and b = 0 and ?s0.0 = ?s0] None have "mirrors ?s0 ob" "outbox_inv ?s0"
    by (auto simp: new_outbox_def lines_of_def)
  moreover from None op have "ob' = ?s0" "r = Inr ()"
    by (auto simp: outbox_initialize_def new_outbox_def)
  ultimately show ?thesis using io by (simp add: sound_def mirrors_def terminal_grows_def new_outbox_def)
next
  case (Some ls)
  let ?s0 = "(new_outbox (ob_file ob) io)\<lparr>ob_walBytes := sum_list (map line_bytes ls)\<rparr>"
  from load_mirrors [OF inv refl, where io = io and b = "sum_list (map line_bytes ls)"] Some obtain n ob1
    where ld: "load_lines 0 ls 0 ?s0 = (Inr n, ob1)" and ob1: "mirrors ob1 ob" "outbox_inv ob1" "ob_io ob1 = io"
    by (auto simp: lines_of_def)
  have clean1: "clean_wal (ob_io ob1)" using io ob1 by simp
  have s1: "sound ob ob1" using ob1 io by (simp add: sound_def mirrors_def terminal_grows_def)
  have "(r, ob') = (Inr (), ob1) \<or> outbox_compact now ob1 = (r, ob')"
    using op Some ld by (auto simp: outbox_initialize_def new_outbox_def obind_def split: if_splits)
  then show ?thesis
  proof
    assume "(r, ob') = (Inr (), ob1)"
    with s1 ob1 show ?thesis by (simp add: mirrors_def)
  next
    assume oc: "outbox_compact now ob1 = (r, ob')"
    from compact_sound [OF ob1(2) clean1 now oc] s1 ob1(1) have "sound ob ob'"
      "ob_pendingEntries ob' = ob_pendingEntries ob" "ob_terminal ob' = ob_terminal ob"
      by (auto simp: mirrors_def intro: sound_trans)
    moreover have "r = Inr ()" if "io = []"
      using oc that ob1(3) by (auto simp: outbox_compact_def take_io_def Let_def)
    ultimately show ?thesis by simp
  qed
qed

section \<open>Runs\<close>

datatype outbox_call =
    Ob_stage int mlp3_delivery
  | Ob_classify "(string \<times> delivery_metadata) list" int
  | Ob_delivered string string int
  | Ob_superseded string string int
  | Ob_restart int

text \<open>A call with the outcomes of the file writes it makes.\<close>

fun outbox_step :: "outbox_options \<Rightarrow> outbox_call \<times> wal_io list \<Rightarrow> outbox \<Rightarrow> outbox" where
  "outbox_step opts (Ob_stage now d, io) ob = snd (outbox_stage opts now d (ob\<lparr>ob_io := io\<rparr>))"
| "outbox_step opts (Ob_classify cs now, io) ob = snd (classifyMany opts cs now (ob\<lparr>ob_io := io\<rparr>))"
| "outbox_step opts (Ob_delivered i e now, io) ob = snd (outbox_markDelivered opts i e now (ob\<lparr>ob_io := io\<rparr>))"
| "outbox_step opts (Ob_superseded i reason now, io) ob =
     snd (outbox_markSuperseded opts i reason now (ob\<lparr>ob_io := io\<rparr>))"
| "outbox_step opts (Ob_restart now, io) ob = snd (outbox_initialize opts now (new_outbox (ob_file ob) io))"

definition outbox_run :: "outbox_options \<Rightarrow> (outbox_call \<times> wal_io list) list \<Rightarrow> outbox \<Rightarrow> outbox" where
  "outbox_run opts calls ob = fold (outbox_step opts) calls ob"

text \<open>
  Well-formed calls: clock readings are safe integers, Matrix event ids are not empty, deliveries and
  metadata have the shapes of their types, and a failed write leaves nothing in the file. A
  classification must reach the file, since it changes the maps before it is written.
\<close>

fun outbox_call_ok :: "outbox_call \<times> wal_io list \<Rightarrow> bool" where
  "outbox_call_ok (Ob_stage now d, io) \<longleftrightarrow> isSafeInteger now \<and> delivery_ok d \<and> clean_wal io"
| "outbox_call_ok (Ob_classify cs now, io) \<longleftrightarrow> isSafeInteger now
     \<and> (\<forall>(i, md)\<in>set cs. supersession_ok (md_supersession md)) \<and> clean_wal io \<and> (io = [] \<or> hd io = Wal_ok)"
| "outbox_call_ok (Ob_delivered i e now, io) \<longleftrightarrow> isSafeInteger now \<and> e \<noteq> [] \<and> clean_wal io"
| "outbox_call_ok (Ob_superseded i reason now, io) \<longleftrightarrow> isSafeInteger now \<and> clean_wal io"
| "outbox_call_ok (Ob_restart now, io) \<longleftrightarrow> isSafeInteger now \<and> clean_wal io"

lemma inv_set_io [simp]: "outbox_inv (ob\<lparr>ob_io := io\<rparr>) = outbox_inv ob"
  using outbox_wf_cong [of "ob\<lparr>ob_io := io\<rparr>" ob] outbox_synced_cong [of "ob\<lparr>ob_io := io\<rparr>" ob]
  by (simp add: outbox_inv_def)

lemma step_sound:
  assumes "outbox_inv ob" and "outbox_call_ok c"
  shows "outbox_inv (outbox_step opts c ob) \<and> terminal_grows ob (outbox_step opts c ob)"
proof -
  obtain call io where c: "c = (call, io)" by (cases c)
  let ?ob = "ob\<lparr>ob_io := io\<rparr>"
  have inv: "outbox_inv ?ob" using assms(1) by simp
  have clean: "clean_wal (ob_io ?ob)" using assms(2) c by (cases call) auto
  have g: "terminal_grows ?ob t = terminal_grows ob t" for t by (simp add: terminal_grows_def)
  show ?thesis
  proof (cases call)
    case (Ob_stage now d)
    with stage_sound [OF inv clean _ _ prod.collapse [symmetric], of d now opts] assms(2) c g show ?thesis
      by (auto simp: sound_def)
  next
    case (Ob_classify cs now)
    with classifyMany_sound [OF inv clean _ _ _ prod.collapse [symmetric], of now cs opts] assms(2) c g
    show ?thesis by (auto simp: sound_def)
  next
    case (Ob_delivered i e now)
    with markDelivered_sound [OF inv clean _ _ prod.collapse [symmetric], of e now opts i] assms(2) c g
    show ?thesis by (auto simp: sound_def)
  next
    case (Ob_superseded i reason now)
    with markSuperseded_sound [OF inv clean _ prod.collapse [symmetric], of now opts i reason] assms(2) c g
    show ?thesis by (auto simp: sound_def)
  next
    case (Ob_restart now)
    with restart_sound [OF assms(1) _ _ prod.collapse [symmetric], of io now opts] assms(2) c
    show ?thesis by (auto simp: sound_def)
  qed
qed

lemma run_sound:
  assumes "outbox_inv ob" and "\<forall>c\<in>set calls. outbox_call_ok c"
  shows "outbox_inv (outbox_run opts calls ob) \<and> terminal_grows ob (outbox_run opts calls ob)"
  using assms unfolding outbox_run_def
proof (induction calls arbitrary: ob)
  case (Cons c calls)
  from step_sound [OF Cons.prems(1), of c opts] Cons.prems(2) Cons.IH [of "outbox_step opts c ob"]
  show ?case by (auto intro: terminal_grows_trans)
qed simp

lemma new_outbox_inv: "outbox_inv no_outbox"
proof -
  have "mirrors (fold replay_outbox_entry [] no_outbox) no_outbox" by (simp add: mirrors_def)
  then have "outbox_synced no_outbox"
    unfolding outbox_synced_def by (intro exI [of _ "[]"]) (simp add: lines_of_def new_outbox_def)
  then show ?thesis by (simp add: outbox_inv_def outbox_wf_def new_outbox_def)
qed

section \<open>Recovery and finality\<close>

definition sample_state :: "string \<Rightarrow> int \<Rightarrow> mlp3_delivery" where
  "sample_state i at = State_delivery \<lparr>sd_deliveryId = i, sd_roomId = ''!r'', sd_eventType = JStr ''t'',
     sd_stateKey = JStr ''k'', sd_content = JObj [(''v'', JStr i)], sd_createdAt = at\<rparr>"

definition sample_message :: "string \<Rightarrow> int \<Rightarrow> mlp3_delivery" where
  "sample_message i version = Event_delivery \<lparr>ed_deliveryId = i, ed_roomId = ''!r'', ed_transactionId = JStr i,
     ed_content = JObj [], ed_createdAt = 1, ed_priority = None,
     ed_supersession = Some \<lparr>sp_key = ''status'', sp_version = version\<rparr>\<rparr>"

definition sample_options :: "nat option \<Rightarrow> outbox_options" where
  "sample_options n = \<lparr>oo_compactAfterBytes = None, oo_compactAfterEntries = n\<rparr>"

lemmas sample_ok = sample_state_def sample_message_def isSafeInteger_def max_safe_integer_def clean_wal_def

lemmas outbox_eval = outbox_run_def sample_options_def sample_message_def sample_state_def outbox_stage_def
  obind_def outbox_append_def appendMany_def take_io_def compactIfNeeded_def outbox_compact_def or_default_def
  record_pending_def settle_terminal_def outbox_markDelivered_def new_outbox_def stage_older_def
  obsoleteOnArrival_def js_has_def Let_def retainedDeliveryIds_def latestStates_def set_add_def same_logical_def

text \<open>
  C21: a restart loses nothing, as long as a write that fails leaves nothing in the file. After any calls
  and earlier restarts, whose file writes succeed or fail without writing anything (and of which the
  append of \<open>classifyMany\<close>, which has changed the memory by then, succeeds), and whatever compactions
  they triggered, initializing a fresh outbox from the file succeeds and yields exactly the pending
  deliveries, in order and with their latest metadata, and exactly the terminal outcomes of the running
  outbox. A failed synchronization or a torn line is excluded: after it the memory and the log differ, or
  the log does not load.
\<close>

theorem outbox_restart_reproduces:
  assumes "\<forall>c\<in>set calls. outbox_call_ok c" and "isSafeInteger now"
    and "ob = outbox_run opts calls no_outbox"
    and "outbox_initialize opts now (new_outbox (ob_file ob) []) = (r, ob')"
  shows "r = Inr () \<and> ob_pendingEntries ob' = ob_pendingEntries ob \<and> ob_terminal ob' = ob_terminal ob
    \<and> (\<forall>room. outbox_pending room ob' = outbox_pending room ob)"
proof -
  have inv: "outbox_inv ob" using run_sound [OF new_outbox_inv assms(1)] assms(3) by simp
  have "clean_wal []" by (simp add: clean_wal_def)
  from restart_sound [OF inv this assms(2,4)] show ?thesis by (simp add: outbox_pending_def)
qed

theorem outbox_restart_reproduces_witness:
  "\<exists>r ob'. outbox_initialize (sample_options (Some 2)) 9
      (new_outbox (ob_file (outbox_run (sample_options (Some 2)) [(Ob_stage 4 (sample_message ''a'' 1), []),
        (Ob_stage 5 (sample_message ''b'' 2), [Wal_ok, Wal_fails_before])] no_outbox)) []) = (r, ob')
    \<and> (r = Inr () \<and> ob_pendingEntries ob' = ob_pendingEntries (outbox_run (sample_options (Some 2))
        [(Ob_stage 4 (sample_message ''a'' 1), []), (Ob_stage 5 (sample_message ''b'' 2), [Wal_ok, Wal_fails_before])] no_outbox)
      \<and> ob_terminal ob' = ob_terminal (outbox_run (sample_options (Some 2))
        [(Ob_stage 4 (sample_message ''a'' 1), []), (Ob_stage 5 (sample_message ''b'' 2), [Wal_ok, Wal_fails_before])] no_outbox)
      \<and> (\<forall>room. outbox_pending room ob' = outbox_pending room (outbox_run (sample_options (Some 2))
        [(Ob_stage 4 (sample_message ''a'' 1), []), (Ob_stage 5 (sample_message ''b'' 2), [Wal_ok, Wal_fails_before])] no_outbox)))"
  by (rule exI, rule exI, rule conjI, rule prod.collapse [symmetric],
      rule outbox_restart_reproduces [OF _ _ refl prod.collapse [symmetric]])
    (simp_all add: sample_ok)



section \<open>Only the newest versions stay pending\<close>

text \<open>
  Two pending state writes never have the same address, and two pending messages of one room with the
  same supersession key have the same version.
\<close>

definition rivals :: "mlp3_delivery \<Rightarrow> mlp3_delivery \<Rightarrow> bool" where
  "rivals d d' = (case (d, d') of
      (State_delivery s, State_delivery s') \<Rightarrow> sd_roomId s = sd_roomId s' \<and> sd_eventType s = sd_eventType s'
        \<and> sd_stateKey s = sd_stateKey s'
    | (Event_delivery e, Event_delivery e') \<Rightarrow> ed_roomId e = ed_roomId e'
        \<and> (case (ed_supersession e, ed_supersession e') of
             (Some s, Some s') \<Rightarrow> sp_key s = sp_key s' \<and> sp_version s \<noteq> sp_version s' | _ \<Rightarrow> False)
    | _ \<Rightarrow> False)"

definition newest_only :: "(string, mlp3_delivery) jsmap \<Rightarrow> bool" where
  "newest_only m \<longleftrightarrow> (\<forall>p\<in>set m. \<forall>q\<in>set m. fst p \<noteq> fst q \<longrightarrow> \<not> rivals (snd p) (snd q))"

lemma newest_only_subset: "newest_only m \<Longrightarrow> set m' \<subseteq> set m \<Longrightarrow> newest_only m'"
  unfolding newest_only_def by blast

lemma rivals_sym: "rivals d d' = rivals d' d"
  by (auto simp: rivals_def split: mlp3_delivery.splits option.splits)

lemma stage_no_rival:
  assumes "(j, c) \<in> set (ob_pendingEntries ob)" and "deliveryId c = j" and "delivery_ok d"
    and "j \<notin> set (stage_older d ob)" and "obsoleteOnArrival d ob = None"
  shows "\<not> rivals d c"
proof (cases d)
  case (State_delivery s)
  with assms show ?thesis
    by (cases c) (force simp: rivals_def stage_older_def same_address_def Let_def)+
next
  case (Event_delivery e)
  show ?thesis
  proof (cases "ed_supersession e")
    case None
    with Event_delivery show ?thesis by (simp add: rivals_def split: mlp3_delivery.splits)
  next
    case (Some s)
    have key: "sp_key s \<noteq> []" using assms(3) Event_delivery Some by simp
    have c: "c \<in> set (js_values (ob_pendingEntries ob))" using assms(1) by force
    have "\<not> same_logical (ed_roomId e) (sp_key s) (\<lambda>v. v > sp_version s) c"
      using assms(5) Event_delivery Some key c by (auto simp: obsoleteOnArrival_def list_ex_iff split: if_splits)
    moreover have "\<not> same_logical (ed_roomId e) (sp_key s) (\<lambda>v. v < sp_version s) c"
    proof
      assume "same_logical (ed_roomId e) (sp_key s) (\<lambda>v. v < sp_version s) c"
      with c have "deliveryId c \<in> deliveryId ` set (filter (same_logical (ed_roomId e) (sp_key s)
          (\<lambda>v. v < sp_version s)) (js_values (ob_pendingEntries ob)))" by auto
      with assms(2,4) Event_delivery Some show False by (simp add: stage_older_def Let_def)
    qed
    ultimately show ?thesis using Event_delivery Some
      by (auto simp: rivals_def same_logical_def split: mlp3_delivery.splits option.splits)
  qed
qed

lemma pending_id:
  "outbox_wf ob \<Longrightarrow> (j, c) \<in> set (ob_pendingEntries ob) \<Longrightarrow> deliveryId c = j"
  unfolding outbox_wf_def by (metis js_mem_get)

lemma newest_only_add:
  assumes "newest_only m" and "\<forall>(j, c)\<in>set m. \<not> rivals d c"
  shows "newest_only (m @ [(i, d)])"
  using assms rivals_sym unfolding newest_only_def by auto

subsection \<open>Versions after a classification\<close>

lemma newest_bound:
  "\<forall>k n. js_get acc k = Some n \<longrightarrow> (\<exists>n'. js_get (fold add_newest ds acc) k = Some n' \<and> n \<le> n')"
proof (induction ds arbitrary: acc)
  case (Cons d ds)
  show ?case
  proof (intro allI impI)
    fix k n
    assume "js_get acc k = Some n"
    then have "\<exists>n1. js_get (add_newest d acc) k = Some n1 \<and> n \<le> n1"
      by (auto simp: add_newest_def js_get_set split: option.splits)
    then obtain n1 where "js_get (add_newest d acc) k = Some n1" "n \<le> n1" by blast
    with Cons.IH [of "add_newest d acc"] show "\<exists>n'. js_get (fold add_newest (d # ds) acc) k = Some n' \<and> n \<le> n'"
      by fastforce
  qed
qed simp

lemma newest_member:
  assumes "d \<in> set ds" and "supersession_of d = Some s"
  shows "\<exists>n. js_get (fold add_newest ds acc) (sp_key s) = Some n \<and> sp_version s \<le> n"
  using assms(1)
proof (induction ds arbitrary: acc)
  case (Cons x ds)
  show ?case
  proof (cases "x = d")
    case True
    then have "\<exists>n. js_get (add_newest x acc) (sp_key s) = Some n \<and> sp_version s \<le> n"
      using assms(2) by (simp add: add_newest_def js_get_set)
    with newest_bound [of "add_newest x acc" ds] show ?thesis by fastforce
  next
    case False
    with Cons show ?thesis by simp
  qed
qed simp

lemma current_same_version:
  assumes "d \<in> set (js_values m)" and "d' \<in> set (js_values m)"
    and "supersession_of d = Some s" and "supersession_of d' = Some s'" and "sp_key s = sp_key s'"
    and "\<not> outdated (newestVersions m) d" and "\<not> outdated (newestVersions m) d'"
  shows "sp_version s = sp_version s'"
  using newest_member [OF assms(1,3), of "[]"] newest_member [OF assms(2,4), of "[]"] assms(3-7)
  by (auto simp: outdated_def newestVersions_def)

lemma classify_loop_states:
  assumes "classify_loop cs now es ob = (es', ob')" and "outbox_wf ob"
    and "\<forall>(i, md)\<in>set cs. supersession_ok (md_supersession md)"
    and "js_get (ob_pendingEntries ob') i = Some (State_delivery s)"
  shows "js_get (ob_pendingEntries ob) i = Some (State_delivery s)"
  using assms
proof (induction cs arbitrary: es ob)
  case (Cons c cs)
  obtain j md where c: "c = (j, md)" by (cases c)
  show ?case
  proof (cases "\<exists>d. js_get (ob_pendingEntries ob) j = Some (Event_delivery d) \<and> \<not> sameMetadata d (withMetadata d md)")
    case False
    with Cons.prems(1) c have "classify_loop cs now es ob = (es', ob')"
      by (auto simp: Let_def split: option.splits mlp3_delivery.splits if_splits)
    from Cons.IH [OF this Cons.prems(2)] Cons.prems(3,4) show ?thesis by simp
  next
    case True
    then obtain d where d: "js_get (ob_pendingEntries ob) j = Some (Event_delivery d)"
      "\<not> sameMetadata d (withMetadata d md)" by blast
    let ?e = "Classified_entry (ed_deliveryId d) (metadataFor (withMetadata d md)) now"
    from Cons.prems(1) c d have cl: "classify_loop cs now (es @ [?e]) (reclassified d md ob) = (es', ob')"
      by (simp add: reclassified_def Let_def)
    have wf: "outbox_wf (reclassified d md ob)"
      by (rule replay_classified(2) [OF Cons.prems(2) d(1)]) (use Cons.prems(3) c in auto)
    from Cons.IH [OF cl wf] Cons.prems(3,4)
    have "js_get (ob_pendingEntries (reclassified d md ob)) i = Some (State_delivery s)" by simp
    then show ?thesis by (auto simp: reclassified_def Let_def js_get_set split: if_splits)
  qed
qed simp

lemma classified_newest:
  assumes wf: "outbox_wf ob" "outbox_wf ob1" and cl: "classify_loop cs now [] ob = (es, ob1)"
    and md: "\<forall>(i, md)\<in>set cs. supersession_ok (md_supersession md)"
    and n: "newest_only (ob_pendingEntries ob)" and m: "m = ob_pendingEntries ob1"
  shows "newest_only (filter (\<lambda>p. fst p \<notin> set (map deliveryId
     (filter (outdated (newestVersions m)) (js_values m)))) m)"
  unfolding newest_only_def
proof (intro ballI impI notI)
  fix p q
  assume p: "p \<in> set (filter (\<lambda>p. fst p \<notin> set (map deliveryId
       (filter (outdated (newestVersions m)) (js_values m)))) m)"
    and q: "q \<in> set (filter (\<lambda>p. fst p \<notin> set (map deliveryId
       (filter (outdated (newestVersions m)) (js_values m)))) m)"
    and pq: "fst p \<noteq> fst q" and r: "rivals (snd p) (snd q)"
  have cur: "x \<in> set m \<and> snd x \<in> set (js_values m) \<and> \<not> outdated (newestVersions m) (snd x)
      \<and> js_get m (fst x) = Some (snd x)"
    if "x \<in> set (filter (\<lambda>p. fst p \<notin> set (map deliveryId
       (filter (outdated (newestVersions m)) (js_values m)))) m)" for x
  proof -
    from that have x: "x \<in> set m" "fst x \<notin> set (map deliveryId
       (filter (outdated (newestVersions m)) (js_values m)))" by auto
    have "deliveryId (snd x) = fst x" using pending_id [OF wf(2), of "fst x" "snd x"] x(1) m by simp
    moreover have "js_get m (fst x) = Some (snd x)"
      by (rule js_mem_get) (use wf(2) x m in \<open>simp_all add: outbox_wf_def\<close>)
    ultimately show ?thesis using x by force
  qed
  show False
  proof (cases "snd p")
    case (State_delivery s)
    with r obtain s' where q': "snd q = State_delivery s'"
      by (auto simp: rivals_def split: mlp3_delivery.splits)
    have "js_get (ob_pendingEntries ob) (fst p) = Some (State_delivery s)"
      by (rule classify_loop_states [OF cl wf(1) md]) (use cur [OF p] State_delivery m in simp)
    moreover have "js_get (ob_pendingEntries ob) (fst q) = Some (State_delivery s')"
      by (rule classify_loop_states [OF cl wf(1) md]) (use cur [OF q] q' m in simp)
    ultimately have "(fst p, snd p) \<in> set (ob_pendingEntries ob)" "(fst q, snd q) \<in> set (ob_pendingEntries ob)"
      using js_get_mem State_delivery q' by metis+
    with n pq r show False unfolding newest_only_def by fastforce
  next
    case (Event_delivery e)
    with r obtain e' s s' where q': "snd q = Event_delivery e'" and s: "ed_supersession e = Some s"
      "ed_supersession e' = Some s'" "sp_key s = sp_key s'" "sp_version s \<noteq> sp_version s'"
      by (auto simp: rivals_def split: mlp3_delivery.splits option.splits)
    with current_same_version [of "snd p" m "snd q" s s'] cur [OF p] cur [OF q] Event_delivery
    show False by simp
  qed
qed

text \<open>Calls without failing writes.\<close>

lemma io_nil_ok:
  "ob_io ob = [] \<Longrightarrow> ok (fst (appendMany es ob)) \<and> ob_io (snd (appendMany es ob)) = []"
  "ob_io ob = [] \<Longrightarrow> ok (fst (supersede i at reason ob)) \<and> ob_io (snd (supersede i at reason ob)) = []"
  "ob_io ob = [] \<Longrightarrow> ok (fst (compactIfNeeded opts now ob)) \<and> ob_io (snd (compactIfNeeded opts now ob)) = []"
  by (simp_all add: appendMany_def take_io_def supersede_def obind_def outbox_append_def settle_terminal_def
      compactIfNeeded_def outbox_compact_def Let_def)

lemma supersede_all_ok:
  "ob_io ob = [] \<Longrightarrow> ok (fst (supersede_all ids at reason ob)) \<and> ob_io (snd (supersede_all ids at reason ob)) = []"
proof (induction ids arbitrary: ob)
  case (Cons i ids)
  obtain r ob1 where s: "supersede i at reason ob = (r, ob1)" by (cases "supersede i at reason ob")
  with io_nil_ok(2) [OF Cons.prems, of i at reason] have "ok r" "ob_io ob1 = []" by auto
  with Cons.IH [of ob1] s show ?case by (cases r) (auto simp: obind_def)
qed simp

lemma obind_ok:
  assumes "ok (fst (m ob)) \<and> ob_io (snd (m ob)) = []"
    and "\<And>a ob1. ob_io ob1 = [] \<Longrightarrow> ok (fst (f a ob1)) \<and> ob_io (snd (f a ob1)) = []"
  shows "ok (fst (obind m f ob)) \<and> ob_io (snd (obind m f ob)) = []"
proof -
  obtain r ob1 where m: "m ob = (r, ob1)" by (cases "m ob")
  with assms show ?thesis by (cases r) (auto simp: obind_def)
qed

lemma stage_ok: "ob_io ob = [] \<Longrightarrow> ok (fst (outbox_stage opts now d ob))"
proof -
  assume io: "ob_io ob = []"
  have "ok (fst (outbox_stage opts now d ob)) \<and> ob_io (snd (outbox_stage opts now d ob)) = []"
    unfolding outbox_stage_def Let_def
    by (auto simp: io record_pending_def outbox_append_def split: option.splits
        intro!: obind_ok supersede_all_ok io_nil_ok)
  then show ?thesis ..
qed

lemma step_newest:
  assumes inv: "outbox_inv ob" and c: "outbox_call_ok c" "snd c = []"
    and n: "newest_only (ob_pendingEntries ob)"
  shows "newest_only (ob_pendingEntries (outbox_step opts c ob))"
proof -
  obtain call where call: "c = (call, [])" using c(2) by (cases c) auto
  let ?ob = "ob\<lparr>ob_io := []\<rparr>"
  have inv': "outbox_inv ?ob" using inv by simp
  have wf: "outbox_wf ?ob" using inv' by (simp add: outbox_inv_def)
  have clean: "clean_wal (ob_io ?ob)" by (simp add: clean_wal_def)
  have n': "newest_only (ob_pendingEntries ?ob)" using n by simp
  show ?thesis
  proof (cases call)
    case (Ob_stage now d)
    let ?r = "outbox_stage opts now d ?ob"
    have d: "delivery_ok d" "isSafeInteger now" using c call Ob_stage by auto
    from stage_sound [OF inv' clean d prod.collapse [symmetric], of opts] stage_ok [of ?ob opts now d]
    consider "ob_pendingEntries (snd ?r) = ob_pendingEntries ob"
      | "ob_pendingEntries (snd ?r) = filter (\<lambda>p. fst p \<notin> set (stage_older d ?ob)) (ob_pendingEntries ?ob)
       @ (if obsoleteOnArrival d ?ob = None then [(deliveryId d, d)] else [])" by auto
    then have "newest_only (ob_pendingEntries (snd ?r))"
    proof cases
      case 2
      let ?m = "filter (\<lambda>p. fst p \<notin> set (stage_older d ?ob)) (ob_pendingEntries ?ob)"
      have m: "newest_only ?m" by (rule newest_only_subset [OF n']) auto
      show ?thesis
      proof (cases "obsoleteOnArrival d ?ob = None")
        case True
        have "\<forall>(j, x)\<in>set ?m. \<not> rivals d x"
          using stage_no_rival [OF _ _ d(1) _ True] pending_id [OF wf] by auto
        from newest_only_add [OF m this] 2 True show ?thesis by simp
      next
        case False
        with 2 m show ?thesis by simp
      qed
    qed (use n in simp)
    with call Ob_stage show ?thesis by simp
  next
    case (Ob_classify cs now)
    have md: "\<forall>(i, md)\<in>set cs. supersession_ok (md_supersession md)" and now: "isSafeInteger now"
      using c call Ob_classify by auto
    obtain es ob1 where cl: "classify_loop cs now [] ?ob = (es, ob1)" by (cases "classify_loop cs now [] ?ob")
    from classify_loop_replay [OF cl wf md now] have "outbox_wf ob1" by blast
    from classified_newest [OF wf this cl md n' refl]
      classifyMany_sound [OF inv' clean now md _ prod.collapse [symmetric], of opts] cl call Ob_classify
    show ?thesis by auto
  next
    case (Ob_delivered i e now)
    with markDelivered_sound [OF inv' clean _ _ prod.collapse [symmetric], of e now opts i] c call
      newest_only_subset [OF n] show ?thesis by auto
  next
    case (Ob_superseded i reason now)
    with markSuperseded_sound [OF inv' clean _ prod.collapse [symmetric], of now opts i reason] c call
      newest_only_subset [OF n] show ?thesis by auto
  next
    case (Ob_restart now)
    with restart_sound [OF inv _ _ prod.collapse [symmetric], of "[]" now opts] c call n
    show ?thesis by (auto simp: clean_wal_def)
  qed
qed

text \<open>
  C23: outdated messages are not sent. As long as file writes succeed, no two pending state writes have
  the same room, event type and state key, and all pending messages of a room that share a
  supersession key have the same version, after any staging in any order of versions,
  reclassification, completion and restart.
\<close>

theorem outbox_newest_only:
  assumes "\<forall>c\<in>set calls. outbox_call_ok c \<and> snd c = []"
  shows "newest_only (ob_pendingEntries (outbox_run opts calls no_outbox))"
proof -
  have "outbox_inv ob \<Longrightarrow> newest_only (ob_pendingEntries ob) \<Longrightarrow>
      newest_only (ob_pendingEntries (fold (outbox_step opts) calls ob))" for ob
    using assms
  proof (induction calls arbitrary: ob)
    case (Cons c calls)
    from step_newest [OF Cons.prems(1) _ _ Cons.prems(2), of c opts] step_sound [OF Cons.prems(1), of c opts]
      Cons.prems(3) Cons.IH [of "outbox_step opts c ob"]
    show ?case by auto
  qed simp
  from this [OF new_outbox_inv] show ?thesis
    by (simp add: outbox_run_def newest_only_def new_outbox_def)
qed

theorem outbox_newest_only_witness:
  "newest_only (ob_pendingEntries (outbox_run (sample_options (Some 2))
     [(Ob_stage 1 (sample_message ''a'' 2), []), (Ob_stage 1 (sample_message ''b'' 1), []),
      (Ob_stage 2 (sample_message ''c'' 3), []), (Ob_stage 2 (sample_state ''s'' 5), []),
      (Ob_stage 3 (sample_state ''t'' 4), []), (Ob_restart 5, [])] no_outbox))"
  by (rule outbox_newest_only) (simp add: sample_ok)

section \<open>Compaction and \<open>latestState\<close>\<close>

definition two_states :: "(outbox_call \<times> wal_io list) list" where
  "two_states = [(Ob_stage 5 (sample_state ''a'' 5), []), (Ob_delivered ''a'' ''$1'' 5, []),
     (Ob_stage 5 (sample_state ''b'' 5), []), (Ob_delivered ''b'' ''$2'' 6, [])]"

lemma two_states_bytes:
  "encoded_bytes [Delivered_entry ''a'' ''$1'' 5] = 83"
  "encoded_bytes [Delivered_entry ''b'' ''$2'' 6] = 83"
  "encoded_bytes [Pending_entry (sample_state ''a'' 5)] = 157"
  "encoded_bytes [Pending_entry (sample_state ''b'' 5)] = 157"
  by (simp_all add: encoded_bytes_def line_bytes_def entry_line_def utf8_char_def stringify_string_def
      escape_char_def stringify_int_def show_nat.simps digit_char_def sample_state_def)

text \<open>
  Compaction can bring an older state back. Two writes of the same state with equal timestamps, both
  delivered: before compaction \<open>latestState\<close> is the later one, since it prefers the later of equal
  timestamps; compaction keeps only the first of the greatest timestamp, so that afterwards
  \<open>latestState\<close> is the earlier one.
\<close>

theorem compaction_changes_latestState:
  "\<exists>ob ob'. ob = outbox_run (sample_options None) two_states no_outbox
     \<and> outbox_compact 7 ob = (Inr (), ob')
     \<and> map_option State_delivery (latestState ob ''!r'' (JStr ''t'') (JStr ''k'')) = Some (sample_state ''b'' 5)
     \<and> map_option State_delivery (latestState ob' ''!r'' (JStr ''t'') (JStr ''k'')) = Some (sample_state ''a'' 5)"
  using two_states_bytes
  by (simp add: outbox_eval two_states_def same_address_def DEFAULT_COMPACT_AFTER_BYTES_def
      DEFAULT_COMPACT_AFTER_ENTRIES_def latestState_def retry_target_def state_address_def)

end
