(* ===== verification/Pairing_Registry.thy ===== *)
theory Pairing_Registry
  imports Signatures Atomic_Json_File
begin

text \<open>
  Model of \<open>FileTrustedDeviceRegistry\<close> (\<open>src/gateway/pairing/registry.ts\<close>): pairing offers, pending
  pairing requests, trusted devices and the timestamps of documents signed with the gateway root key,
  in one atomic JSON file.

  Signed documents (offers, requests, certificates, responses, grants, transports) are JSON values,
  read through their properties as the source reads them. The Zod schemas of workspace grants and
  transport bindings are parameters. Dictionaries keyed by opaque identifiers are JavaScript maps in
  insertion order.
\<close>

section \<open>State\<close>

datatype offer_status = Offer_open | Offer_consumed | Offer_cancelled | Offer_expired

datatype offer_source = Gateway_startup | Local_admin | Paired_device string "string option"

record stored_offer =
  so_signedOffer :: json
  so_status :: offer_status
  so_source :: "offer_source option"
  so_consumedAt :: "int option"
  so_cancelledAt :: "int option"
  so_expiredAt :: "int option"
  so_requestId :: "string option"

record offer_summary =
  os_offerId :: string
  os_status :: offer_status
  os_source :: "offer_source option"
  os_issuedAt :: int
  os_expiresAt :: int

datatype pairing_status = Pairing_pending | Pairing_approved | Pairing_denied

record pending_pairing =
  pp_request :: json
  pp_verificationCode :: string
  pp_receivedAt :: int
  pp_status :: pairing_status
  pp_decidedAt :: "int option"
  pp_response :: "json option"

datatype device_status = Device_active | Device_revoked

record device_record =
  dr_status :: device_status
  dr_certificate :: json
  dr_workspaceGrant :: "json option"
  dr_gatewayTransport :: "json option" \<comment> \<open>absent only in records of older versions\<close>
  dr_activatedAt :: int
  dr_revokedAt :: "int option"
  dr_revocationReason :: "string option"

text \<open>\<open>ps_objects\<close>: whether \<open>offers\<close>, \<open>pending\<close> and \<open>trustedDevices\<close> of the document are objects.\<close>

record pairing_state =
  ps_version :: int
  ps_objects :: bool
  ps_offers :: "(string, stored_offer) jsmap"
  ps_pending :: "(string, pending_pairing) jsmap"
  ps_trustedDevices :: "(string, device_record) jsmap"
  ps_gatewayIssuedAt :: "int option"
  ps_gatewayTransport :: "json option"
  ps_gatewayRotationIssuedAt :: "int option"
  ps_gatewaySnapshotIssuedAt :: "int option"

definition initialState :: pairing_state where
  "initialState = \<lparr>ps_version = 1, ps_objects = True, ps_offers = [], ps_pending = [], ps_trustedDevices = [],
     ps_gatewayIssuedAt = None, ps_gatewayTransport = None, ps_gatewayRotationIssuedAt = None,
     ps_gatewaySnapshotIssuedAt = None\<rparr>"

datatype registry_error =
    Invalid_registry_state
  | Invalid_registry_timestamp
  | Offer_exists string
  | Retention_range_error
  | Offer_unavailable
  | Request_exists
  | Unknown_request
  | Already_decided
  | Different_device_key string
  | Duplicate_device_key
  | Unknown_device string
  | Already_revoked string
  | Active_device_unavailable string
  | Grant_does_not_match
  | Grant_immutable
  | Schema_error
  | Now_invalid
  | Timestamp_range_error
  | Device_not_trusted string
  | Device_transport_changed string
  | Transport_changed
  | Rotation_not_advanced
  | Snapshot_mismatch
  | Snapshot_not_advanced
  | Not_canonical_value

type_synonym 'r registry_tx = "(registry_error, pairing_state, 'r) tx"

section \<open>Reading signed documents\<close>

definition offer_doc :: "stored_offer \<Rightarrow> json" where
  "offer_doc offer = jprop (so_signedOffer offer) ''offer''"

definition offer_expiresAt :: "stored_offer \<Rightarrow> int" where
  "offer_expiresAt offer = num_of (jprop (offer_doc offer) ''expiresAt'')"

definition offer_issuedAt :: "stored_offer \<Rightarrow> int" where
  "offer_issuedAt offer = num_of (jprop (offer_doc offer) ''issuedAt'')"

definition cert_doc :: "json \<Rightarrow> json" where
  "cert_doc signed = jprop signed ''certificate''"

definition cert_deviceId :: "json \<Rightarrow> string" where
  "cert_deviceId signed = text_of (jprop (cert_doc signed) ''deviceId'')"

definition cert_keyId :: "json \<Rightarrow> string" where
  "cert_keyId signed = text_of (jprop (jprop (cert_doc signed) ''deviceKey'') ''keyId'')"

definition cert_issuedAt :: "json \<Rightarrow> int" where
  "cert_issuedAt signed = num_of (jprop (cert_doc signed) ''issuedAt'')"

definition request_id :: "json \<Rightarrow> string" where
  "request_id request = text_of (jprop (jprop request ''request'') ''requestId'')"

definition defined_json :: "json \<Rightarrow> json option" where
  "defined_json v = (if v = JUndefined then None else Some v)"

text \<open>\<open>canonicalJson(left) !== canonicalJson(right)\<close>, which throws on values that are not JSON.\<close>

definition canonical_differ :: "json \<Rightarrow> json \<Rightarrow> (registry_error, bool) result" where
  "canonical_differ l r = (case (canonicalJson l, canonicalJson r) of
      (Some s, Some t) \<Rightarrow> Inr (s \<noteq> t) | _ \<Rightarrow> Inl Not_canonical_value)"

text \<open>The first difference of a list of pairs, checked left to right.\<close>

fun any_differ :: "(json \<times> json) list \<Rightarrow> (registry_error, bool) result" where
  "any_differ [] = Inr False"
| "any_differ ((l, r) # ps) = rbind (canonical_differ l r) (\<lambda>d. if d then Inr True else any_differ ps)"

section \<open>Validation and the latest timestamp\<close>

definition bad_timestamp :: "int option \<Rightarrow> bool" where
  "bad_timestamp t = (case t of None \<Rightarrow> False | Some n \<Rightarrow> \<not> isSafeInteger n \<or> n < 0)"

definition registry_validateState :: "pairing_state \<Rightarrow> (registry_error, unit) result" where
  "registry_validateState state =
     (if ps_version state \<noteq> 1 \<or> \<not> ps_objects state then Inl Invalid_registry_state
      else if list_ex bad_timestamp [ps_gatewayRotationIssuedAt state, ps_gatewaySnapshotIssuedAt state,
                ps_gatewayIssuedAt state]
      then Inl Invalid_registry_timestamp else Inr ())"

definition or_minus_one :: "int option \<Rightarrow> int" where
  "or_minus_one t = (case t of None \<Rightarrow> - 1 | Some n \<Rightarrow> n)"

definition latestGatewayIssuedAt :: "pairing_state \<Rightarrow> int" where
  "latestGatewayIssuedAt state =
     (let latest = max (or_minus_one (ps_gatewayIssuedAt state))
            (max (or_minus_one (ps_gatewayRotationIssuedAt state)) (or_minus_one (ps_gatewaySnapshotIssuedAt state)));
          latest = foldl (\<lambda>l offer. max l (offer_issuedAt offer)) latest (js_values (ps_offers state));
          latest = foldl (\<lambda>l p. case pp_response p of None \<Rightarrow> l
            | Some response \<Rightarrow> let r = jprop response ''response'' in
                max l (max (num_of (jprop r ''issuedAt'')) (cert_issuedAt (jprop r ''certificate''))))
            latest (js_values (ps_pending state)) in
      foldl (\<lambda>l record. max l (cert_issuedAt (dr_certificate record))) latest (js_values (ps_trustedDevices state)))"

text \<open>Every transaction validates the state first.\<close>

definition validated :: "'r registry_tx \<Rightarrow> 'r registry_tx" where
  "validated f state = rbind (registry_validateState state) (\<lambda>_. f state)"

section \<open>Offers\<close>

definition expire :: "int \<Rightarrow> stored_offer \<Rightarrow> stored_offer" where
  "expire now offer = offer\<lparr>so_status := Offer_expired, so_expiredAt := Some now\<rparr>"

definition has_expired :: "int \<Rightarrow> stored_offer \<Rightarrow> bool" where
  "has_expired now offer \<longleftrightarrow> so_status offer = Offer_open \<and> offer_expiresAt offer \<le> now"

definition put_offer :: "string \<Rightarrow> stored_offer \<Rightarrow> pairing_state \<Rightarrow> pairing_state" where
  "put_offer i offer state = state\<lparr>ps_offers := js_set i offer (ps_offers state)\<rparr>"

definition addOffer :: "json \<Rightarrow> offer_source option \<Rightarrow> unit registry_tx" where
  "addOffer signedOffer source = validated (\<lambda>state.
     let i = text_of (jprop (jprop signedOffer ''offer'') ''offerId'') in
     if js_get (ps_offers state) i \<noteq> None then Inl (Offer_exists i)
     else Inr ((), put_offer i \<lparr>so_signedOffer = signedOffer, so_status = Offer_open, so_source = source,
            so_consumedAt = None, so_cancelledAt = None, so_expiredAt = None, so_requestId = None\<rparr> state, True))"

definition getOffer :: "string \<Rightarrow> int \<Rightarrow> json option registry_tx" where
  "getOffer offerId now = validated (\<lambda>state.
     case js_get (ps_offers state) offerId of
       None \<Rightarrow> Inr (None, state, False)
     | Some offer \<Rightarrow>
         if has_expired now offer then Inr (None, put_offer offerId (expire now offer) state, True)
         else Inr (if so_status offer = Offer_open then Some (so_signedOffer offer) else None, state, False))"

definition getOfferForAudit :: "string \<Rightarrow> json option registry_tx" where
  "getOfferForAudit offerId = validated (\<lambda>state.
     Inr (map_option so_signedOffer (js_get (ps_offers state) offerId), state, False))"

fun source_json :: "offer_source \<Rightarrow> json" where
  "source_json Gateway_startup = JObj [(''kind'', JStr ''gateway-startup'')]"
| "source_json Local_admin = JObj [(''kind'', JStr ''local-admin'')]"
| "source_json (Paired_device device command) = JObj
     ([(''kind'', JStr ''paired-device''), (''deviceId'', JStr device)]
      @ (case command of None \<Rightarrow> [] | Some c \<Rightarrow> [(''commandId'', JStr c)]))"

definition findOfferBySource :: "offer_source \<Rightarrow> json option registry_tx" where
  "findOfferBySource source = validated (\<lambda>state.
     let found = sort_key offer_issuedAt (filter (\<lambda>offer. case so_source offer of None \<Rightarrow> False
           | Some s \<Rightarrow> canonicalJson (source_json s) = canonicalJson (source_json source)) (js_values (ps_offers state))) in
     Inr (case found of [] \<Rightarrow> None | offer # _ \<Rightarrow> Some (so_signedOffer offer), state, False))"

definition cancelOffer :: "string \<Rightarrow> int \<Rightarrow> bool registry_tx" where
  "cancelOffer offerId now = validated (\<lambda>state.
     case js_get (ps_offers state) offerId of
       None \<Rightarrow> Inr (False, state, False)
     | Some offer \<Rightarrow>
         if so_status offer \<noteq> Offer_open then Inr (False, state, False)
         else if offer_expiresAt offer \<le> now then Inr (False, put_offer offerId (expire now offer) state, True)
         else Inr (True, put_offer offerId (offer\<lparr>so_status := Offer_cancelled, so_cancelledAt := Some now\<rparr>) state, True))"

definition expire_due :: "int \<Rightarrow> (string, stored_offer) jsmap \<Rightarrow> (string, stored_offer) jsmap" where
  "expire_due now offers = map (\<lambda>(i, offer). (i, if has_expired now offer then expire now offer else offer)) offers"

definition listOffers :: "int \<Rightarrow> offer_summary list registry_tx" where
  "listOffers now = validated (\<lambda>state.
     let offers = expire_due now (ps_offers state) in
     Inr (map (\<lambda>offer. \<lparr>os_offerId = text_of (jprop (offer_doc offer) ''offerId''), os_status = so_status offer,
            os_source = so_source offer, os_issuedAt = offer_issuedAt offer, os_expiresAt = offer_expiresAt offer\<rparr>)
            (js_values offers),
          state\<lparr>ps_offers := offers\<rparr>, list_ex (has_expired now) (js_values (ps_offers state))))"

definition terminalAt :: "stored_offer \<Rightarrow> int" where
  "terminalAt offer = (case so_consumedAt offer of Some t \<Rightarrow> t | None \<Rightarrow>
     (case so_cancelledAt offer of Some t \<Rightarrow> t | None \<Rightarrow>
     (case so_expiredAt offer of Some t \<Rightarrow> t | None \<Rightarrow> offer_expiresAt offer)))"

definition pruneOffers :: "int \<Rightarrow> int \<Rightarrow> (nat \<times> nat) registry_tx" where
  "pruneOffers now retentionMs state =
     (if \<not> isSafeInteger retentionMs \<or> retentionMs < 0 then Inl Retention_range_error
      else validated (\<lambda>state.
        let offers = expire_due now (ps_offers state);
            gone = (\<lambda>offer. so_status offer \<noteq> Offer_open \<and> terminalAt offer + retentionMs \<le> now);
            expired = length (filter (has_expired now) (js_values (ps_offers state)));
            deleted = length (filter gone (js_values offers)) in
        Inr ((expired, deleted), state\<lparr>ps_offers := filter (\<lambda>(i, offer). \<not> gone offer) offers\<rparr>,
             0 < expired \<or> 0 < deleted)) state)"

section \<open>Requests and devices\<close>

definition addVerifiedRequest :: "string \<Rightarrow> pending_pairing \<Rightarrow> int \<Rightarrow> unit registry_tx" where
  "addVerifiedRequest offerId pending now = validated (\<lambda>state.
     case js_get (ps_offers state) offerId of
       None \<Rightarrow> Inl Offer_unavailable
     | Some offer \<Rightarrow>
         let requestId = request_id (pp_request pending) in
         if so_status offer \<noteq> Offer_open then Inl Offer_unavailable
         else if js_get (ps_pending state) requestId \<noteq> None then Inl Request_exists
         else Inr ((), (put_offer offerId (offer\<lparr>so_status := Offer_consumed, so_consumedAt := Some now,
                so_requestId := Some requestId\<rparr>) state)
              \<lparr>ps_pending := js_set requestId pending (ps_pending state)\<rparr>, True))"

definition getPending :: "string \<Rightarrow> pending_pairing option registry_tx" where
  "getPending requestId = validated (\<lambda>state. Inr (js_get (ps_pending state) requestId, state, False))"

definition key_conflict :: "pairing_state \<Rightarrow> string \<Rightarrow> json \<Rightarrow> (registry_error, unit) result" where
  "key_conflict state deviceId certificate =
     rbind (case js_get (ps_trustedDevices state) deviceId of
              None \<Rightarrow> Inr False
            | Some existing \<Rightarrow>
                if dr_status existing \<noteq> Device_active then Inr False
                else canonical_differ (jprop (cert_doc (dr_certificate existing)) ''deviceKey'')
                       (jprop (cert_doc certificate) ''deviceKey'')) (\<lambda>different.
       if different then Inl (Different_device_key deviceId)
       else if list_ex (\<lambda>record. dr_status record = Device_active
                 \<and> cert_deviceId (dr_certificate record) \<noteq> deviceId
                 \<and> cert_keyId (dr_certificate record) = cert_keyId certificate) (js_values (ps_trustedDevices state))
       then Inl Duplicate_device_key else Inr ())"

definition approve :: "string \<Rightarrow> json \<Rightarrow> json \<Rightarrow> int \<Rightarrow> json option \<Rightarrow> device_record registry_tx" where
  "approve requestId certificate response now workspaceGrant = validated (\<lambda>state.
     case js_get (ps_pending state) requestId of
       None \<Rightarrow> Inl Unknown_request
     | Some pending \<Rightarrow>
         if pp_status pending \<noteq> Pairing_pending then Inl Already_decided
         else
           let deviceId = cert_deviceId certificate in
           rbind (key_conflict state deviceId certificate) (\<lambda>_.
             let transport = defined_json (jprop (cert_doc certificate) ''gatewayTransport'');
                 record = \<lparr>dr_status = Device_active, dr_certificate = certificate,
                   dr_workspaceGrant = workspaceGrant, dr_gatewayTransport = transport, dr_activatedAt = now,
                   dr_revokedAt = None, dr_revocationReason = None\<rparr> in
             Inr (record, state\<lparr>ps_pending := js_set requestId (pending\<lparr>pp_status := Pairing_approved,
                    pp_decidedAt := Some now, pp_response := Some response\<rparr>) (ps_pending state),
                  ps_trustedDevices := js_set deviceId record (ps_trustedDevices state),
                  ps_gatewayTransport := transport\<rparr>, True)))"

definition deny :: "string \<Rightarrow> int \<Rightarrow> unit registry_tx" where
  "deny requestId now = validated (\<lambda>state.
     case js_get (ps_pending state) requestId of
       None \<Rightarrow> Inl Unknown_request
     | Some pending \<Rightarrow>
         if pp_status pending \<noteq> Pairing_pending then Inl Already_decided
         else Inr ((), state\<lparr>ps_pending := js_set requestId (pending\<lparr>pp_status := Pairing_denied,
                pp_decidedAt := Some now\<rparr>) (ps_pending state)\<rparr>, True))"

definition put_device :: "string \<Rightarrow> device_record \<Rightarrow> pairing_state \<Rightarrow> pairing_state" where
  "put_device i record state = state\<lparr>ps_trustedDevices := js_set i record (ps_trustedDevices state)\<rparr>"

definition revoke :: "string \<Rightarrow> string option \<Rightarrow> int \<Rightarrow> unit registry_tx" where
  "revoke deviceId reason now = validated (\<lambda>state.
     case js_get (ps_trustedDevices state) deviceId of
       None \<Rightarrow> Inl (Unknown_device deviceId)
     | Some record \<Rightarrow>
         if dr_status record = Device_revoked then Inl (Already_revoked deviceId)
         else Inr ((), put_device deviceId (record\<lparr>dr_status := Device_revoked, dr_revokedAt := Some now,
                dr_revocationReason := (case reason of Some (c # r) \<Rightarrow> reason | _ \<Rightarrow> dr_revocationReason record)\<rparr>)
                state, True))"

definition grant_preserves :: "json \<Rightarrow> json \<Rightarrow> (registry_error, bool) result" where
  "grant_preserves grant certificate =
     (if jprop grant ''deviceId'' \<noteq> jprop certificate ''deviceId''
       \<or> jprop grant ''certificateId'' \<noteq> jprop certificate ''certificateId''
       \<or> jprop grant ''deviceName'' \<noteq> jprop certificate ''deviceName'' then Inr False
      else rbind (any_differ (map (\<lambda>k. (jprop grant k, jprop certificate k))
             [''deviceKey'', ''deviceTransport'', ''allowedOperations''])) (\<lambda>different.
        Inr (\<not> different \<and> jprop grant ''issuedAt'' = jprop certificate ''issuedAt''
          \<and> jprop grant ''expiresAt'' = jprop certificate ''expiresAt'')))"

definition attachWorkspaceGrant :: "(json \<Rightarrow> json option) \<Rightarrow> string \<Rightarrow> json \<Rightarrow> json registry_tx" where
  "attachWorkspaceGrant parse_grant deviceId input state =
     (case parse_grant input of
        None \<Rightarrow> Inl Schema_error
      | Some signed \<Rightarrow> validated (\<lambda>state.
          case js_get (ps_trustedDevices state) deviceId of
            None \<Rightarrow> Inl (Active_device_unavailable deviceId)
          | Some record \<Rightarrow>
              if dr_status record \<noteq> Device_active then Inl (Active_device_unavailable deviceId)
              else rbind (grant_preserves (jprop signed ''grant'') (cert_doc (dr_certificate record))) (\<lambda>preserved.
                if \<not> preserved then Inl Grant_does_not_match
                else (case dr_workspaceGrant record of
                  Some existing \<Rightarrow> rbind (canonical_differ existing signed) (\<lambda>different.
                    if different then Inl Grant_immutable else Inr (existing, state, False))
                | None \<Rightarrow> Inr (signed, put_device deviceId (record\<lparr>dr_workspaceGrant := Some signed\<rparr>) state, True)))) state)"

definition get_device :: "string \<Rightarrow> device_record option registry_tx" where
  "get_device deviceId = validated (\<lambda>state. Inr (js_get (ps_trustedDevices state) deviceId, state, False))"

definition listActive :: "int \<Rightarrow> device_record list registry_tx" where
  "listActive now = validated (\<lambda>state. Inr (filter (\<lambda>record. dr_status record = Device_active
     \<and> now < num_of (jprop (cert_doc (dr_certificate record)) ''expiresAt'')) (js_values (ps_trustedDevices state)),
     state, False))"

definition list_devices :: "device_record list registry_tx" where
  "list_devices = validated (\<lambda>state. Inr (js_values (ps_trustedDevices state), state, False))"

section \<open>Timestamps and the gateway transport\<close>

definition reserveGatewayIssuedAt :: "int \<Rightarrow> int registry_tx" where
  "reserveGatewayIssuedAt now state =
     (if \<not> isSafeInteger now \<or> now < 0 then Inl Now_invalid
      else validated (\<lambda>state.
        let issuedAt = max now (latestGatewayIssuedAt state + 1) in
        if \<not> isSafeInteger issuedAt then Inl Timestamp_range_error
        else Inr (issuedAt, state\<lparr>ps_gatewayIssuedAt := Some issuedAt\<rparr>, True)) state)"

definition first_transport :: "pairing_state \<Rightarrow> json option" where
  "first_transport state = (case js_values (ps_trustedDevices state) of [] \<Rightarrow> None
     | record # _ \<Rightarrow> defined_json (jprop (cert_doc (dr_certificate record)) ''gatewayTransport''))"

definition current_transport :: "pairing_state \<Rightarrow> json option" where
  "current_transport state = (case ps_gatewayTransport state of Some t \<Rightarrow> Some t | None \<Rightarrow> first_transport state)"

definition updateGatewayTransport :: "string \<Rightarrow> json \<Rightarrow> json \<Rightarrow> unit registry_tx" where
  "updateGatewayTransport deviceId prior next = validated (\<lambda>state.
     case js_get (ps_trustedDevices state) deviceId of
       None \<Rightarrow> Inl (Device_not_trusted deviceId)
     | Some record \<Rightarrow>
         if dr_status record \<noteq> Device_active then Inl (Device_not_trusted deviceId)
         else
           let current = (case dr_gatewayTransport record of Some t \<Rightarrow> t
                 | None \<Rightarrow> jprop (cert_doc (dr_certificate record)) ''gatewayTransport'') in
           rbind (canonical_differ current prior) (\<lambda>different.
             if different then Inl (Device_transport_changed deviceId)
             else Inr ((), (put_device deviceId (record\<lparr>dr_gatewayTransport := Some next\<rparr>) state)
                    \<lparr>ps_gatewayTransport := Some next\<rparr>, True)))"

definition getGatewayTransport :: "json option registry_tx" where
  "getGatewayTransport = validated (\<lambda>state. Inr (current_transport state, state, False))"

definition getGatewayTransportHead :: "(json option \<times> int option \<times> int option) registry_tx" where
  "getGatewayTransportHead = validated (\<lambda>state.
     Inr ((current_transport state, ps_gatewayRotationIssuedAt state, ps_gatewaySnapshotIssuedAt state), state, False))"

definition map_devices :: "(device_record \<Rightarrow> device_record) \<Rightarrow> pairing_state \<Rightarrow> pairing_state" where
  "map_devices f state =
     state\<lparr>ps_trustedDevices := map (\<lambda>(i, record). (i, f record)) (ps_trustedDevices state)\<rparr>"

definition adoptGatewayTransportForIsolatedDeployment :: "(json \<Rightarrow> json option) \<Rightarrow> json \<Rightarrow> unit registry_tx" where
  "adoptGatewayTransportForIsolatedDeployment parse_transport nextInput state =
     (case parse_transport nextInput of
        None \<Rightarrow> Inl Schema_error
      | Some next \<Rightarrow> validated (\<lambda>state.
          rbind (case ps_gatewayTransport state of None \<Rightarrow> Inr True
                 | Some t \<Rightarrow> any_differ ((t, next) # map (\<lambda>record.
                     (case dr_gatewayTransport record of Some x \<Rightarrow> x | None \<Rightarrow> JUndefined, next))
                     (js_values (ps_trustedDevices state)))) (\<lambda>changed.
            if \<not> changed then Inr ((), state, False)
            else Inr ((), map_devices (\<lambda>record. record\<lparr>dr_gatewayTransport := Some next\<rparr>)
                   (state\<lparr>ps_gatewayTransport := Some next\<rparr>), True))) state)"

definition not_advanced :: "int \<Rightarrow> pairing_state \<Rightarrow> bool" where
  "not_advanced issuedAt state \<longleftrightarrow>
     issuedAt \<le> max (or_minus_one (ps_gatewayRotationIssuedAt state)) (or_minus_one (ps_gatewaySnapshotIssuedAt state))"

definition rotateGatewayTransport :: "json \<Rightarrow> json \<Rightarrow> int \<Rightarrow> unit registry_tx" where
  "rotateGatewayTransport prior next issuedAt = validated (\<lambda>state.
     rbind (case current_transport state of None \<Rightarrow> Inr True | Some t \<Rightarrow> canonical_differ t prior) (\<lambda>changed.
       if changed then Inl Transport_changed
       else if not_advanced issuedAt state then Inl Rotation_not_advanced
       else Inr ((), map_devices (\<lambda>record. if dr_status record = Device_active
                then record\<lparr>dr_gatewayTransport := Some next\<rparr> else record)
              (state\<lparr>ps_gatewayTransport := Some next, ps_gatewayRotationIssuedAt := Some issuedAt,
                ps_gatewayIssuedAt := Some (max (or_minus_one (ps_gatewayIssuedAt state)) issuedAt)\<rparr>), True)))"

definition recordGatewayTransportSnapshot :: "json \<Rightarrow> int \<Rightarrow> unit registry_tx" where
  "recordGatewayTransportSnapshot transport issuedAt = validated (\<lambda>state.
     rbind (case current_transport state of None \<Rightarrow> Inr False | Some t \<Rightarrow> canonical_differ t transport) (\<lambda>changed.
       if changed then Inl Snapshot_mismatch
       else if not_advanced issuedAt state then Inl Snapshot_not_advanced
       else Inr ((), state\<lparr>ps_gatewaySnapshotIssuedAt := Some issuedAt,
              ps_gatewayIssuedAt := Some (max (or_minus_one (ps_gatewayIssuedAt state)) issuedAt)\<rparr>, True)))"

section \<open>Calls\<close>

datatype registry_call =
    Add_offer json "offer_source option"
  | Get_offer string int
  | Get_offer_for_audit string
  | Find_offer offer_source
  | Cancel_offer string int
  | List_offers int
  | Prune_offers int int
  | Add_verified_request string pending_pairing int
  | Get_pending string
  | Approve string json json int "json option"
  | Deny string int
  | Revoke string "string option" int
  | Attach_grant string json
  | Get_device string
  | List_active int
  | List_devices
  | Reserve_issued_at int
  | Update_transport string json json
  | Get_transport
  | Get_transport_head
  | Adopt_transport json
  | Rotate_transport json json int
  | Record_snapshot json int

record registry_schemas =
  rs_grant :: "json \<Rightarrow> json option"
  rs_transport :: "json \<Rightarrow> json option"

fun registry_tx :: "registry_schemas \<Rightarrow> registry_call \<Rightarrow> unit registry_tx" where
  "registry_tx sc (Add_offer signed source) state = addOffer signed source state"
| "registry_tx sc (Get_offer i now) state = forget (getOffer i now state)"
| "registry_tx sc (Get_offer_for_audit i) state = forget (getOfferForAudit i state)"
| "registry_tx sc (Find_offer source) state = forget (findOfferBySource source state)"
| "registry_tx sc (Cancel_offer i now) state = forget (cancelOffer i now state)"
| "registry_tx sc (List_offers now) state = forget (listOffers now state)"
| "registry_tx sc (Prune_offers now retention) state = forget (pruneOffers now retention state)"
| "registry_tx sc (Add_verified_request i p now) state = addVerifiedRequest i p now state"
| "registry_tx sc (Get_pending i) state = forget (getPending i state)"
| "registry_tx sc (Approve i cert response now grant) state = forget (approve i cert response now grant state)"
| "registry_tx sc (Deny i now) state = deny i now state"
| "registry_tx sc (Revoke i reason now) state = revoke i reason now state"
| "registry_tx sc (Attach_grant i grant) state = forget (attachWorkspaceGrant (rs_grant sc) i grant state)"
| "registry_tx sc (Get_device i) state = forget (get_device i state)"
| "registry_tx sc (List_active now) state = forget (listActive now state)"
| "registry_tx sc List_devices state = forget (list_devices state)"
| "registry_tx sc (Reserve_issued_at now) state = forget (reserveGatewayIssuedAt now state)"
| "registry_tx sc (Update_transport i p n) state = updateGatewayTransport i p n state"
| "registry_tx sc Get_transport state = forget (getGatewayTransport state)"
| "registry_tx sc Get_transport_head state = forget (getGatewayTransportHead state)"
| "registry_tx sc (Adopt_transport n) state = adoptGatewayTransportForIsolatedDeployment (rs_transport sc) n state"
| "registry_tx sc (Rotate_transport p n at) state = rotateGatewayTransport p n at state"
| "registry_tx sc (Record_snapshot t at) state = recordGatewayTransportSnapshot t at state"

definition registry_run :: "registry_schemas \<Rightarrow> registry_call list \<Rightarrow> pairing_state fs \<Rightarrow> pairing_state fs" where
  "registry_run sc calls fs =
     fold (\<lambda>f c. snd (transaction initialState f c)) (map (registry_tx sc) calls) fs"

section \<open>What each call changes\<close>

lemma validated_Inr: "validated f s = Inr x \<longleftrightarrow> registry_validateState s = Inr () \<and> f s = Inr x"
  by (cases "registry_validateState s") (auto simp: validated_def)

lemmas plain_ops = addOffer_def getOffer_def getOfferForAudit_def findOfferBySource_def cancelOffer_def
  listOffers_def put_offer_def getPending_def deny_def revoke_def get_device_def listActive_def
  list_devices_def put_device_def getGatewayTransport_def getGatewayTransportHead_def

lemma foldl_max_ge: "(\<And>l x. l \<le> f l x) \<Longrightarrow> (l::int) \<le> foldl f l xs"
proof (induction xs arbitrary: l)
  case (Cons x xs)
  from Cons.prems [of l x] Cons.IH [OF Cons.prems, of "f l x"] show ?case by simp
qed simp

lemma latest_ge: "or_minus_one (ps_gatewayIssuedAt s) \<le> latestGatewayIssuedAt s"
  unfolding latestGatewayIssuedAt_def Let_def
  by (intro order_trans [OF _ foldl_max_ge] order_trans [OF _ foldl_max_ge, rotated] order_trans [OF _ foldl_max_ge, rotated])
    (auto split: option.splits)

text \<open>The last issued timestamp never decreases.\<close>

lemma issuedAt_mono:
  assumes "registry_tx sc c s = Inr (u, t, b)"
  shows "or_minus_one (ps_gatewayIssuedAt s) \<le> or_minus_one (ps_gatewayIssuedAt t)"
proof (cases c)
  case (Reserve_issued_at now)
  with assms latest_ge [of s] show ?thesis
    by (auto simp: forget_Inr reserveGatewayIssuedAt_def validated_Inr Let_def or_minus_one_def split: if_splits)
next
  case (Rotate_transport p n at)
  with assms show ?thesis
    by (auto simp: rotateGatewayTransport_def validated_Inr rbind_eq_Inr map_devices_def or_minus_one_def
        split: if_splits option.splits)
next
  case (Record_snapshot n at)
  with assms show ?thesis
    by (auto simp: recordGatewayTransportSnapshot_def validated_Inr rbind_eq_Inr or_minus_one_def
        split: if_splits option.splits)
next
  case (Adopt_transport n)
  with assms show ?thesis
    by (auto simp: adoptGatewayTransportForIsolatedDeployment_def validated_Inr rbind_eq_Inr map_devices_def
        split: if_splits option.splits)
next
  case (Update_transport i p n)
  with assms show ?thesis
    by (auto simp: updateGatewayTransport_def validated_Inr rbind_eq_Inr put_device_def Let_def
        split: if_splits option.splits)
next
  case (Attach_grant i g)
  with assms show ?thesis
    by (auto simp: forget_Inr attachWorkspaceGrant_def validated_Inr rbind_eq_Inr put_device_def
        split: if_splits option.splits)
next
  case (Approve i cert response now grant)
  with assms show ?thesis
    by (auto simp: forget_Inr approve_def validated_Inr rbind_eq_Inr Let_def split: if_splits option.splits)
next
  case (Prune_offers now retention)
  with assms show ?thesis by (auto simp: forget_Inr pruneOffers_def validated_Inr Let_def split: if_splits)
next
  case (Add_verified_request i p now)
  with assms show ?thesis
    by (auto simp: addVerifiedRequest_def validated_Inr put_offer_def Let_def split: if_splits option.splits)
qed (use assms in \<open>auto simp: forget_Inr validated_Inr plain_ops Let_def split: if_splits option.splits\<close>)

text \<open>Pairing requests: only undecided ones change.\<close>

lemma decided_stays:
  assumes "registry_tx sc c s = Inr (u, t, b)"
    and "js_get (ps_pending s) i = Some p" and "pp_status p \<noteq> Pairing_pending"
  shows "js_get (ps_pending t) i = Some p"
proof (cases c)
  case (Rotate_transport p n at)
  with assms show ?thesis
    by (auto simp: rotateGatewayTransport_def validated_Inr rbind_eq_Inr map_devices_def
        split: if_splits option.splits)
next
  case (Record_snapshot n at)
  with assms show ?thesis
    by (auto simp: recordGatewayTransportSnapshot_def validated_Inr rbind_eq_Inr split: if_splits option.splits)
next
  case (Adopt_transport n)
  with assms show ?thesis
    by (auto simp: adoptGatewayTransportForIsolatedDeployment_def validated_Inr rbind_eq_Inr map_devices_def
        split: if_splits option.splits)
next
  case (Update_transport i p n)
  with assms show ?thesis
    by (auto simp: updateGatewayTransport_def validated_Inr rbind_eq_Inr put_device_def Let_def
        split: if_splits option.splits)
next
  case (Attach_grant i g)
  with assms show ?thesis
    by (auto simp: forget_Inr attachWorkspaceGrant_def validated_Inr rbind_eq_Inr put_device_def
        split: if_splits option.splits)
next
  case (Approve i cert response now grant)
  with assms show ?thesis
    by (auto simp: forget_Inr approve_def validated_Inr rbind_eq_Inr Let_def js_get_set split: if_splits option.splits)
next
  case (Prune_offers now retention)
  with assms show ?thesis by (auto simp: forget_Inr pruneOffers_def validated_Inr Let_def split: if_splits)
next
  case (Add_verified_request i p now)
  with assms show ?thesis
    by (auto simp: addVerifiedRequest_def validated_Inr put_offer_def Let_def js_get_set split: if_splits option.splits)
next
  case (Reserve_issued_at now)
  with assms show ?thesis
    by (auto simp: forget_Inr reserveGatewayIssuedAt_def validated_Inr Let_def split: if_splits)
qed (use assms in \<open>auto simp: forget_Inr validated_Inr plain_ops Let_def js_get_set split: if_splits option.splits\<close>)

text \<open>
  Devices: apart from an approval, a call keeps every device with its certificate, and its status
  unless the device is revoked.
\<close>

definition weakened :: "device_record \<Rightarrow> device_record \<Rightarrow> bool" where
  "weakened r r' \<longleftrightarrow> dr_certificate r' = dr_certificate r
     \<and> (dr_status r' = dr_status r \<or> dr_status r' = Device_revoked)"

definition devices_weakened :: "pairing_state \<Rightarrow> pairing_state \<Rightarrow> bool" where
  "devices_weakened s t \<longleftrightarrow> (js_wf (ps_trustedDevices s) \<longrightarrow> js_wf (ps_trustedDevices t))
     \<and> (\<forall>i. rel_option weakened (js_get (ps_trustedDevices s) i) (js_get (ps_trustedDevices t) i))"

lemma devices_same: "ps_trustedDevices t = ps_trustedDevices s \<Longrightarrow> devices_weakened s t"
  by (simp add: devices_weakened_def weakened_def option.rel_refl)

lemma devices_put:
  assumes "js_get (ps_trustedDevices s) i = Some r" and "weakened r r'"
    and "ps_trustedDevices t = js_set i r' (ps_trustedDevices s)"
  shows "devices_weakened s t"
  using assms by (auto simp: devices_weakened_def js_get_set weakened_def option.rel_refl)

lemma devices_map:
  assumes "\<And>r. weakened r (f r)" and "ps_trustedDevices t = map (\<lambda>(i, r). (i, f r)) (ps_trustedDevices s)"
  shows "devices_weakened s t"
proof -
  have "js_get (ps_trustedDevices t) i = map_option f (js_get (ps_trustedDevices s) i)" for i
    unfolding assms(2) by (simp add: map_of_map)
  moreover have "js_keys (ps_trustedDevices t) = js_keys (ps_trustedDevices s)"
    unfolding assms(2) by (simp add: case_prod_beta o_def)
  ultimately show ?thesis using assms(1)
    by (simp add: devices_weakened_def js_wf_def option.rel_map option.rel_refl)
qed

lemma devices_change:
  assumes "registry_tx sc c s = Inr (u, t, b)"
  shows "devices_weakened s t
    \<or> (\<exists>i cert response now grant record. c = Approve i cert response now grant
        \<and> key_conflict s (cert_deviceId cert) cert = Inr ()
        \<and> ps_trustedDevices t = js_set (cert_deviceId cert) record (ps_trustedDevices s)
        \<and> dr_certificate record = cert)"
proof (cases c)
  case (Approve i cert response now grant)
  with assms show ?thesis
    by (auto simp: forget_Inr approve_def validated_Inr rbind_eq_Inr Let_def intro!: disjI2
        split: if_splits option.splits)
next
  case (Rotate_transport p n at)
  with assms have "ps_trustedDevices t = map (\<lambda>(i, r). (i, if dr_status r = Device_active
      then r\<lparr>dr_gatewayTransport := Some n\<rparr> else r)) (ps_trustedDevices s)"
    by (auto simp: rotateGatewayTransport_def validated_Inr rbind_eq_Inr map_devices_def
        split: if_splits option.splits)
  from devices_map [OF _ this] show ?thesis by (auto simp: weakened_def)
next
  case (Adopt_transport n)
  let ?f = "\<lambda>r. r\<lparr>dr_gatewayTransport := rs_transport sc n\<rparr>"
  from assms Adopt_transport have "ps_trustedDevices t = ps_trustedDevices s
      \<or> ps_trustedDevices t = map (\<lambda>(i, r). (i, ?f r)) (ps_trustedDevices s)"
    by (auto simp: adoptGatewayTransportForIsolatedDeployment_def validated_Inr rbind_eq_Inr map_devices_def
        split: if_splits option.splits)
  with devices_same [of t s] devices_map [of ?f t s] show ?thesis by (auto simp: weakened_def)
next
  case (Update_transport i p n)
  with assms obtain r where "js_get (ps_trustedDevices s) i = Some r"
    "ps_trustedDevices t = js_set i (r\<lparr>dr_gatewayTransport := Some n\<rparr>) (ps_trustedDevices s)"
    by (auto simp: updateGatewayTransport_def validated_Inr rbind_eq_Inr put_device_def Let_def
        split: if_splits option.splits)
  then show ?thesis by (intro disjI1 devices_put) (auto simp: weakened_def)
next
  case (Attach_grant i g)
  with assms have "ps_trustedDevices t = ps_trustedDevices s \<or> (\<exists>r. js_get (ps_trustedDevices s) i = Some r \<and>
    ps_trustedDevices t = js_set i (r\<lparr>dr_workspaceGrant := rs_grant sc g\<rparr>) (ps_trustedDevices s))"
    by (auto simp: forget_Inr attachWorkspaceGrant_def validated_Inr rbind_eq_Inr put_device_def
        split: if_splits option.splits)
  then have "devices_weakened s t"
  proof (elim disjE exE conjE)
    fix r
    assume r: "js_get (ps_trustedDevices s) i = Some r"
      "ps_trustedDevices t = js_set i (r\<lparr>dr_workspaceGrant := rs_grant sc g\<rparr>) (ps_trustedDevices s)"
    show ?thesis by (rule devices_put [OF r(1) _ r(2)]) (simp add: weakened_def)
  qed (rule devices_same)
  then show ?thesis ..
next
  case (Revoke i reason now)
  with assms obtain r where r: "js_get (ps_trustedDevices s) i = Some r"
    by (auto simp: revoke_def validated_Inr split: option.splits)
  with assms Revoke have "ps_trustedDevices t = js_set i (r\<lparr>dr_status := Device_revoked, dr_revokedAt := Some now,
      dr_revocationReason := (case reason of Some (c # r) \<Rightarrow> reason | _ \<Rightarrow> dr_revocationReason r)\<rparr>) (ps_trustedDevices s)"
    by (auto simp: revoke_def validated_Inr put_device_def split: if_splits)
  from devices_put [OF r _ this] show ?thesis by (simp add: weakened_def)
next
  case (Record_snapshot n at)
  with assms have "ps_trustedDevices t = ps_trustedDevices s"
    by (auto simp: recordGatewayTransportSnapshot_def validated_Inr rbind_eq_Inr split: if_splits option.splits)
  then show ?thesis by (intro disjI1 devices_same)
next
  case (Prune_offers now retention)
  with assms have "ps_trustedDevices t = ps_trustedDevices s"
    by (auto simp: forget_Inr pruneOffers_def validated_Inr Let_def split: if_splits)
  then show ?thesis by (intro disjI1 devices_same)
next
  case (Add_verified_request i p now)
  with assms have "ps_trustedDevices t = ps_trustedDevices s"
    by (auto simp: addVerifiedRequest_def validated_Inr put_offer_def Let_def split: if_splits option.splits)
  then show ?thesis by (intro disjI1 devices_same)
next
  case (Reserve_issued_at now)
  with assms have "ps_trustedDevices t = ps_trustedDevices s"
    by (auto simp: forget_Inr reserveGatewayIssuedAt_def validated_Inr Let_def split: if_splits)
  then show ?thesis by (intro disjI1 devices_same)
qed (use assms in \<open>auto simp: forget_Inr validated_Inr plain_ops Let_def intro!: devices_same
      split: if_splits option.splits\<close>)

section \<open>Properties\<close>

text \<open>
  C24: timestamps of documents signed with the gateway root key strictly increase. Of two reservations,
  with any registry calls between them and whatever the clock readings are, the later one returns the
  greater timestamp, also when the clock went backwards or the process restarted.
\<close>

theorem reserved_timestamps_increase:
  assumes "at_rest fs"
    and "transaction initialState (reserveGatewayIssuedAt now) fs = (Inr issued, fs1)"
    and "fs2 = registry_run sc calls fs1"
    and "transaction initialState (reserveGatewayIssuedAt now') fs2 = (Inr issued', fs3)"
  shows "issued < issued'"
proof -
  let ?P = "\<lambda>s. issued \<le> or_minus_one (ps_gatewayIssuedAt s)"
  have "\<exists>s. fs1 = holding s \<and> ?P s"
    using assms(2) transaction_on_read [OF at_rest_read [OF assms(1)], of initialState "reserveGatewayIssuedAt now"]
    by (auto simp: reserveGatewayIssuedAt_def validated_Inr Let_def or_minus_one_def split: sum.splits if_splits)
  then obtain s where "fs1 = holding s" "?P s" by blast
  then have "at_rest fs2 \<and> ?P (stored initialState fs2)"
    unfolding assms(3) registry_run_def
    by (intro json_file.runs_invariant) (auto simp: at_rest_def intro: order_trans [OF _ issuedAt_mono])
  then have rest: "at_rest fs2" and "?P (stored initialState fs2)" by auto
  moreover have "latestGatewayIssuedAt (stored initialState fs2) < issued'"
    using assms(4) transaction_on_read [OF at_rest_read [OF rest], of initialState "reserveGatewayIssuedAt now'"]
    by (auto simp: reserveGatewayIssuedAt_def validated_Inr Let_def split: sum.splits if_splits)
  ultimately show ?thesis using latest_ge [of "stored initialState fs2"] by simp
qed

definition sample_schemas :: registry_schemas where
  "sample_schemas = \<lparr>rs_grant = Some, rs_transport = Some\<rparr>"

lemmas registry_eval = reserveGatewayIssuedAt_def validated_def registry_validateState_def bad_timestamp_def
  initialState_def Let_def latestGatewayIssuedAt_def or_minus_one_def isSafeInteger_def max_safe_integer_def
  transaction_def write_state_total registry_run_def

theorem reserved_timestamps_increase_witness:
  "\<exists>fs1 fs3. transaction initialState (reserveGatewayIssuedAt 9) empty_fs = (Inr 9, fs1)
     \<and> transaction initialState (reserveGatewayIssuedAt 4)
         (registry_run sample_schemas [Prune_offers 5 0] fs1) = (Inr 10, fs3) \<and> (9::int) < 10"
proof -
  let ?fs1 = "snd (transaction initialState (reserveGatewayIssuedAt 9) empty_fs)"
  let ?fs2 = "registry_run sample_schemas [Prune_offers 5 0] ?fs1"
  have 1: "transaction initialState (reserveGatewayIssuedAt 9) empty_fs = (Inr 9, ?fs1)"
    by (simp add: registry_eval)
  have 2: "transaction initialState (reserveGatewayIssuedAt 4) ?fs2
      = (Inr 10, snd (transaction initialState (reserveGatewayIssuedAt 4) ?fs2))"
    by (simp add: registry_eval pruneOffers_def expire_due_def forget_def)
  have "at_rest (empty_fs :: pairing_state fs)" by (simp add: at_rest_def)
  from reserved_timestamps_increase [OF this 1 refl 2] 1 2 show ?thesis by blast
qed

text \<open>The device table: every record is stored under its device, and active devices have different keys.\<close>

definition devices_inv :: "pairing_state \<Rightarrow> bool" where
  "devices_inv s \<longleftrightarrow> js_wf (ps_trustedDevices s)
   \<and> (\<forall>i r. js_get (ps_trustedDevices s) i = Some r \<longrightarrow> cert_deviceId (dr_certificate r) = i)
   \<and> (\<forall>i j r r'. js_get (ps_trustedDevices s) i = Some r \<longrightarrow> js_get (ps_trustedDevices s) j = Some r' \<longrightarrow>
        dr_status r = Device_active \<longrightarrow> dr_status r' = Device_active \<longrightarrow>
        cert_keyId (dr_certificate r) = cert_keyId (dr_certificate r') \<longrightarrow> i = j)"

lemma weakened_back:
  assumes "devices_weakened s t" and "js_get (ps_trustedDevices t) i = Some r'"
  obtains r where "js_get (ps_trustedDevices s) i = Some r" "weakened r r'"
  using assms by (auto simp: devices_weakened_def option_rel_Some2 dest!: spec [of _ i])

lemma weakened_active: "weakened r r' \<Longrightarrow> dr_status r' = Device_active \<Longrightarrow> dr_status r = Device_active"
  by (auto simp: weakened_def)

lemma key_conflict_none:
  assumes "key_conflict s d cert = Inr ()" and "js_get (ps_trustedDevices s) j = Some r"
    and "dr_status r = Device_active" and "cert_keyId (dr_certificate r) = cert_keyId cert"
  shows "cert_deviceId (dr_certificate r) = d"
  using assms js_get_mem [OF assms(2)]
  by (force simp: key_conflict_def rbind_eq_Inr list_ex_iff split: if_splits)

lemma devices_inv_step:
  assumes inv: "devices_inv s" and tx: "registry_tx sc c s = Inr (u, t, b)"
  shows "devices_inv t"
  using devices_change [OF tx]
proof
  assume w: "devices_weakened s t"
  show ?thesis
    unfolding devices_inv_def
  proof (intro conjI allI impI)
    show "js_wf (ps_trustedDevices t)" using w inv by (simp add: devices_weakened_def devices_inv_def)
    fix i r
    assume r: "js_get (ps_trustedDevices t) i = Some r"
    obtain q where q: "js_get (ps_trustedDevices s) i = Some q" "weakened q r" by (rule weakened_back [OF w r])
    with inv show "cert_deviceId (dr_certificate r) = i" by (simp add: devices_inv_def weakened_def)
    fix j r'
    assume r': "js_get (ps_trustedDevices t) j = Some r'" and act: "dr_status r = Device_active"
      "dr_status r' = Device_active" and key: "cert_keyId (dr_certificate r) = cert_keyId (dr_certificate r')"
    obtain q' where q': "js_get (ps_trustedDevices s) j = Some q'" "weakened q' r'" by (rule weakened_back [OF w r'])
    from q(2) q'(2) act key have "dr_status q = Device_active" "dr_status q' = Device_active"
      "cert_keyId (dr_certificate q) = cert_keyId (dr_certificate q')" by (auto simp: weakened_def)
    with inv q(1) q'(1) show "i = j" unfolding devices_inv_def by blast
  qed
next
  assume "\<exists>i cert response now grant record. c = Approve i cert response now grant
        \<and> key_conflict s (cert_deviceId cert) cert = Inr ()
        \<and> ps_trustedDevices t = js_set (cert_deviceId cert) record (ps_trustedDevices s)
        \<and> dr_certificate record = cert"
  then obtain cert rc where k: "key_conflict s (cert_deviceId cert) cert = Inr ()"
    and t: "ps_trustedDevices t = js_set (cert_deviceId cert) rc (ps_trustedDevices s)"
    and rc: "dr_certificate rc = cert" by blast
  have other: "j = cert_deviceId cert"
    if "js_get (ps_trustedDevices s) j = Some r" "dr_status r = Device_active"
      "cert_keyId (dr_certificate r) = cert_keyId cert" for j r
    using key_conflict_none [OF k that] inv that(1) by (simp add: devices_inv_def)
  show ?thesis using inv rc other unfolding devices_inv_def t
    by (auto simp: js_get_set split: if_splits)
qed

text \<open>
  C25: no two active devices share an application key. Starting from a registry in which active devices
  have pairwise different keys and records stand under their own device ids, every sequence of registry
  calls, failing or not, leaves such a registry.
\<close>

theorem active_device_keys_unique:
  assumes "at_rest fs" and "devices_inv (stored initialState fs)"
  shows "devices_inv (stored initialState (registry_run sc calls fs))"
proof -
  have "at_rest (registry_run sc calls fs) \<and> devices_inv (stored initialState (registry_run sc calls fs))"
    unfolding registry_run_def
    by (rule json_file.runs_invariant [where P = devices_inv, OF assms]) (auto intro: devices_inv_step)
  then show ?thesis ..
qed

definition sample_certificate :: "string \<Rightarrow> string \<Rightarrow> json" where
  "sample_certificate device key = JObj [(''certificate'', JObj [(''deviceId'', JStr device),
     (''deviceKey'', JObj [(''keyId'', JStr key)]), (''gatewayTransport'', JObj []), (''issuedAt'', JNum 1)])]"

definition sample_offer :: "string \<Rightarrow> json" where
  "sample_offer i = JObj [(''offer'', JObj [(''offerId'', JStr i), (''issuedAt'', JNum 1), (''expiresAt'', JNum 9)])]"

definition sample_request_of :: "string \<Rightarrow> pending_pairing" where
  "sample_request_of i = \<lparr>pp_request = JObj [(''request'', JObj [(''requestId'', JStr i)])], pp_verificationCode = ''1'',
     pp_receivedAt = 1, pp_status = Pairing_pending, pp_decidedAt = None, pp_response = None\<rparr>"

text \<open>
  Two devices pair. The approval of the second one with the application key of the first is refused, and
  its approval with a key of its own succeeds.
\<close>

definition two_pairings :: "registry_call list" where
  "two_pairings = [Add_offer (sample_offer ''o1'') None, Add_offer (sample_offer ''o2'') None,
     Add_verified_request ''o1'' (sample_request_of ''r1'') 2, Add_verified_request ''o2'' (sample_request_of ''r2'') 3,
     Approve ''r1'' (sample_certificate ''d1'' ''k'') (JObj []) 5 None,
     Approve ''r2'' (sample_certificate ''d2'' ''k'') (JObj []) 6 None,
     Approve ''r2'' (sample_certificate ''d2'' ''l'') (JObj []) 7 None]"

lemma two_pairings_devices:
  "map (\<lambda>(i, r). (i, dr_status r, cert_keyId (dr_certificate r), dr_activatedAt r))
     (ps_trustedDevices (stored initialState (registry_run sample_schemas two_pairings empty_fs)))
   = [(''d1'', Device_active, ''k'', 5), (''d2'', Device_active, ''l'', 7)]"
  by code_simp

theorem active_device_keys_unique_witness:
  "devices_inv (stored initialState (registry_run sample_schemas two_pairings empty_fs))
   \<and> map (\<lambda>(i, r). (i, dr_status r, cert_keyId (dr_certificate r), dr_activatedAt r))
       (ps_trustedDevices (stored initialState (registry_run sample_schemas two_pairings empty_fs)))
     = [(''d1'', Device_active, ''k'', 5), (''d2'', Device_active, ''l'', 7)]"
proof
  show "devices_inv (stored initialState (registry_run sample_schemas two_pairings empty_fs))"
    by (rule active_device_keys_unique) (simp_all add: devices_inv_def initialState_def js_wf_def)
qed (rule two_pairings_devices)

fun approves_device :: "string \<Rightarrow> registry_call \<Rightarrow> bool" where
  "approves_device d (Approve i cert response now grant) \<longleftrightarrow> cert_deviceId cert = d"
| "approves_device d _ \<longleftrightarrow> False"

text \<open>
  C26: decisions are final. Through any registry calls, a pairing request that was approved or denied
  keeps its record, decision time and response; and a revoked device stays revoked, and is never
  listed as active, unless a new pairing for that device is approved.
\<close>

theorem registry_decisions_final:
  assumes "at_rest fs" and "fs' = registry_run sc calls fs"
    and "js_get (ps_pending (stored initialState fs)) requestId = Some p" and "pp_status p \<noteq> Pairing_pending"
    and "js_get (ps_trustedDevices (stored initialState fs)) deviceId = Some r" and "dr_status r = Device_revoked"
    and "devices_inv (stored initialState fs)"
    and "\<forall>c\<in>set calls. \<not> approves_device deviceId c"
  shows "js_get (ps_pending (stored initialState fs')) requestId = Some p
    \<and> (\<exists>r'. js_get (ps_trustedDevices (stored initialState fs')) deviceId = Some r' \<and> dr_status r' = Device_revoked)
    \<and> (\<forall>active. fst (transaction initialState (listActive now) fs') = Inr active \<longrightarrow>
         (\<forall>record\<in>set active. cert_deviceId (dr_certificate record) \<noteq> deviceId))"
proof -
  let ?P = "\<lambda>s. js_get (ps_pending s) requestId = Some p \<and> devices_inv s
    \<and> (\<exists>r'. js_get (ps_trustedDevices s) deviceId = Some r' \<and> dr_status r' = Device_revoked)"
  have "at_rest fs' \<and> ?P (stored initialState fs')"
    unfolding assms(2) registry_run_def
  proof (rule json_file.runs_invariant [where P = ?P, OF assms(1)])
    show "?P (stored initialState fs)" using assms(3,5-7) by blast
    fix f s u t
    assume f: "f \<in> set (map (registry_tx sc) calls)" and s: "?P s" and "f s = Inr (u, t, True)"
    then obtain c where c: "c \<in> set calls" "registry_tx sc c s = Inr (u, t, True)" by auto
    from s obtain r0 where r0: "js_get (ps_trustedDevices s) deviceId = Some r0" "dr_status r0 = Device_revoked" by blast
    have "\<exists>r'. js_get (ps_trustedDevices t) deviceId = Some r' \<and> dr_status r' = Device_revoked"
      using devices_change [OF c(2)]
    proof
      assume "devices_weakened s t"
      then have "rel_option weakened (js_get (ps_trustedDevices s) deviceId) (js_get (ps_trustedDevices t) deviceId)"
        by (simp add: devices_weakened_def)
      with r0 show ?thesis by (auto simp: option_rel_Some1 weakened_def)
    qed (use c(1) assms(8) r0 in \<open>fastforce simp: js_get_set\<close>)
    moreover have "js_get (ps_pending t) requestId = Some p"
      by (rule decided_stays [OF c(2) _ assms(4)]) (use s in simp)
    moreover have "devices_inv t" by (rule devices_inv_step [OF _ c(2)]) (use s in simp)
    ultimately show "?P t" by blast
  qed
  then have rest: "at_rest fs'" and p: "js_get (ps_pending (stored initialState fs')) requestId = Some p"
    and inv: "devices_inv (stored initialState fs')"
    and r: "\<exists>r'. js_get (ps_trustedDevices (stored initialState fs')) deviceId = Some r' \<and> dr_status r' = Device_revoked"
    by auto
  have "cert_deviceId (dr_certificate rc) \<noteq> deviceId"
    if "fst (transaction initialState (listActive now) fs') = Inr active" "rc \<in> set active" for active rc
  proof
    assume d: "cert_deviceId (dr_certificate rc) = deviceId"
    from that transaction_on_read [OF at_rest_read [OF rest], of initialState "listActive now"]
    have rc: "dr_status rc = Device_active" "rc \<in> set (js_values (ps_trustedDevices (stored initialState fs')))"
      by (auto simp: listActive_def validated_Inr split: sum.splits)
    then obtain j where "(j, rc) \<in> set (ps_trustedDevices (stored initialState fs'))" by auto
    with inv have j: "js_get (ps_trustedDevices (stored initialState fs')) j = Some rc"
      by (auto simp: devices_inv_def intro: js_mem_get)
    with inv d have "j = deviceId" by (auto simp: devices_inv_def)
    with j r rc(1) show False by auto
  qed
  with p r show ?thesis by blast
qed

definition sample_denied :: pending_pairing where
  "sample_denied = \<lparr>pp_request = JObj [], pp_verificationCode = ''1'', pp_receivedAt = 1,
     pp_status = Pairing_denied, pp_decidedAt = Some 2, pp_response = None\<rparr>"

definition sample_revoked :: device_record where
  "sample_revoked = \<lparr>dr_status = Device_revoked, dr_certificate = sample_certificate ''d1'' ''k'',
     dr_workspaceGrant = None, dr_gatewayTransport = None, dr_activatedAt = 1, dr_revokedAt = Some 2,
     dr_revocationReason = None\<rparr>"

definition sample_registry :: pairing_state where
  "sample_registry = initialState\<lparr>ps_pending := [(''r1'', sample_denied)],
     ps_trustedDevices := [(''d1'', sample_revoked)]\<rparr>"

definition sample_approval :: registry_call where
  "sample_approval = Approve ''r1'' (sample_certificate ''d2'' ''k'') (JObj []) 5 None"

lemma sample_device [simp]: "cert_deviceId (sample_certificate d k) = d"
  by (simp add: cert_deviceId_def cert_doc_def sample_certificate_def jprop_def text_of_def)

theorem registry_decisions_final_witness:
  "js_get (ps_pending (stored initialState (registry_run sample_schemas [sample_approval] (holding sample_registry)))) ''r1''
      = Some sample_denied
    \<and> (\<exists>r'. js_get (ps_trustedDevices (stored initialState (registry_run sample_schemas [sample_approval]
          (holding sample_registry)))) ''d1'' = Some r' \<and> dr_status r' = Device_revoked)"
proof -
  have inv: "devices_inv (stored initialState (holding sample_registry))"
    by (simp add: devices_inv_def sample_registry_def sample_revoked_def js_wf_def)
  have calls: "\<forall>c\<in>set [sample_approval]. \<not> approves_device ''d1'' c" by (simp add: sample_approval_def)
  have p: "js_get (ps_pending (stored initialState (holding sample_registry))) ''r1'' = Some sample_denied"
    "pp_status sample_denied \<noteq> Pairing_pending"
    by (simp_all add: sample_registry_def sample_denied_def)
  have r: "js_get (ps_trustedDevices (stored initialState (holding sample_registry))) ''d1'' = Some sample_revoked"
    "dr_status sample_revoked = Device_revoked"
    by (simp_all add: sample_registry_def sample_revoked_def)
  from registry_decisions_final [OF _ refl p r inv calls, of sample_schemas] show ?thesis by simp
qed

end
