(* ===== verification/Execution_Tracks.thy ===== *)
theory Execution_Tracks
  imports Atomic_Json_File Mlp3_Schema
begin

text \<open>
  Model of \<open>GatewayExecutionTracks\<close> (\<open>src/ops/gatewayExecutionTracks.ts\<close>): the supervisor's durable
  handoff of one business data directory between gateway releases.

  A world has the state file, the releases that currently execute on the data directory, and the
  outcomes of the coming calls (an exhausted list stands for success). Every host call and every file
  transaction takes one outcome: it succeeds, fails before or after its effect, or the supervisor dies
  before or after its effect; only failures are caught by \<open>try\<close>. The host is an interface of the source:
  \<open>releaseExecution\<close> ends the execution of a release, \<open>activate\<close> starts it, and no other call changes
  who executes. \<open>activate\<close> has to take the data-directory lock, so it refuses while another release
  executes (\<open>tc_exclusive\<close>). That lock excludes only as long as no stale judgement removes it
  (\<open>Directory_Lock\<close>); a host without the refusal is covered as well, so that single execution is shown to
  rest on the order of the controller's own calls. Operations are serialized by the controller lock, so
  each is one step.
\<close>

lemma pred_option_code [code]:
  "pred_option P None = True"
  "pred_option P (Some x) = P x"
  by simp_all

section \<open>State\<close>

datatype track_phase = Steady | Releasing | Activating | Attention

record tracks_state =
  ts_gatewayNodeId :: string
  ts_dataDirectory :: string
  ts_generation :: int
  ts_activeRelease :: string
  ts_standbyRelease :: "string option"
  ts_phase :: track_phase
  ts_targetRelease :: "string option"
  ts_forwardOnly :: bool
  ts_backupPath :: "string option"
  ts_targetWriteStarted :: bool
  ts_error :: "string option"
  ts_updatedAt :: "int option"

datatype host_outcome = Host_ok | Host_fails string | Host_fails_after string | Host_reload | Host_dies | Host_dies_after

record track_world =
  tw_file :: "tracks_state fs"
  tw_owners :: "string list" \<comment> \<open>releases executing on the data directory\<close>
  tw_outcomes :: "host_outcome list"
  tw_state :: tracks_state \<comment> \<open>the local variable \<open>state\<close> of the running operation\<close>

text \<open>What the supervisor is constructed with, and which optional methods the host has.\<close>

record tracks_config =
  tc_initial :: tracks_state
  tc_forward :: bool \<comment> \<open>\<open>validateForwardRelease\<close>, \<open>backupStoppedState\<close> and \<open>prepareForwardHost\<close>\<close>
  tc_retireStandby :: bool
  tc_backup :: string \<comment> \<open>the path \<open>backupStoppedState\<close> returns\<close>
  tc_exclusive :: bool \<comment> \<open>the lock that \<open>activate\<close> takes excludes other releases\<close>

datatype tracks_error =
    Tracks_schema_error
  | Identity_changed
  | Target_missing
  | Metadata_without_forward
  | Selection_changed
  | Handoff_running
  | Older_reader
  | Unresolved_handoff
  | Host_needs_upgrade
  | Cannot_replace_standby
  | Handoff_changed
  | Host_not_capable
  | Backup_missing
  | Generation_changed
  | Host_error string
  | Store_failed

fun track_error_message :: "tracks_error \<Rightarrow> string" where
  "track_error_message Tracks_schema_error = ''schema''"
| "track_error_message Identity_changed = ''Execution tracks cannot change Gateway identity or business data directory''"
| "track_error_message Target_missing = ''Execution handoff target is missing''"
| "track_error_message Metadata_without_forward = ''Forward-only recovery metadata cannot grant compatible rollback''"
| "track_error_message Selection_changed = ''Version selection changed; refresh before selecting again''"
| "track_error_message Handoff_running = ''An execution handoff is still running''"
| "track_error_message Older_reader = ''Incompatible upgrade cannot switch to an older reader; retry the target or use local backup recovery''"
| "track_error_message Unresolved_handoff = ''Resolve the interrupted handoff before adding another version''"
| "track_error_message Host_needs_upgrade = ''This Host must be upgraded locally before it can perform an incompatible upgrade''"
| "track_error_message Cannot_replace_standby = ''Host cannot safely replace the previous standby''"
| "track_error_message Handoff_changed = ''Execution handoff already changed''"
| "track_error_message Host_not_capable = ''Incompatible upgrade requires a capable Host; use local recovery''"
| "track_error_message Backup_missing = ''Original backup is missing; refusing to back up already-upgraded data''"
| "track_error_message Generation_changed = ''Execution handoff generation changed''"
| "track_error_message (Host_error message) = message"
| "track_error_message Store_failed = ''Security state file is invalid''"

section \<open>Operations that throw, and the death of the supervisor\<close>

datatype 'a outcome = Done 'a | Threw tracks_error | Died

type_synonym 'a track_op = "track_world \<Rightarrow> 'a outcome \<times> track_world"

definition tbind :: "'a track_op \<Rightarrow> ('a \<Rightarrow> 'b track_op) \<Rightarrow> 'b track_op" where
  "tbind m f w = (case m w of (Done a, w') \<Rightarrow> f a w' | (Threw e, w') \<Rightarrow> (Threw e, w') | (Died, w') \<Rightarrow> (Died, w'))"

definition tcatch :: "'a track_op \<Rightarrow> (tracks_error \<Rightarrow> 'a track_op) \<Rightarrow> 'a track_op" where
  "tcatch m h w = (case m w of (Threw e, w') \<Rightarrow> h e w' | (Done a, w') \<Rightarrow> (Done a, w') | (Died, w') \<Rightarrow> (Died, w'))"

definition treturn :: "'a \<Rightarrow> 'a track_op" where
  "treturn a w = (Done a, w)"

definition tthrow :: "tracks_error \<Rightarrow> 'a track_op" where
  "tthrow e w = (Threw e, w)"

definition tguard :: "bool \<Rightarrow> tracks_error \<Rightarrow> unit track_op" where
  "tguard b e = (if b then tthrow e else treturn ())"

definition get_state :: "tracks_state track_op" where
  "get_state w = (Done (tw_state w), w)"

definition set_state :: "(tracks_state \<Rightarrow> tracks_state) \<Rightarrow> unit track_op" where
  "set_state f w = (Done (), w\<lparr>tw_state := f (tw_state w)\<rparr>)"

section \<open>The host\<close>

definition call :: "'a track_op \<Rightarrow> 'a track_op" where
  "call m w =
     (case tw_outcomes w of
        [] \<Rightarrow> m w
      | x # xs \<Rightarrow> (let w1 = w\<lparr>tw_outcomes := xs\<rparr> in (case x of
          Host_ok \<Rightarrow> m w1
        | Host_reload \<Rightarrow> m w1
        | Host_fails e \<Rightarrow> (Threw (Host_error e), w1)
        | Host_fails_after e \<Rightarrow> (Threw (Host_error e), snd (m w1))
        | Host_dies \<Rightarrow> (Died, w1)
        | Host_dies_after \<Rightarrow> (Died, snd (m w1)))))"

definition host_call :: "(string list \<Rightarrow> string list) \<Rightarrow> unit track_op" where
  "host_call eff = call (\<lambda>w. (Done (), w\<lparr>tw_owners := eff (tw_owners w)\<rparr>))"

definition host_validateRelease :: "string \<Rightarrow> unit track_op" where
  "host_validateRelease r = host_call id"

definition host_validateForwardRelease :: "string \<Rightarrow> unit track_op" where
  "host_validateForwardRelease r = host_call id"

definition host_ensureStandby :: "string \<Rightarrow> unit track_op" where
  "host_ensureStandby r = host_call id"

definition host_retireStandby :: "string \<Rightarrow> unit track_op" where
  "host_retireStandby r = host_call id"

definition host_backupStoppedState :: "tracks_config \<Rightarrow> string track_op" where
  "host_backupStoppedState cfg = tbind (host_call id) (\<lambda>_. treturn (tc_backup cfg))"

text \<open>\<open>prepareForwardHost\<close> returns false when it asked for a durable reload of the host.\<close>

definition host_prepareForwardHost :: "bool track_op" where
  "host_prepareForwardHost w = tbind (host_call id)
     (\<lambda>_. treturn (case tw_outcomes w of x # _ \<Rightarrow> x \<noteq> Host_reload | [] \<Rightarrow> True)) w"

definition host_releaseExecution :: "string \<Rightarrow> unit track_op" where
  "host_releaseExecution r = host_call (removeAll r)"

text \<open>\<open>activate\<close> is idempotent and acquires the data-directory lock.\<close>

definition host_activate :: "tracks_config \<Rightarrow> string \<Rightarrow> unit track_op" where
  "host_activate cfg r = call (\<lambda>w.
     if tc_exclusive cfg \<and> \<not> set (tw_owners w) \<subseteq> {r}
     then (Threw (Host_error ''Another Malink Gateway process already owns the data directory''), w)
     else (Done (), w\<lparr>tw_owners := List.insert r (tw_owners w)\<rparr>))"

definition host_verifyActive :: "string \<Rightarrow> unit track_op" where
  "host_verifyActive r = host_call id"

section \<open>Validation and the file\<close>

definition tracks_schema_ok :: "tracks_state \<Rightarrow> bool" where
  "tracks_schema_ok s \<longleftrightarrow> ts_gatewayNodeId s \<noteq> [] \<and> ts_dataDirectory s \<noteq> [] \<and> isSafeInteger (ts_generation s) \<and> 0 \<le> ts_generation s
     \<and> releaseId_regex (ts_activeRelease s)
     \<and> pred_option releaseId_regex (ts_standbyRelease s) \<and> pred_option releaseId_regex (ts_targetRelease s)
     \<and> ts_backupPath s \<noteq> Some [] \<and> pred_option (\<lambda>t. isSafeInteger t \<and> 0 \<le> t) (ts_updatedAt s)"

definition tracks_validate :: "tracks_config \<Rightarrow> tracks_state \<Rightarrow> (tracks_error, tracks_state) result" where
  "tracks_validate cfg s =
     (if \<not> tracks_schema_ok s then Inl Tracks_schema_error
      else if ts_gatewayNodeId s \<noteq> ts_gatewayNodeId (tc_initial cfg)
        \<or> ts_dataDirectory s \<noteq> ts_dataDirectory (tc_initial cfg) then Inl Identity_changed
      else if ts_phase s \<noteq> Steady \<and> ts_targetRelease s = None then Inl Target_missing
      else if (ts_backupPath s \<noteq> None \<or> ts_targetWriteStarted s) \<and> \<not> ts_forwardOnly s
        then Inl Metadata_without_forward
      else Inr s)"

definition file_tx :: "tracks_config \<Rightarrow> (tracks_error, tracks_state, 'r) tx \<Rightarrow> 'r track_op" where
  "file_tx cfg f = call (\<lambda>w.
     (case transaction (tc_initial cfg) f (tw_file w) of
        (Inl (Inl e), fs) \<Rightarrow> (Threw Store_failed, w\<lparr>tw_file := fs\<rparr>)
      | (Inl (Inr e), fs) \<Rightarrow> (Threw e, w\<lparr>tw_file := fs\<rparr>)
      | (Inr r, fs) \<Rightarrow> (Done r, w\<lparr>tw_file := fs\<rparr>)))"

definition tracks_status :: "tracks_config \<Rightarrow> tracks_state track_op" where
  "tracks_status cfg = file_tx cfg (\<lambda>raw. rbind (tracks_validate cfg raw) (\<lambda>s. Inr (s, raw, False)))"

text \<open>\<open>save(next)\<close> stamps its argument; the stamped state is the result.\<close>

definition tracks_save :: "tracks_config \<Rightarrow> int \<Rightarrow> tracks_state \<Rightarrow> tracks_state track_op" where
  "tracks_save cfg now next0 =
     (let next = next0\<lparr>ts_updatedAt := Some now\<rparr> in
      case tracks_validate cfg next of
        Inl e \<Rightarrow> tthrow e
      | Inr _ \<Rightarrow> file_tx cfg (\<lambda>raw. rbind (tracks_validate cfg raw) (\<lambda>current.
          if ts_generation current \<noteq> ts_generation next then Inl Generation_changed
          else Inr (next, next, True))))"

text \<open>\<open>save(state)\<close> on the local variable, which keeps the stamp also when the write throws.\<close>

definition save_local :: "tracks_config \<Rightarrow> int \<Rightarrow> unit track_op" where
  "save_local cfg now =
     tbind (set_state (\<lambda>s. s\<lparr>ts_updatedAt := Some now\<rparr>)) (\<lambda>_.
     tbind get_state (\<lambda>s. tbind (tracks_save cfg now s) (\<lambda>_. treturn ())))"

section \<open>Operations\<close>

definition standby_error :: "tracks_error \<Rightarrow> string" where
  "standby_error e = ''The default version is running, but the previous version is unavailable: '' @ track_error_message e"

definition prepareOptionalStandby :: "tracks_config \<Rightarrow> int \<Rightarrow> tracks_state \<Rightarrow> tracks_state track_op" where
  "prepareOptionalStandby cfg now s =
     (case ts_standbyRelease s of
        None \<Rightarrow> treturn s
      | Some r \<Rightarrow>
          tbind (tcatch (tbind (host_ensureStandby r) (\<lambda>_. treturn (s\<lparr>ts_error := None\<rparr>)))
                  (\<lambda>e. treturn (s\<lparr>ts_error := Some (standby_error e)\<rparr>))) (tracks_save cfg now))"

definition validate_target :: "tracks_config \<Rightarrow> tracks_state \<Rightarrow> string \<Rightarrow> unit track_op" where
  "validate_target cfg s target =
     tbind (tguard (ts_forwardOnly s \<and> \<not> tc_forward cfg) Host_not_capable) (\<lambda>_.
     if ts_forwardOnly s then host_validateForwardRelease target else host_validateRelease target)"

text \<open>The forward-only part of \<open>complete\<close>; False when the host asked to be reloaded first.\<close>

definition forward_part :: "tracks_config \<Rightarrow> int \<Rightarrow> bool track_op" where
  "forward_part cfg now = tbind get_state (\<lambda>s.
     if \<not> ts_forwardOnly s then treturn True
     else
       tbind (if ts_backupPath s \<noteq> None then treturn ()
              else tbind (tguard (ts_targetWriteStarted s) Backup_missing) (\<lambda>_.
                   tbind (host_backupStoppedState cfg) (\<lambda>path.
                   tbind (set_state (\<lambda>s. s\<lparr>ts_backupPath := Some path\<rparr>)) (\<lambda>_. save_local cfg now)))) (\<lambda>_.
       tbind host_prepareForwardHost (\<lambda>prepared.
       if \<not> prepared then treturn False
       else tbind (set_state (\<lambda>s. s\<lparr>ts_targetWriteStarted := True, ts_standbyRelease := None\<rparr>)) (\<lambda>_.
            tbind (save_local cfg now) (\<lambda>_. treturn True)))))"

definition completed_state :: "tracks_state \<Rightarrow> string \<Rightarrow> tracks_state" where
  "completed_state s target =
     \<lparr>ts_gatewayNodeId = ts_gatewayNodeId s, ts_dataDirectory = ts_dataDirectory s,
      ts_generation = ts_generation s, ts_activeRelease = target,
      ts_standbyRelease = (if ts_forwardOnly s then None
        else if target \<noteq> ts_activeRelease s then Some (ts_activeRelease s) else ts_standbyRelease s),
      ts_phase = Steady, ts_targetRelease = None,
      ts_forwardOnly = ts_forwardOnly s,
      ts_backupPath = (if ts_forwardOnly s then ts_backupPath s else None),
      ts_targetWriteStarted = ts_forwardOnly s, ts_error = None, ts_updatedAt = None\<rparr>"

definition fail_attention :: "tracks_config \<Rightarrow> int \<Rightarrow> (tracks_state \<Rightarrow> tracks_state) \<Rightarrow> tracks_error \<Rightarrow> 'a track_op" where
  "fail_attention cfg now f e =
     tbind (set_state (\<lambda>s. f (s\<lparr>ts_phase := Attention, ts_error := Some (track_error_message e)\<rparr>))) (\<lambda>_.
     tbind (save_local cfg now) (\<lambda>_. tthrow e))"

definition activate_target :: "tracks_config \<Rightarrow> int \<Rightarrow> string \<Rightarrow> tracks_state track_op" where
  "activate_target cfg now target =
     tbind (set_state (\<lambda>s. s\<lparr>ts_phase := Activating\<rparr>)) (\<lambda>_.
     tbind (save_local cfg now) (\<lambda>_.
     tbind (host_activate cfg target) (\<lambda>_.
     tbind (host_verifyActive target) (\<lambda>_.
     tbind get_state (\<lambda>s.
     tbind (tracks_save cfg now (completed_state s target)) (\<lambda>completed.
     prepareOptionalStandby cfg now completed))))))"

definition tracks_complete :: "tracks_config \<Rightarrow> int \<Rightarrow> tracks_state \<Rightarrow> tracks_state track_op" where
  "tracks_complete cfg now s0 =
     (case ts_targetRelease s0 of
        None \<Rightarrow> tthrow Target_missing
      | Some target \<Rightarrow>
          tbind (set_state (\<lambda>_. s0)) (\<lambda>_.
          tcatch
            (tbind (validate_target cfg s0 target) (\<lambda>_.
             tbind (host_releaseExecution (ts_activeRelease s0)) (\<lambda>_.
             tbind (host_releaseExecution target) (\<lambda>_.
             tbind (forward_part cfg now) (\<lambda>proceed.
             if \<not> proceed then get_state else activate_target cfg now target)))))
            (fail_attention cfg now id)))"

definition requested :: "string \<Rightarrow> bool \<Rightarrow> int \<Rightarrow> tracks_state \<Rightarrow> tracks_state" where
  "requested releaseId allowForwardOnly now raw =
     raw\<lparr>ts_generation := ts_generation raw + 1, ts_updatedAt := Some now,
         ts_activeRelease := (if ts_phase raw = Attention \<and> releaseId = ts_activeRelease raw
           then the (ts_targetRelease raw) else ts_activeRelease raw),
         ts_targetRelease := Some releaseId, ts_phase := Releasing,
         ts_forwardOnly := allowForwardOnly, ts_backupPath := None, ts_targetWriteStarted := False,
         ts_error := None\<rparr>"

text \<open>The last part of \<open>requestSelection\<close>: prepare the host, persist the intent, hand over.\<close>

definition begin_handoff ::
  "tracks_config \<Rightarrow> int \<Rightarrow> string \<Rightarrow> int \<Rightarrow> bool \<Rightarrow> bool \<Rightarrow> tracks_state \<Rightarrow> tracks_state track_op" where
  "begin_handoff cfg now releaseId generation deferred allowForwardOnly current =
     tbind (tguard (allowForwardOnly \<and> \<not> tc_forward cfg) Host_needs_upgrade) (\<lambda>_.
     tbind (if allowForwardOnly then host_validateForwardRelease releaseId else host_validateRelease releaseId) (\<lambda>_.
     tbind (if ts_phase current = Steady \<and> ts_standbyRelease current \<noteq> None
              \<and> ts_standbyRelease current \<noteq> Some releaseId
            then tbind (tguard (\<not> tc_retireStandby cfg) Cannot_replace_standby)
              (\<lambda>_. host_retireStandby (the (ts_standbyRelease current)))
            else treturn ()) (\<lambda>_.
     tbind (host_ensureStandby releaseId) (\<lambda>_.
     tbind (file_tx cfg (\<lambda>raw. rbind (tracks_validate cfg raw) (\<lambda>s.
         if ts_generation s \<noteq> generation \<or> ts_phase s \<noteq> ts_phase current then Inl Handoff_changed
         else (let next = requested releaseId allowForwardOnly now raw in Inr (next, next, True))))) (\<lambda>intent.
     if deferred then treturn intent else tracks_complete cfg now intent)))))"

definition requestSelection ::
  "tracks_config \<Rightarrow> int \<Rightarrow> string \<Rightarrow> int \<Rightarrow> bool \<Rightarrow> bool \<Rightarrow> tracks_state track_op" where
  "requestSelection cfg now releaseId generation deferred allowForwardOnly =
     tbind (tguard (\<not> releaseId_regex releaseId) Tracks_schema_error) (\<lambda>_.
     tbind (tracks_status cfg) (\<lambda>current.
     tbind (tguard (ts_generation current \<noteq> generation) Selection_changed) (\<lambda>_.
     tbind (tguard (ts_phase current \<noteq> Steady \<and> ts_phase current \<noteq> Attention) Handoff_running) (\<lambda>_.
     if ts_phase current = Attention \<and> ts_forwardOnly current then
       tbind (tguard (Some releaseId \<noteq> ts_targetRelease current) Older_reader) (\<lambda>_.
       if deferred then treturn current else tracks_complete cfg now current)
     else
       tbind (tguard (ts_phase current = Attention \<and> releaseId \<noteq> ts_activeRelease current
         \<and> Some releaseId \<noteq> ts_targetRelease current \<and> Some releaseId \<noteq> ts_standbyRelease current)
         Unresolved_handoff) (\<lambda>_.
       if releaseId = ts_activeRelease current \<and> ts_phase current = Steady then treturn current
       else begin_handoff cfg now releaseId generation deferred allowForwardOnly current)))))"

text \<open>\<open>select\<close> hands over at once, \<open>scheduleSelection\<close> persists the intent for a later \<open>resume\<close>.\<close>

definition tracks_select :: "tracks_config \<Rightarrow> int \<Rightarrow> string \<Rightarrow> int \<Rightarrow> tracks_state track_op" where
  "tracks_select cfg now releaseId generation = requestSelection cfg now releaseId generation False False"

definition scheduleSelection :: "tracks_config \<Rightarrow> int \<Rightarrow> string \<Rightarrow> int \<Rightarrow> bool \<Rightarrow> tracks_state track_op" where
  "scheduleSelection cfg now releaseId generation allowForwardOnly =
     requestSelection cfg now releaseId generation True allowForwardOnly"

definition tracks_resume :: "tracks_config \<Rightarrow> int \<Rightarrow> tracks_state track_op" where
  "tracks_resume cfg now = tbind (tracks_status cfg) (\<lambda>s.
     if ts_phase s = Steady then treturn s else tracks_complete cfg now s)"

definition start_attempt :: "tracks_config \<Rightarrow> int \<Rightarrow> string \<Rightarrow> unit track_op" where
  "start_attempt cfg now r =
     tcatch
       (tbind (host_validateRelease r) (\<lambda>_.
        tbind (host_ensureStandby r) (\<lambda>_.
        tbind (host_activate cfg r) (\<lambda>_.
        tbind (host_verifyActive r) (\<lambda>_.
        tbind (set_state (\<lambda>s. s\<lparr>ts_phase := Steady, ts_targetRelease := None, ts_error := None\<rparr>)) (\<lambda>_.
        save_local cfg now))))))
       (fail_attention cfg now (\<lambda>s. s\<lparr>ts_targetRelease := Some r\<rparr>))"

definition startDefault :: "tracks_config \<Rightarrow> int \<Rightarrow> unit track_op" where
  "startDefault cfg now = tbind (tracks_status cfg) (\<lambda>s0.
     if ts_phase s0 \<noteq> Steady then tbind (tracks_complete cfg now s0) (\<lambda>_. treturn ())
     else
       tbind (set_state (\<lambda>_. s0\<lparr>ts_phase := Activating, ts_targetRelease := Some (ts_activeRelease s0)\<rparr>)) (\<lambda>_.
       tbind (save_local cfg now) (\<lambda>_.
       tbind (start_attempt cfg now (ts_activeRelease s0)) (\<lambda>_.
       tbind get_state (\<lambda>s. tbind (prepareOptionalStandby cfg now s) (\<lambda>_. treturn ()))))))"

end
