(* ===== verification/Track_Safety.thy ===== *)
theory Track_Safety
  imports Execution_Tracks
begin

text \<open>
  What the execution tracks guarantee: at most one release executes on the data directory through
  every sequence of selections, resumptions and restarts, with failures and deaths at every call; a
  persisted handoff completes once its calls succeed. Weakest preconditions with a condition for normal
  return, one for a thrown error and an invariant for the death of the supervisor carry the proofs.
\<close>

section \<open>Preconditions of operations that may throw or die\<close>

locale crash_invariant =
  fixes safe :: "track_world \<Rightarrow> bool"
  assumes safe_outcomes: "safe (w\<lparr>tw_outcomes := xs\<rparr>) \<longleftrightarrow> safe w"
begin

definition wp :: "'a track_op \<Rightarrow> ('a \<Rightarrow> track_world \<Rightarrow> bool) \<Rightarrow> (tracks_error \<Rightarrow> track_world \<Rightarrow> bool) \<Rightarrow> track_world \<Rightarrow> bool" where
  "wp m Q E w = (case m w of (Done a, w') \<Rightarrow> Q a w' | (Threw e, w') \<Rightarrow> E e w' | (Died, w') \<Rightarrow> safe w')"

lemma wp_bind: "wp (tbind m f) Q E = wp m (\<lambda>a. wp (f a) Q E) E"
  by (auto simp: fun_eq_iff wp_def tbind_def split: prod.splits outcome.splits)

lemma wp_catch: "wp (tcatch m h) Q E = wp m Q (\<lambda>e. wp (h e) Q E)"
  by (auto simp: fun_eq_iff wp_def tcatch_def split: prod.splits outcome.splits)

lemma wp_return: "wp (treturn a) Q E = Q a"
  by (simp add: fun_eq_iff wp_def treturn_def)

lemma wp_throw: "wp (tthrow e) Q E = E e"
  by (simp add: fun_eq_iff wp_def tthrow_def)

lemma wp_guard: "wp (tguard b e) Q E = (if b then E e else Q ())"
  by (simp add: tguard_def wp_return wp_throw)

lemma wp_get: "wp get_state Q E = (\<lambda>w. Q (tw_state w) w)"
  by (simp add: fun_eq_iff wp_def get_state_def)

lemma wp_set: "wp (set_state f) Q E = (\<lambda>w. Q () (w\<lparr>tw_state := f (tw_state w)\<rparr>))"
  by (simp add: fun_eq_iff wp_def set_state_def)

lemmas wp_rules = wp_bind wp_catch wp_return wp_throw wp_guard wp_get wp_set

lemma wp_mono:
  assumes "wp m Q E w" and "\<And>a w'. Q a w' \<Longrightarrow> Q' a w'" and "\<And>e w'. E e w' \<Longrightarrow> E' e w'"
  shows "wp m Q' E' w"
  using assms by (auto simp: wp_def split: prod.splits outcome.splits)

lemma wp_seq:
  assumes "wp m R E w" and "\<And>a w'. R a w' \<Longrightarrow> wp (f a) Q E w'"
  shows "wp (tbind m f) Q E w"
  unfolding wp_bind by (rule wp_mono [OF assms])

lemma wp_call:
  assumes "safe w"
    and "\<And>xs. wp m Q E (w\<lparr>tw_outcomes := xs\<rparr>)"
    and "\<And>xs e. E e (w\<lparr>tw_outcomes := xs\<rparr>)"
    and "\<And>xs e. E e (snd (m (w\<lparr>tw_outcomes := xs\<rparr>)))"
    and "\<And>xs. safe (snd (m (w\<lparr>tw_outcomes := xs\<rparr>)))"
  shows "wp (call m) Q E w"
proof (cases "tw_outcomes w")
  case Nil
  then have "w\<lparr>tw_outcomes := []\<rparr> = w" by simp
  with assms(2) [of "[]"] Nil show ?thesis by (simp add: wp_def call_def)
next
  case (Cons x xs)
  with assms safe_outcomes [of xs w] show ?thesis
    by (cases x) (simp_all add: wp_def call_def Let_def)
qed

lemma wp_host_call:
  assumes "safe w" and "\<And>xs. safe (w\<lparr>tw_outcomes := xs, tw_owners := eff (tw_owners w)\<rparr>)"
    and "\<And>xs. Q () (w\<lparr>tw_outcomes := xs, tw_owners := eff (tw_owners w)\<rparr>)"
    and "\<And>xs e. E e (w\<lparr>tw_outcomes := xs\<rparr>)"
    and "\<And>xs e. E e (w\<lparr>tw_outcomes := xs, tw_owners := eff (tw_owners w)\<rparr>)"
  shows "wp (host_call eff) Q E w"
  unfolding host_call_def
  by (rule wp_call [OF assms(1)]) (use assms in \<open>simp_all add: wp_def\<close>)

lemma wp_host_activate:
  assumes "safe w" and "\<And>xs. safe (w\<lparr>tw_outcomes := xs, tw_owners := List.insert r (tw_owners w)\<rparr>)"
    and "\<And>xs. Q () (w\<lparr>tw_outcomes := xs, tw_owners := List.insert r (tw_owners w)\<rparr>)"
    and "\<And>xs e. E e (w\<lparr>tw_outcomes := xs\<rparr>)"
    and "\<And>xs e. E e (w\<lparr>tw_outcomes := xs, tw_owners := List.insert r (tw_owners w)\<rparr>)"
  shows "wp (host_activate cfg r) Q E w"
  unfolding host_activate_def
  by (rule wp_call [OF assms(1)]) (use assms safe_outcomes [of _ w] in \<open>simp_all add: wp_def\<close>)

text \<open>An invariant that every outcome keeps holds after the operation.\<close>

lemma wp_invariant: "wp m (\<lambda>_. safe) (\<lambda>_. safe) w \<Longrightarrow> safe (snd (m w))"
  by (auto simp: wp_def split: prod.splits outcome.splits)

end

section \<open>At most one executing release\<close>

definition own_ok :: "tracks_state \<Rightarrow> string list \<Rightarrow> bool" where
  "own_ok s os \<longleftrightarrow> length os \<le> 1 \<and>
     set os \<subseteq> {ts_activeRelease s} \<union> (if ts_phase s = Steady then {} else set_option (ts_targetRelease s))"

definition single_owner :: "tracks_config \<Rightarrow> track_world \<Rightarrow> bool" where
  "single_owner cfg w \<longleftrightarrow> at_rest (tw_file w) \<and> own_ok (stored (tc_initial cfg) (tw_file w)) (tw_owners w)"

interpretation so: crash_invariant "single_owner cfg" for cfg
  by unfold_locales (simp add: single_owner_def)

text \<open>A handoff from \<open>A\<close> to \<open>T\<close> recorded in a state; the states of a running operation.\<close>

definition handoff :: "string \<Rightarrow> string \<Rightarrow> tracks_state \<Rightarrow> bool" where
  "handoff A T s \<longleftrightarrow> ts_phase s \<noteq> Steady \<and> ts_activeRelease s = A \<and> ts_targetRelease s = Some T"

definition failing :: "tracks_config \<Rightarrow> string \<Rightarrow> string \<Rightarrow> track_world \<Rightarrow> bool" where
  "failing cfg A T w \<longleftrightarrow> single_owner cfg w \<and> handoff A T (tw_state w) \<and> own_ok (tw_state w) (tw_owners w)"

definition handing :: "tracks_config \<Rightarrow> string \<Rightarrow> string \<Rightarrow> track_world \<Rightarrow> bool" where
  "handing cfg A T w \<longleftrightarrow> single_owner cfg w \<and> handoff A T (tw_state w)
     \<and> handoff A T (stored (tc_initial cfg) (tw_file w))"

lemmas world_defs = failing_def handing_def single_owner_def handoff_def own_ok_def

lemma handing_failing: "handing cfg A T w \<Longrightarrow> failing cfg A T w"
  by (auto simp: world_defs)

lemma failing_safe: "failing cfg A T w \<Longrightarrow> single_owner cfg w"
  by (simp add: failing_def)

abbreviation stamp :: "int \<Rightarrow> tracks_state \<Rightarrow> tracks_state" where
  "stamp now s \<equiv> s\<lparr>ts_updatedAt := Some now\<rparr>"

lemma own_ok_simps [simp]:
  "own_ok (stamp now s) os = own_ok s os"
  "own_ok (s\<lparr>ts_error := m\<rparr>) os = own_ok s os"
  by (simp_all add: own_ok_def)

lemma wp_file_tx:
  assumes safe: "single_owner cfg w"
    and commit: "\<And>r s b xs. f (stored (tc_initial cfg) (tw_file w)) = Inr (r, s, b) \<Longrightarrow>
      Q r (w\<lparr>tw_outcomes := xs, tw_file := if b then holding s else tw_file w\<rparr>)"
    and fail: "\<And>e xs. E e (w\<lparr>tw_outcomes := xs\<rparr>)"
    and late: "\<And>r s e xs. f (stored (tc_initial cfg) (tw_file w)) = Inr (r, s, True) \<Longrightarrow>
      own_ok s (tw_owners w) \<and> E e (w\<lparr>tw_outcomes := xs, tw_file := holding s\<rparr>)"
  shows "so.wp cfg (file_tx cfg f) Q E w"
proof -
  have tx: "transaction (tc_initial cfg) f (tw_file w) =
    (case f (stored (tc_initial cfg) (tw_file w)) of
       Inl e \<Rightarrow> (Inl (Inr e), tw_file w)
     | Inr (r, s, changed) \<Rightarrow> (Inr r, if changed then holding s else tw_file w))"
    by (rule transaction_on_read, rule at_rest_read) (use safe in \<open>simp add: single_owner_def\<close>)
  show ?thesis
  proof (cases "f (stored (tc_initial cfg) (tw_file w))")
    case (Inl e)
    with tx have tx': "transaction (tc_initial cfg) f (tw_file w) = (Inl (Inr e), tw_file w)" by simp
    show ?thesis unfolding file_tx_def
      by (rule so.wp_call [OF safe]) (use tx' safe fail in \<open>simp_all add: so.wp_def single_owner_def\<close>)
  next
    case (Inr y)
    obtain r s b where y: "y = (r, s, b)" by (cases y)
    with Inr tx have tx': "transaction (tc_initial cfg) f (tw_file w) =
        (Inr r, if b then holding s else tw_file w)" by simp
    note d = commit [OF Inr [unfolded y]]
    have l: "own_ok s (tw_owners w) \<and> E e (w\<lparr>tw_outcomes := xs, tw_file := holding s\<rparr>)" if b for e xs
      using late [of r s] Inr y that by simp
    show ?thesis unfolding file_tx_def
      by (rule so.wp_call [OF safe])
        (use tx' safe fail d l in \<open>simp_all add: so.wp_def single_owner_def split: if_splits\<close>)
  qed
qed

lemma wp_status:
  assumes "single_owner cfg w"
    and "\<And>xs. tracks_validate cfg (stored (tc_initial cfg) (tw_file w)) = Inr (stored (tc_initial cfg) (tw_file w)) \<Longrightarrow>
      Q (stored (tc_initial cfg) (tw_file w)) (w\<lparr>tw_outcomes := xs\<rparr>)"
    and "\<And>e xs. E e (w\<lparr>tw_outcomes := xs\<rparr>)"
  shows "so.wp cfg (tracks_status cfg) Q E w"
  unfolding tracks_status_def
  by (rule wp_file_tx) (use assms in \<open>auto simp: tracks_validate_def rbind_def split: if_splits\<close>)

lemma wp_save:
  assumes "single_owner cfg w" and "own_ok s (tw_owners w)"
    and "\<And>xs. Q (stamp now s) (w\<lparr>tw_outcomes := xs, tw_file := holding (stamp now s)\<rparr>)"
    and "\<And>e xs. E e (w\<lparr>tw_outcomes := xs\<rparr>)"
    and "\<And>e xs. E e (w\<lparr>tw_outcomes := xs, tw_file := holding (stamp now s)\<rparr>)"
  shows "so.wp cfg (tracks_save cfg now s) Q E w"
proof (cases "tracks_validate cfg (stamp now s)")
  case (Inl e)
  moreover have "E e w" using assms(4) [of e "tw_outcomes w"] by simp
  ultimately show ?thesis by (simp add: tracks_save_def so.wp_rules)
next
  case (Inr u)
  then show ?thesis
    unfolding tracks_save_def Let_def
    by simp (rule wp_file_tx, use assms in \<open>auto simp: rbind_eq_Inr split: if_splits\<close>)
qed

lemma wp_save_local:
  assumes "single_owner cfg w" and "own_ok (tw_state w) (tw_owners w)"
    and "\<And>xs. Q () (w\<lparr>tw_state := stamp now (tw_state w), tw_outcomes := xs, tw_file := holding (stamp now (tw_state w))\<rparr>)"
    and "\<And>e xs. E e (w\<lparr>tw_state := stamp now (tw_state w), tw_outcomes := xs\<rparr>)"
    and "\<And>e xs. E e (w\<lparr>tw_state := stamp now (tw_state w), tw_outcomes := xs, tw_file := holding (stamp now (tw_state w))\<rparr>)"
  shows "so.wp cfg (save_local cfg now) Q E w"
  unfolding save_local_def so.wp_rules
  by (rule wp_save) (use assms in \<open>simp_all add: single_owner_def\<close>)

section \<open>Every operation keeps single execution\<close>

lemma wp_host_id:
  assumes "single_owner cfg w" and "\<And>xs. Q () (w\<lparr>tw_outcomes := xs\<rparr>)" and "\<And>xs e. E e (w\<lparr>tw_outcomes := xs\<rparr>)"
  shows "so.wp cfg (host_call id) Q E w"
  by (rule so.wp_host_call) (use assms in \<open>simp_all add: single_owner_def\<close>)

lemmas host_reads = host_validateRelease_def host_validateForwardRelease_def host_ensureStandby_def
  host_retireStandby_def host_verifyActive_def

lemma wp_prepare:
  assumes "single_owner cfg w" and "own_ok s (tw_owners w)"
    and Q: "\<And>s' w'. single_owner cfg w' \<Longrightarrow> tw_state w' = tw_state w \<Longrightarrow> tw_owners w' = tw_owners w \<Longrightarrow> Q s' w'"
    and E: "\<And>e w'. single_owner cfg w' \<Longrightarrow> tw_state w' = tw_state w \<Longrightarrow> tw_owners w' = tw_owners w \<Longrightarrow> E e w'"
  shows "so.wp cfg (prepareOptionalStandby cfg now s) Q E w"
proof (cases "ts_standbyRelease s")
  case None
  with assms(1) Q show ?thesis by (simp add: prepareOptionalStandby_def so.wp_rules)
next
  case (Some r)
  have save: "so.wp cfg (tracks_save cfg now (s\<lparr>ts_error := m\<rparr>)) Q E (w\<lparr>tw_outcomes := xs\<rparr>)" for m xs
    by (rule wp_save) (use assms in \<open>simp_all add: single_owner_def Q E\<close>)
  show ?thesis
    by (simp add: prepareOptionalStandby_def Some so.wp_rules host_reads)
      (rule wp_host_id, use assms(1) save in simp_all)
qed

lemma wp_fail_attention:
  assumes "failing cfg A T w" and "\<And>s. handoff A T s \<Longrightarrow> handoff A T (f s)"
  shows "so.wp cfg (fail_attention cfg now f e) Q (\<lambda>_. single_owner cfg) w"
proof -
  let ?s = "f (tw_state w\<lparr>ts_phase := Attention, ts_error := Some (track_error_message e)\<rparr>)"
  have "handoff A T ?s" using assms by (simp add: failing_def handoff_def)
  with assms(1) have "own_ok ?s (tw_owners w)" by (auto simp: world_defs)
  then show ?thesis
    unfolding fail_attention_def so.wp_rules
    by - (rule wp_save_local, use assms(1) in \<open>auto simp: failing_def single_owner_def\<close>)
qed

lemma handing_outcomes [simp]: "handing cfg A T (w\<lparr>tw_outcomes := xs\<rparr>) = handing cfg A T w"
  by (simp add: handing_def single_owner_def)

lemma failing_outcomes [simp]: "failing cfg A T (w\<lparr>tw_outcomes := xs\<rparr>) = failing cfg A T w"
  by (simp add: failing_def single_owner_def)

text \<open>Saving a changed local state that still records the same handoff.\<close>

lemma wp_set_save:
  assumes "handing cfg A T w" and "\<And>s. handoff A T s \<Longrightarrow> handoff A T (f s)"
    and "\<And>w'. handing cfg A T w' \<Longrightarrow> tw_owners w' = tw_owners w \<Longrightarrow> Q () w'"
  shows "so.wp cfg (tbind (set_state f) (\<lambda>_. save_local cfg now)) Q (\<lambda>_. failing cfg A T) w"
proof -
  let ?s = "f (tw_state w)"
  have s: "handoff A T ?s" using assms by (simp add: handing_def)
  with assms(1) have o: "own_ok ?s (tw_owners w)" by (auto simp: world_defs)
  from s have s': "handoff A T (stamp now ?s)" by (simp add: handoff_def)
  show ?thesis
    unfolding so.wp_rules
    by (rule wp_save_local)
      (use assms(1,3) o s s' in \<open>auto simp: handing_def failing_def single_owner_def\<close>)
qed

lemma wp_prepareForwardHost:
  assumes "single_owner cfg w" and "\<And>b xs. Q b (w\<lparr>tw_outcomes := xs\<rparr>)" and "\<And>xs e. E e (w\<lparr>tw_outcomes := xs\<rparr>)"
  shows "so.wp cfg host_prepareForwardHost Q E w"
proof -
  have "so.wp cfg (tbind (host_call id) (\<lambda>_. treturn b)) Q E w" for b
    unfolding so.wp_rules by (rule wp_host_id) (use assms in simp_all)
  then show ?thesis by (simp add: so.wp_def host_prepareForwardHost_def)
qed

lemma handing_safe: "handing cfg A T w \<Longrightarrow> single_owner cfg w"
  by (simp add: handing_def)

lemma wp_forward:
  assumes "handing cfg A T w"
  shows "so.wp cfg (forward_part cfg now) (\<lambda>_ w'. handing cfg A T w' \<and> tw_owners w' = tw_owners w) (\<lambda>_. failing cfg A T) w"
    (is "so.wp cfg _ (\<lambda>_. ?R) ?E w")
proof -
  have backup: "so.wp cfg (tbind (host_backupStoppedState cfg) (\<lambda>path.
      tbind (set_state (\<lambda>s. s\<lparr>ts_backupPath := Some path\<rparr>)) (\<lambda>_. save_local cfg now))) (\<lambda>_. ?R) ?E w"
    unfolding host_backupStoppedState_def so.wp_bind so.wp_return
    by (rule wp_host_id)
      (use assms in \<open>auto simp: handing_safe handing_failing handoff_def so.wp_bind [symmetric] intro!: wp_set_save\<close>)
  have started: "so.wp cfg (tbind (set_state (\<lambda>s. s\<lparr>ts_targetWriteStarted := True, ts_standbyRelease := None\<rparr>)) (\<lambda>_.
      tbind (save_local cfg now) (\<lambda>_. treturn True))) (\<lambda>_. ?R) ?E w'" if "?R w'" for w'
  proof -
    have "so.wp cfg (tbind (set_state (\<lambda>s. s\<lparr>ts_targetWriteStarted := True, ts_standbyRelease := None\<rparr>)) (\<lambda>_.
        save_local cfg now)) (\<lambda>_. ?R) ?E w'"
      by (rule wp_set_save) (use that in \<open>simp_all add: handoff_def\<close>)
    then show ?thesis by (simp add: so.wp_rules)
  qed
  have prepare: "so.wp cfg (tbind host_prepareForwardHost (\<lambda>prepared. if \<not> prepared then treturn False
      else tbind (set_state (\<lambda>s. s\<lparr>ts_targetWriteStarted := True, ts_standbyRelease := None\<rparr>)) (\<lambda>_.
           tbind (save_local cfg now) (\<lambda>_. treturn True)))) (\<lambda>_. ?R) ?E w'" if "?R w'" for w'
    by (rule so.wp_seq [where R = "\<lambda>_. ?R"], rule wp_prepareForwardHost)
      (use that started in \<open>auto simp: handing_safe handing_failing so.wp_return\<close>)
  show ?thesis
  proof (cases "ts_forwardOnly (tw_state w)")
    case True
    have "so.wp cfg (if ts_backupPath (tw_state w) \<noteq> None then treturn ()
        else tbind (tguard (ts_targetWriteStarted (tw_state w)) Backup_missing) (\<lambda>_.
             tbind (host_backupStoppedState cfg) (\<lambda>path.
             tbind (set_state (\<lambda>s. s\<lparr>ts_backupPath := Some path\<rparr>)) (\<lambda>_. save_local cfg now)))) (\<lambda>_. ?R) ?E w"
      using backup assms by (auto simp: so.wp_return so.wp_guard so.wp_bind handing_failing)
    then show ?thesis
      unfolding forward_part_def so.wp_bind [of _ get_state] so.wp_get
      by (simp only: True not_True_eq_False if_False) (rule so.wp_seq, assumption, rule prepare)
  qed (simp add: forward_part_def so.wp_rules assms)
qed

lemma wp_activate:
  assumes "handing cfg A T w" and "tw_owners w = []"
  shows "so.wp cfg (activate_target cfg now T) (\<lambda>_. single_owner cfg) (\<lambda>_. failing cfg A T) w"
    (is "so.wp cfg _ ?Q ?E w")
proof -
  let ?finish = "\<lambda>s. tbind (tracks_save cfg now (completed_state s T)) (prepareOptionalStandby cfg now)"
  have finish: "so.wp cfg (tbind (host_verifyActive T) (\<lambda>_. tbind get_state ?finish)) ?Q ?E w'"
    if "handing cfg A T w'" "tw_owners w' = [T]" for w'
  proof -
    have o: "own_ok (completed_state s T) [T]" for s by (simp add: own_ok_def completed_state_def)
    have "so.wp cfg (?finish (tw_state w')) ?Q ?E (w'\<lparr>tw_outcomes := xs\<rparr>)" for xs
      unfolding so.wp_bind
      by (rule wp_save)
        (use that o handing_failing [OF that(1)] in
          \<open>auto simp: failing_def single_owner_def handing_safe intro!: wp_prepare\<close>)
    then show ?thesis
      unfolding so.wp_bind so.wp_get host_reads
      by - (rule wp_host_id, use that in \<open>simp_all add: handing_safe handing_failing so.wp_bind\<close>)
  qed
  have start: "so.wp cfg (host_activate cfg T) (\<lambda>_ w'. handing cfg A T w' \<and> tw_owners w' = [T]) ?E w'"
    if "handing cfg A T w'" "tw_owners w' = []" for w'
    by (rule so.wp_host_activate) (use that in \<open>auto simp: world_defs\<close>)
  have save: "so.wp cfg (tbind (set_state (\<lambda>s. s\<lparr>ts_phase := Activating\<rparr>)) (\<lambda>_. save_local cfg now))
      (\<lambda>_ w'. handing cfg A T w' \<and> tw_owners w' = []) ?E w"
    by (rule wp_set_save) (use assms in \<open>simp_all add: handoff_def\<close>)
  have "so.wp cfg (tbind (tbind (set_state (\<lambda>s. s\<lparr>ts_phase := Activating\<rparr>)) (\<lambda>_. save_local cfg now))
      (\<lambda>_. tbind (host_activate cfg T) (\<lambda>_. tbind (host_verifyActive T) (\<lambda>_. tbind get_state ?finish)))) ?Q ?E w"
    by (rule so.wp_seq [OF save], rule so.wp_seq [OF start]) (auto intro: finish)
  then show ?thesis by (simp add: activate_target_def so.wp_bind)
qed

lemma wp_complete:
  assumes "single_owner cfg w" and "stored (tc_initial cfg) (tw_file w) = s" and "handoff A T s"
  shows "so.wp cfg (tracks_complete cfg now s) (\<lambda>_. single_owner cfg) (\<lambda>_. single_owner cfg) w"
proof -
  let ?E = "\<lambda>_. failing cfg A T"
  let ?w = "w\<lparr>tw_state := s\<rparr>"
  have h: "handing cfg A T ?w" using assms by (simp add: handing_def single_owner_def)
  have validated: "so.wp cfg (validate_target cfg s T) (\<lambda>_ . handing cfg A T) ?E ?w"
    unfolding validate_target_def so.wp_rules host_reads
    using h handing_safe [OF h] handing_failing [OF h] by (auto intro!: wp_host_id)
  have rel: "so.wp cfg (host_releaseExecution r) (\<lambda>_ w''. handing cfg A T w'' \<and> tw_owners w'' = removeAll r (tw_owners w')) ?E w'"
    if "handing cfg A T w'" for r w'
  proof -
    have sub: "length (removeAll r (tw_owners w')) \<le> 1" "set (removeAll r (tw_owners w')) \<subseteq> {A, T}"
      using that length_removeAll_less_eq [of r "tw_owners w'"]
      by (auto simp: world_defs simp del: length_removeAll_less_eq intro: order_trans)
    show ?thesis
      unfolding host_releaseExecution_def
      by (rule so.wp_host_call) (use that sub in \<open>auto simp: world_defs\<close>)
  qed
  have released: "so.wp cfg (host_releaseExecution T) (\<lambda>_ w'. handing cfg A T w' \<and> tw_owners w' = []) ?E w'"
    if "handing cfg A T w'" "A \<notin> set (tw_owners w')" for w'
  proof -
    have "set (tw_owners w') \<subseteq> {T}" using that by (auto simp: world_defs)
    then have "removeAll T (tw_owners w') = []" by (auto simp: removeAll_filter_not_eq filter_empty_conv)
    with rel [OF that(1), of T] show ?thesis by simp
  qed
  have forward: "so.wp cfg (tbind (forward_part cfg now) (\<lambda>proceed.
      if \<not> proceed then get_state else activate_target cfg now T)) (\<lambda>_. single_owner cfg) ?E w'"
    if "handing cfg A T w'" "tw_owners w' = []" for w'
    by (rule so.wp_seq [OF wp_forward [OF that(1)]]) (auto simp: so.wp_get handing_safe that(2) intro: wp_activate)
  have body: "so.wp cfg (tbind (validate_target cfg s T) (\<lambda>_.
      tbind (host_releaseExecution A) (\<lambda>_.
      tbind (host_releaseExecution T) (\<lambda>_.
      tbind (forward_part cfg now) (\<lambda>proceed.
      if \<not> proceed then get_state else activate_target cfg now T))))) (\<lambda>_. single_owner cfg) ?E ?w"
    by (rule so.wp_seq [OF validated], rule so.wp_seq [OF rel], assumption,
        rule so.wp_seq [OF released]) (auto intro: forward)
  have "so.wp cfg (fail_attention cfg now id e) (\<lambda>_. single_owner cfg) (\<lambda>_. single_owner cfg) w'"
    if "failing cfg A T w'" for e w'
    using that by (rule wp_fail_attention) simp
  with body have "so.wp cfg (tcatch (tbind (validate_target cfg s T) (\<lambda>_.
      tbind (host_releaseExecution A) (\<lambda>_.
      tbind (host_releaseExecution T) (\<lambda>_.
      tbind (forward_part cfg now) (\<lambda>proceed.
      if \<not> proceed then get_state else activate_target cfg now T))))) (fail_attention cfg now id))
      (\<lambda>_. single_owner cfg) (\<lambda>_. single_owner cfg) ?w"
    unfolding so.wp_catch by - (rule so.wp_mono)
  with assms(3) show ?thesis
    by (simp add: tracks_complete_def handoff_def so.wp_bind [of _ "set_state f" for f] so.wp_set)
qed

lemma validated_handoff:
  "tracks_validate cfg s = Inr s' \<Longrightarrow> ts_phase s \<noteq> Steady \<Longrightarrow> \<exists>T. handoff (ts_activeRelease s) T s"
  by (auto simp: tracks_validate_def handoff_def split: if_splits)

lemma wp_resume:
  assumes "single_owner cfg w"
  shows "so.wp cfg (tracks_resume cfg now) (\<lambda>_. single_owner cfg) (\<lambda>_. single_owner cfg) w"
  unfolding tracks_resume_def so.wp_bind
  by (rule wp_status)
    (use assms in \<open>auto simp: so.wp_return single_owner_def dest!: validated_handoff intro!: wp_complete\<close>)

text \<open>
  In \<open>attention\<close> the selections that keep single execution are the two releases of the interrupted
  handoff.
\<close>

definition careful :: "tracks_config \<Rightarrow> string \<Rightarrow> track_world \<Rightarrow> bool" where
  "careful cfg releaseId w = (let s = stored (tc_initial cfg) (tw_file w) in
     ts_phase s = Attention \<longrightarrow> releaseId = ts_activeRelease s \<or> Some releaseId = ts_targetRelease s)"

lemma world_outcomes [simp]:
  "single_owner cfg (w\<lparr>tw_outcomes := xs\<rparr>) = single_owner cfg w"
  "careful cfg r (w\<lparr>tw_outcomes := xs\<rparr>) = careful cfg r w"
  by (simp_all add: single_owner_def careful_def)

lemma own_ok_requested:
  assumes "own_ok s os" and "ts_phase s = Steady \<or> ts_phase s = Attention \<and> (\<exists>T. ts_targetRelease s = Some T \<and> r \<in> {ts_activeRelease s, T})"
  shows "own_ok (requested r b now s) os"
  using assms by (auto simp: own_ok_def requested_def split: if_splits)

lemma wp_begin_handoff:
  assumes safe: "single_owner cfg w" and careful: "careful cfg releaseId w"
    and s: "s = stored (tc_initial cfg) (tw_file w)" and valid: "tracks_validate cfg s = Inr s"
    and phase: "ts_phase s = Steady \<or> ts_phase s = Attention"
  shows "so.wp cfg (begin_handoff cfg now releaseId generation deferred forward s)
    (\<lambda>_. single_owner cfg) (\<lambda>_. single_owner cfg) w"
proof -
  let ?S = "\<lambda>_. single_owner cfg"
  let ?same = "\<lambda>w'. \<exists>xs. w' = w\<lparr>tw_outcomes := xs\<rparr>"
  let ?r = "requested releaseId forward now s"
  have same: "single_owner cfg w'" "stored (tc_initial cfg) (tw_file w') = s" "tw_owners w' = tw_owners w"
    if "?same w'" for w' using that safe by (auto simp: single_owner_def s)
  have T: "ts_phase s = Attention \<Longrightarrow> \<exists>T. ts_targetRelease s = Some T \<and> releaseId \<in> {ts_activeRelease s, T}"
    using careful valid by (auto simp: careful_def s [symmetric] tracks_validate_def Let_def split: if_splits)
  have own: "own_ok ?r (tw_owners w)"
    using safe phase T by (intro own_ok_requested) (auto simp: single_owner_def s)
  have complete: "so.wp cfg (tracks_complete cfg now x) ?S ?S w'"
    if "single_owner cfg w'" "stored (tc_initial cfg) (tw_file w') = x" "x = requested releaseId forward now s'" for x s' w'
    using that(1,2) by (rule wp_complete [of _ _ _ "ts_activeRelease x" releaseId]) (simp add: that(3) handoff_def requested_def)
  have persist: "so.wp cfg (tbind (file_tx cfg (\<lambda>raw. rbind (tracks_validate cfg raw) (\<lambda>s'.
             if ts_generation s' \<noteq> generation \<or> ts_phase s' \<noteq> ts_phase s then Inl Handoff_changed
             else (let next = requested releaseId forward now raw in Inr (next, next, True))))) (\<lambda>intent.
      if deferred then treturn intent else tracks_complete cfg now intent)) ?S ?S w'"
    if w': "?same w'" for w'
    unfolding so.wp_bind
    by (rule wp_file_tx)
      (use same [OF w'] valid own in \<open>auto simp: rbind_eq_Inr Let_def so.wp_return single_owner_def
        split: if_splits intro!: complete\<close>)
  have host: "so.wp cfg (host_call id) (\<lambda>_. ?same) ?S w'" if "?same w'" for w'
    by (rule wp_host_id) (use same [OF that] that in \<open>auto simp: single_owner_def\<close>)
  have w: "?same w" by (rule exI [of _ "tw_outcomes w"]) simp
  have retire: "so.wp cfg (if b then tbind (tguard c e) (\<lambda>_. host_call id) else treturn ()) (\<lambda>_. ?same) ?S w'"
    if "?same w'" for b c e w'
    using host [OF that] same(1) [OF that] that by (simp add: so.wp_rules)
  have validate: "so.wp cfg (if b then host_call id else host_call id) (\<lambda>_. ?same) ?S w'" if "?same w'" for b w'
    using host [OF that] by simp
  have guard: "so.wp cfg (tguard b e) (\<lambda>_. ?same) ?S w" for b e
    using w safe by (simp add: so.wp_guard)
  show ?thesis
    unfolding begin_handoff_def host_reads
    by (rule so.wp_seq [OF guard], rule so.wp_seq [OF validate], assumption,
        rule so.wp_seq [OF retire], assumption, rule so.wp_seq [OF host], assumption, rule persist)
qed

lemma wp_select:
  assumes safe: "single_owner cfg w" and careful: "careful cfg releaseId w"
  shows "so.wp cfg (requestSelection cfg now releaseId generation deferred forward)
    (\<lambda>_. single_owner cfg) (\<lambda>_. single_owner cfg) w"
proof -
  define s where "s = stored (tc_initial cfg) (tw_file w)"
  let ?R = "\<lambda>current w'. current = s \<and> tracks_validate cfg s = Inr s \<and> (\<exists>xs. w' = w\<lparr>tw_outcomes := xs\<rparr>)"
  have status: "so.wp cfg (tracks_status cfg) ?R (\<lambda>_. single_owner cfg) w"
    by (rule wp_status) (use safe in \<open>auto simp: s_def\<close>)
  have retry: "so.wp cfg (tracks_complete cfg now s) (\<lambda>_. single_owner cfg) (\<lambda>_. single_owner cfg) (w\<lparr>tw_outcomes := xs\<rparr>)"
    if "tracks_validate cfg s = Inr s" "ts_phase s = Attention" for xs
    using validated_handoff [OF that(1)] that(2) safe by (auto simp: s_def intro!: wp_complete)
  have begin_handoff: "so.wp cfg (begin_handoff cfg now releaseId generation b forward s)
      (\<lambda>_. single_owner cfg) (\<lambda>_. single_owner cfg) (w\<lparr>tw_outcomes := xs\<rparr>)"
    if "tracks_validate cfg s = Inr s" "ts_phase s = Steady \<or> ts_phase s = Attention" for xs b
    by (rule wp_begin_handoff) (use that safe careful in \<open>simp_all add: s_def\<close>)
  show ?thesis
    unfolding requestSelection_def so.wp_bind [of _ "tguard b e" for b e] so.wp_guard
    by (simp add: safe, intro impI, rule so.wp_seq [OF status])
      (elim conjE exE, simp add: safe so.wp_guard so.wp_return so.wp_bind [of _ "tguard b e" for b e] retry begin_handoff)
qed

text \<open>Starting the default release: only that release is recorded and only it may execute.\<close>

definition starting :: "tracks_config \<Rightarrow> string \<Rightarrow> track_world \<Rightarrow> bool" where
  "starting cfg r w \<longleftrightarrow> at_rest (tw_file w) \<and> ts_activeRelease (stored (tc_initial cfg) (tw_file w)) = r
     \<and> ts_activeRelease (tw_state w) = r \<and> (tw_owners w = [] \<or> tw_owners w = [r])"

lemma starting_safe: "starting cfg r w \<Longrightarrow> single_owner cfg w"
  by (auto simp: starting_def single_owner_def own_ok_def)

lemma starting_outcomes [simp]: "starting cfg r (w\<lparr>tw_outcomes := xs\<rparr>) = starting cfg r w"
  by (simp add: starting_def)

lemma wp_starting_host:
  assumes "starting cfg r w"
  shows "so.wp cfg (host_call id) (\<lambda>_. starting cfg r) (\<lambda>_. starting cfg r) w"
    and "so.wp cfg (host_activate cfg' r) (\<lambda>_. starting cfg r) (\<lambda>_. starting cfg r) w"
  by (rule so.wp_host_call so.wp_host_activate, use assms in \<open>auto simp: starting_def single_owner_def own_ok_def\<close>)+

lemma wp_starting_save:
  assumes "starting cfg r w" and "\<And>s. ts_activeRelease (f s) = ts_activeRelease s"
  shows "so.wp cfg (tbind (set_state f) (\<lambda>_. save_local cfg now)) (\<lambda>_. starting cfg r) (\<lambda>_. starting cfg r) w"
  unfolding so.wp_bind so.wp_set
  by (rule wp_save_local) (use assms in \<open>auto simp: starting_def single_owner_def own_ok_def\<close>)

lemma wp_starting_fail:
  assumes "starting cfg r w" and "\<And>s. ts_activeRelease (f s) = ts_activeRelease s"
  shows "so.wp cfg (fail_attention cfg now f e) Q (\<lambda>_. starting cfg r) w"
proof -
  have "so.wp cfg (tbind (set_state (\<lambda>s. f (s\<lparr>ts_phase := Attention, ts_error := Some (track_error_message e)\<rparr>)))
      (\<lambda>_. save_local cfg now)) (\<lambda>_. starting cfg r) (\<lambda>_. starting cfg r) w"
    by (rule wp_starting_save) (use assms in simp_all)
  then show ?thesis by (simp add: fail_attention_def so.wp_rules)
qed

lemma wp_start_attempt:
  assumes "starting cfg r w"
  shows "so.wp cfg (start_attempt cfg now r) (\<lambda>_. starting cfg r) (\<lambda>_. single_owner cfg) w"
proof -
  have started: "so.wp cfg (tbind (host_validateRelease r) (\<lambda>_.
          tbind (host_ensureStandby r) (\<lambda>_.
          tbind (host_activate cfg r) (\<lambda>_.
          tbind (host_verifyActive r) (\<lambda>_.
          tbind (set_state (\<lambda>s. s\<lparr>ts_phase := Steady, ts_targetRelease := None, ts_error := None\<rparr>)) (\<lambda>_.
          save_local cfg now)))))) (\<lambda>_. starting cfg r) (\<lambda>_. starting cfg r) w"
    unfolding host_reads
    by (rule so.wp_seq, rule wp_starting_host(1) [OF assms], rule so.wp_seq, erule wp_starting_host(1),
        rule so.wp_seq, erule wp_starting_host(2), rule so.wp_seq, erule wp_starting_host(1))
      (auto intro!: wp_starting_save)
  show ?thesis
    unfolding start_attempt_def so.wp_catch
    by (rule so.wp_mono [OF started], assumption)
      (rule so.wp_mono [OF wp_starting_fail], auto dest: starting_safe)
qed

lemma wp_startDefault:
  assumes safe: "single_owner cfg w"
  shows "so.wp cfg (startDefault cfg now) (\<lambda>_. single_owner cfg) (\<lambda>_. single_owner cfg) w"
proof -
  define s where "s = stored (tc_initial cfg) (tw_file w)"
  let ?S = "\<lambda>_. single_owner cfg" let ?r = "ts_activeRelease s"
  let ?default = "s\<lparr>ts_phase := Activating, ts_targetRelease := Some ?r\<rparr>"
  have complete: "so.wp cfg (tracks_complete cfg now s) ?S ?S (w\<lparr>tw_outcomes := xs\<rparr>)"
    if "tracks_validate cfg s = Inr s" "ts_phase s \<noteq> Steady" for xs
    using validated_handoff [OF that] safe by (auto simp: s_def intro!: wp_complete)
  have save: "so.wp cfg (save_local cfg now) (\<lambda>_. starting cfg ?r) ?S (w\<lparr>tw_outcomes := xs, tw_state := ?default\<rparr>)"
    if "ts_phase s = Steady" for xs
  proof -
    have "starting cfg ?r (w\<lparr>tw_outcomes := xs, tw_state := ?default\<rparr>)"
      using safe that by (cases "tw_owners w") (auto simp: starting_def single_owner_def own_ok_def s_def [symmetric])
    then have "so.wp cfg (save_local cfg now) (\<lambda>_. starting cfg ?r) (\<lambda>_. starting cfg ?r)
        (w\<lparr>tw_outcomes := xs, tw_state := ?default\<rparr>)"
      using wp_starting_save [of cfg ?r _ id now] by (simp add: so.wp_bind so.wp_set)
    then show ?thesis by (rule so.wp_mono) (simp_all add: starting_safe)
  qed
  have finish: "so.wp cfg (prepareOptionalStandby cfg now (tw_state w')) ?S ?S w'" if "starting cfg ?r w'" for w'
    by (rule wp_prepare) (use that in \<open>auto simp: starting_safe starting_def own_ok_def\<close>)
  have default: "so.wp cfg (save_local cfg now) (\<lambda>_. so.wp cfg (start_attempt cfg now ?r)
      (\<lambda>_ w'. so.wp cfg (prepareOptionalStandby cfg now (tw_state w')) ?S ?S w') ?S) ?S
      (w\<lparr>tw_outcomes := xs, tw_state := ?default\<rparr>)" if "ts_phase s = Steady" for xs
    by (rule so.wp_mono [OF save [OF that]], rule so.wp_mono [OF wp_start_attempt]) (auto intro: finish)
  show ?thesis
    unfolding startDefault_def so.wp_bind [of _ "tracks_status cfg"]
    by (rule wp_status) (use safe complete default in \<open>auto simp: so.wp_rules s_def [symmetric]\<close>)
qed

section \<open>Reachable worlds\<close>

text \<open>
  The controller's life: operations in any order, each with outcomes of its calls chosen freely. A
  selection in \<open>attention\<close> chooses between the two releases of the interrupted handoff.
\<close>

inductive tracks_run :: "tracks_config \<Rightarrow> track_world \<Rightarrow> bool" for cfg where
  Fresh: "tw_file w = empty_fs \<Longrightarrow> tw_owners w = [] \<Longrightarrow> tracks_run cfg w"
| Select: "tracks_run cfg w \<Longrightarrow> careful cfg releaseId w \<Longrightarrow>
    tracks_run cfg (snd (requestSelection cfg now releaseId generation deferred forward (w\<lparr>tw_outcomes := xs\<rparr>)))"
| Resume: "tracks_run cfg w \<Longrightarrow> tracks_run cfg (snd (tracks_resume cfg now (w\<lparr>tw_outcomes := xs\<rparr>)))"
| Start: "tracks_run cfg w \<Longrightarrow> tracks_run cfg (snd (startDefault cfg now (w\<lparr>tw_outcomes := xs\<rparr>)))"

lemma tracks_run_safe: "tracks_run cfg w \<Longrightarrow> single_owner cfg w"
proof (induction rule: tracks_run.induct)
  case (Fresh w)
  then show ?case by (simp add: single_owner_def own_ok_def)
next
  case Select
  then show ?case by (intro so.wp_invariant wp_select) simp_all
next
  case Resume
  then show ?case by (intro so.wp_invariant wp_resume) simp_all
next
  case Start
  then show ?case by (intro so.wp_invariant wp_startDefault) simp_all
qed

text \<open>
  C9: at most one release executes on the data directory. Whatever selections, resumptions and starts
  the controller runs, and wherever its host calls and file transactions fail or the supervisor dies,
  no two releases execute at the same time; the one that executes is the recorded active release or,
  while a handoff is recorded, its target. The only assumption is that an interrupted handoff is
  resolved by choosing one of its two releases.
\<close>

theorem single_execution:
  assumes "tracks_run cfg w"
  shows "length (tw_owners w) \<le> 1 \<and> set (tw_owners w) \<subseteq>
    {ts_activeRelease (stored (tc_initial cfg) (tw_file w))} \<union>
      (if ts_phase (stored (tc_initial cfg) (tw_file w)) = Steady then {}
       else set_option (ts_targetRelease (stored (tc_initial cfg) (tw_file w))))"
  using tracks_run_safe [OF assms] by (simp add: single_owner_def own_ok_def)

section \<open>Runs without failures\<close>

lemma call_ok [simp]: "tw_outcomes w = [] \<Longrightarrow> call m w = m w"
  by (simp add: call_def)

lemma host_call_ok: "tw_outcomes w = [] \<Longrightarrow> host_call eff w = (Done (), w\<lparr>tw_owners := eff (tw_owners w)\<rparr>)"
  by (simp add: host_call_def)

lemma host_prepareForwardHost_ok: "tw_outcomes w = [] \<Longrightarrow> host_prepareForwardHost w = (Done True, w)"
  by (simp add: host_prepareForwardHost_def host_call_ok tbind_def treturn_def)

definition tracks_ok :: "tracks_config \<Rightarrow> tracks_state \<Rightarrow> bool" where
  "tracks_ok cfg s \<longleftrightarrow> tracks_validate cfg s = Inr s"

lemma tracks_ok_iff: "tracks_ok cfg s \<longleftrightarrow> tracks_schema_ok s
    \<and> ts_gatewayNodeId s = ts_gatewayNodeId (tc_initial cfg) \<and> ts_dataDirectory s = ts_dataDirectory (tc_initial cfg)
    \<and> (ts_phase s \<noteq> Steady \<longrightarrow> ts_targetRelease s \<noteq> None)
    \<and> (ts_backupPath s \<noteq> None \<or> ts_targetWriteStarted s \<longrightarrow> ts_forwardOnly s)"
  by (auto simp: tracks_ok_def tracks_validate_def)

lemma status_ok:
  assumes "tw_outcomes w = []" and "at_rest (tw_file w)" and "tracks_ok cfg (stored (tc_initial cfg) (tw_file w))"
  shows "tracks_status cfg w = (Done (stored (tc_initial cfg) (tw_file w)), w)"
  using assms by (simp add: tracks_status_def file_tx_def tracks_ok_def transaction_on_read [OF at_rest_read])

lemma save_ok:
  assumes "tw_outcomes w = []" and "at_rest (tw_file w)"
    and "tracks_ok cfg (stored (tc_initial cfg) (tw_file w))" and "tracks_ok cfg (stamp now s)"
    and "ts_generation (stored (tc_initial cfg) (tw_file w)) = ts_generation s"
  shows "tracks_save cfg now s w = (Done (stamp now s), w\<lparr>tw_file := holding (stamp now s)\<rparr>)"
  using assms by (simp add: tracks_save_def file_tx_def tracks_ok_def Let_def transaction_on_read [OF at_rest_read])

lemma save_local_ok:
  assumes "tw_outcomes w = []" and "at_rest (tw_file w)"
    and "tracks_ok cfg (stored (tc_initial cfg) (tw_file w))" and "tracks_ok cfg (stamp now (tw_state w))"
    and "ts_generation (stored (tc_initial cfg) (tw_file w)) = ts_generation (tw_state w)"
  shows "save_local cfg now w =
    (Done (), w\<lparr>tw_state := stamp now (tw_state w), tw_file := holding (stamp now (tw_state w))\<rparr>)"
  using save_ok [of "w\<lparr>tw_state := stamp now (tw_state w)\<rparr>" cfg now "stamp now (tw_state w)"] assms
  by (simp add: save_local_def tbind_def set_state_def get_state_def treturn_def)

text \<open>A completed step with result \<open>a\<close> that ends in \<open>w'\<close>.\<close>

lemma tbind_assoc: "tbind (tbind m f) g = tbind m (\<lambda>a. tbind (f a) g)"
  by (auto simp: tbind_def fun_eq_iff split: prod.splits outcome.splits)

lemma tbind_Done: "m w = (Done a, w') \<Longrightarrow> tbind m f w = f a w'"
  by (simp add: tbind_def)

lemma set_state_Done: "set_state f w = (Done (), w\<lparr>tw_state := f (tw_state w)\<rparr>)"
  by (simp add: set_state_def)

lemma get_state_Done: "get_state w = (Done (tw_state w), w)"
  by (simp add: get_state_def)

text \<open>What a running handoff needs so that its remaining saves succeed.\<close>

definition can_save :: "tracks_config \<Rightarrow> int \<Rightarrow> track_world \<Rightarrow> bool" where
  "can_save cfg now w \<longleftrightarrow> tw_outcomes w = [] \<and> at_rest (tw_file w) \<and> tracks_ok cfg (stored (tc_initial cfg) (tw_file w))
     \<and> tracks_ok cfg (tw_state w) \<and> isSafeInteger now \<and> 0 \<le> now
     \<and> ts_generation (stored (tc_initial cfg) (tw_file w)) = ts_generation (tw_state w)"

lemma tracks_ok_stamp: "isSafeInteger now \<Longrightarrow> 0 \<le> now \<Longrightarrow> tracks_ok cfg s \<Longrightarrow> tracks_ok cfg (stamp now s)"
  by (auto simp: tracks_ok_iff tracks_schema_ok_def)

lemma can_save_ok: "can_save cfg now w \<Longrightarrow> tracks_ok cfg (tw_state w)"
  by (simp add: can_save_def)

lemma set_save_ok:
  assumes "can_save cfg now w" and "tracks_ok cfg (f (tw_state w))" and "ts_generation (f (tw_state w)) = ts_generation (tw_state w)"
  shows "\<exists>w'. tbind (set_state f) (\<lambda>_. save_local cfg now) w = (Done (), w') \<and> can_save cfg now w'
    \<and> tw_state w' = stamp now (f (tw_state w)) \<and> tw_owners w' = tw_owners w"
proof -
  let ?w = "w\<lparr>tw_state := f (tw_state w)\<rparr>"
  have "save_local cfg now ?w = (Done (), ?w\<lparr>tw_state := stamp now (tw_state ?w), tw_file := holding (stamp now (tw_state ?w))\<rparr>)"
    by (rule save_local_ok) (use assms in \<open>simp_all add: can_save_def tracks_ok_stamp\<close>)
  then show ?thesis
    using assms by (simp add: tbind_Done [OF set_state_Done] can_save_def tracks_ok_stamp)
qed

lemma prepare_ok:
  assumes "tw_outcomes w = []" and "tw_file w = holding s" and "tracks_ok cfg s" and "isSafeInteger now" and "0 \<le> now"
  shows "\<exists>s' w'. prepareOptionalStandby cfg now s w = (Done s', w') \<and> tw_file w' = holding s' \<and> tw_owners w' = tw_owners w
    \<and> ts_phase s' = ts_phase s \<and> ts_activeRelease s' = ts_activeRelease s \<and> ts_generation s' = ts_generation s"
proof (cases "ts_standbyRelease s")
  case None
  with assms show ?thesis by (simp add: prepareOptionalStandby_def treturn_def)
next
  case (Some r)
  have "tracks_save cfg now (s\<lparr>ts_error := None\<rparr>) w =
      (Done (stamp now (s\<lparr>ts_error := None\<rparr>)), w\<lparr>tw_file := holding (stamp now (s\<lparr>ts_error := None\<rparr>))\<rparr>)"
    by (rule save_ok) (use assms in \<open>auto simp: tracks_ok_iff tracks_schema_ok_def\<close>)
  with Some assms(1) show ?thesis
    by (simp add: prepareOptionalStandby_def host_reads tbind_def tcatch_def host_call_ok treturn_def)
qed

text \<open>What the forward-only steps need: a host with the methods, and a backup that exists or can be made.\<close>

definition forward_ready :: "tracks_config \<Rightarrow> tracks_state \<Rightarrow> bool" where
  "forward_ready cfg s \<longleftrightarrow> (ts_forwardOnly s \<longrightarrow> tc_forward cfg
     \<and> (ts_backupPath s \<noteq> None \<or> \<not> ts_targetWriteStarted s \<and> tc_backup cfg \<noteq> []))"

definition same_handoff :: "track_world \<Rightarrow> track_world \<Rightarrow> bool" where
  "same_handoff w w' \<longleftrightarrow> tw_owners w' = tw_owners w
     \<and> ts_phase (tw_state w') = ts_phase (tw_state w)
     \<and> ts_activeRelease (tw_state w') = ts_activeRelease (tw_state w)
     \<and> ts_targetRelease (tw_state w') = ts_targetRelease (tw_state w)
     \<and> ts_forwardOnly (tw_state w') = ts_forwardOnly (tw_state w)"

lemma forward_ok:
  assumes save: "can_save cfg now w" and ready: "forward_ready cfg (tw_state w)"
  shows "\<exists>w'. forward_part cfg now w = (Done True, w') \<and> can_save cfg now w' \<and> same_handoff w w'"
proof (cases "ts_forwardOnly (tw_state w)")
  case False
  with save show ?thesis
    by (simp add: forward_part_def tbind_Done [OF get_state_Done] treturn_def same_handoff_def)
next
  case True
  let ?backup = "if ts_backupPath (tw_state w) \<noteq> None then treturn ()
              else tbind (tguard (ts_targetWriteStarted (tw_state w)) Backup_missing) (\<lambda>_.
                   tbind (host_backupStoppedState cfg) (\<lambda>path.
                   tbind (set_state (\<lambda>s. s\<lparr>ts_backupPath := Some path\<rparr>)) (\<lambda>_. save_local cfg now)))"
  have "\<exists>w1. ?backup w = (Done (), w1) \<and> can_save cfg now w1 \<and> same_handoff w w1"
  proof (cases "ts_backupPath (tw_state w) = None")
    case None: True
    have "\<exists>w1. tbind (set_state (\<lambda>s. s\<lparr>ts_backupPath := Some (tc_backup cfg)\<rparr>)) (\<lambda>_. save_local cfg now) w = (Done (), w1)
        \<and> can_save cfg now w1 \<and> tw_state w1 = stamp now (tw_state w\<lparr>ts_backupPath := Some (tc_backup cfg)\<rparr>) \<and> tw_owners w1 = tw_owners w"
      by (rule set_save_ok)
        (use save ready True None in \<open>auto simp: can_save_def tracks_ok_iff tracks_schema_ok_def forward_ready_def\<close>)
    with None True ready save show ?thesis
      by (auto simp: forward_ready_def can_save_def same_handoff_def tguard_def host_backupStoppedState_def
        tbind_def treturn_def host_call_ok)
  qed (use save in \<open>simp add: treturn_def same_handoff_def\<close>)
  then obtain w1 where w1: "?backup w = (Done (), w1)" "can_save cfg now w1" "same_handoff w w1" by blast
  have ok1: "tracks_ok cfg (tw_state w1\<lparr>ts_targetWriteStarted := True, ts_standbyRelease := None\<rparr>)"
    using can_save_ok [OF w1(2)] w1(3) True by (auto simp: tracks_ok_iff tracks_schema_ok_def same_handoff_def)
  obtain w2 where w2: "tbind (set_state (\<lambda>s. s\<lparr>ts_targetWriteStarted := True, ts_standbyRelease := None\<rparr>))
      (\<lambda>_. save_local cfg now) w1 = (Done (), w2)" "can_save cfg now w2"
      "tw_state w2 = stamp now (tw_state w1\<lparr>ts_targetWriteStarted := True, ts_standbyRelease := None\<rparr>)" "tw_owners w2 = tw_owners w1"
    using set_save_ok [OF w1(2), of "\<lambda>s. s\<lparr>ts_targetWriteStarted := True, ts_standbyRelease := None\<rparr>"] ok1 by auto
  have "forward_part cfg now w = tbind host_prepareForwardHost (\<lambda>prepared. if \<not> prepared then treturn False
      else tbind (tbind (set_state (\<lambda>s. s\<lparr>ts_targetWriteStarted := True, ts_standbyRelease := None\<rparr>)) (\<lambda>_. save_local cfg now))
        (\<lambda>_. treturn True)) w1"
    unfolding forward_part_def tbind_assoc tbind_Done [OF get_state_Done]
    by (simp only: True not_True_eq_False if_False tbind_Done [of ?backup w "()" w1, OF w1(1)])
  then show ?thesis
    using w1(2,3) w2 by (simp add: tbind_Done [OF host_prepareForwardHost_ok] can_save_def tbind_Done treturn_def same_handoff_def)
qed

lemma activate_ok:
  assumes save: "can_save cfg now w" and T: "ts_targetRelease (tw_state w) = Some T" and none: "tw_owners w = []"
  shows "\<exists>s' w'. activate_target cfg now T w = (Done s', w') \<and> tw_file w' = holding s' \<and> ts_phase s' = Steady
    \<and> ts_activeRelease s' = T \<and> tw_owners w' = [T]"
proof -
  have ok: "tracks_ok cfg (tw_state w\<lparr>ts_phase := Activating\<rparr>)"
    using can_save_ok [OF save] T by (auto simp: tracks_ok_iff tracks_schema_ok_def)
  let ?mark = "tbind (set_state (\<lambda>s. s\<lparr>ts_phase := Activating\<rparr>)) (\<lambda>_. save_local cfg now)"
  obtain w1 where w1: "?mark w = (Done (), w1)"
      "can_save cfg now w1" "tw_state w1 = stamp now (tw_state w\<lparr>ts_phase := Activating\<rparr>)" "tw_owners w1 = tw_owners w"
    using set_save_ok [OF save, of "\<lambda>s. s\<lparr>ts_phase := Activating\<rparr>"] ok by auto
  let ?c = "stamp now (completed_state (tw_state w1) T)"
  let ?w2 = "w1\<lparr>tw_owners := [T]\<rparr>"
  have c: "tracks_ok cfg ?c"
    using can_save_ok [OF w1(2)] w1(2,3) T
    by (auto simp: tracks_ok_iff tracks_schema_ok_def completed_state_def can_save_def)
  have saved: "tracks_save cfg now (completed_state (tw_state w1) T) ?w2 = (Done ?c, ?w2\<lparr>tw_file := holding ?c\<rparr>)"
    by (rule save_ok) (use w1(2) c in \<open>simp_all add: can_save_def completed_state_def\<close>)
  obtain s' w' where fin: "prepareOptionalStandby cfg now ?c (?w2\<lparr>tw_file := holding ?c\<rparr>) = (Done s', w')"
      "tw_file w' = holding s'" "tw_owners w' = tw_owners ?w2" "ts_phase s' = ts_phase ?c" "ts_activeRelease s' = ts_activeRelease ?c"
    using prepare_ok [of "?w2\<lparr>tw_file := holding ?c\<rparr>" ?c cfg now] w1(2) c by (auto simp: can_save_def)
  have "activate_target cfg now T w = (Done s', w')"
    using w1(2) saved fin(1)
    unfolding activate_target_def tbind_assoc [of "set_state f" "\<lambda>_. save_local cfg now" for f, symmetric]
      tbind_Done [of ?mark w "()" w1, OF w1(1)]
    by (simp add: host_activate_def host_reads tbind_def host_call_ok can_save_def get_state_def w1(4) none)
  with fin show ?thesis by (simp add: completed_state_def)
qed

lemma complete_ok:
  assumes save: "can_save cfg now (w\<lparr>tw_state := s\<rparr>)" and T: "ts_targetRelease s = Some T"
    and ready: "forward_ready cfg s" and own: "set (tw_owners w) \<subseteq> {ts_activeRelease s, T}"
  shows "\<exists>s' w'. tracks_complete cfg now s w = (Done s', w') \<and> tw_file w' = holding s' \<and> ts_phase s' = Steady
    \<and> ts_activeRelease s' = T \<and> tw_owners w' = [T]"
proof -
  let ?w1 = "w\<lparr>tw_state := s, tw_owners := []\<rparr>"
  have empty: "removeAll T (removeAll (ts_activeRelease s) (tw_owners w)) = []"
    using own by (auto simp: removeAll_filter_not_eq filter_empty_conv)
  obtain w2 where w2: "forward_part cfg now ?w1 = (Done True, w2)" "can_save cfg now w2" "same_handoff ?w1 w2"
    using forward_ok [of cfg now ?w1] save ready by (auto simp: can_save_def)
  obtain s' w' where fin: "activate_target cfg now T w2 = (Done s', w')" "tw_file w' = holding s'" "ts_phase s' = Steady"
      "ts_activeRelease s' = T" "tw_owners w' = [T]"
    using activate_ok [OF w2(2), of T] w2(3) T by (auto simp: same_handoff_def)
  have "tracks_complete cfg now s w = (Done s', w')"
    using save T ready w2(1) fin(1) empty
    by (simp add: tracks_complete_def validate_target_def host_reads host_releaseExecution_def tbind_def tcatch_def
        set_state_def tguard_def treturn_def host_call_ok can_save_def forward_ready_def)
  with fin show ?thesis by blast
qed

text \<open>
  C10: an interrupted handoff completes. From every reachable world in which a handoff is recorded, once
  the host and the file system answer, \<open>resume\<close> returns: the recorded target is then the active
  release, the stored state is steady, and exactly the target executes. A forward-only handoff needs a
  host with the forward methods and a backup that exists or can still be made.
\<close>

theorem resume_completes:
  assumes "tracks_run cfg w" and "tw_outcomes w = []" and "isSafeInteger now" and "0 \<le> now"
    and "tracks_validate cfg (stored (tc_initial cfg) (tw_file w)) = Inr s"
    and "ts_phase s \<noteq> Steady" and "ts_targetRelease s = Some T" and "forward_ready cfg s"
  shows "\<exists>s' w'. tracks_resume cfg now w = (Done s', w') \<and> tw_file w' = holding s' \<and> ts_phase s' = Steady
    \<and> ts_activeRelease s' = T \<and> tw_owners w' = [T]"
proof -
  have s: "stored (tc_initial cfg) (tw_file w) = s" and ok: "tracks_ok cfg s"
    using assms(5) by (auto simp: tracks_ok_def tracks_validate_def split: if_splits)
  note safe = tracks_run_safe [OF assms(1)]
  then have own: "set (tw_owners w) \<subseteq> {ts_activeRelease s, T}" and rest: "at_rest (tw_file w)"
    using assms(6,7) by (auto simp: single_owner_def own_ok_def s)
  have "\<exists>s' w'. tracks_complete cfg now s w = (Done s', w') \<and> tw_file w' = holding s' \<and> ts_phase s' = Steady
    \<and> ts_activeRelease s' = T \<and> tw_owners w' = [T]"
    by (rule complete_ok) (use assms s ok own rest in \<open>simp_all add: can_save_def\<close>)
  with assms(6) status_ok [OF assms(2) rest, of cfg] show ?thesis
    by (simp add: tracks_resume_def tbind_Done s ok)
qed


section \<open>Sample runs\<close>

definition sample_tracks :: tracks_state where
  "sample_tracks = \<lparr>ts_gatewayNodeId = ''gw'', ts_dataDirectory = ''/data'', ts_generation = 0, ts_activeRelease = ''a'',
     ts_standbyRelease = Some ''s'', ts_phase = Steady, ts_targetRelease = None, ts_forwardOnly = False,
     ts_backupPath = None, ts_targetWriteStarted = False, ts_error = None, ts_updatedAt = None\<rparr>"

definition sample_config :: tracks_config where
  "sample_config = \<lparr>tc_initial = sample_tracks, tc_forward = False, tc_retireStandby = True, tc_backup = [],
     tc_exclusive = True\<rparr>"

definition sample_world :: track_world where
  "sample_world = \<lparr>tw_file = empty_fs, tw_owners = [], tw_outcomes = [], tw_state = sample_tracks\<rparr>"

definition after_start :: track_world where
  "after_start = snd (startDefault sample_config 5 sample_world)"

definition after_schedule :: track_world where
  "after_schedule = snd (scheduleSelection sample_config 6 ''b'' 0 False after_start)"

definition after_failed_select :: track_world where
  "after_failed_select = snd (tracks_select sample_config 6 ''b'' 0
     (after_start\<lparr>tw_outcomes := replicate 9 Host_ok @ [Host_ok, Host_fails ''unhealthy'']\<rparr>))"

lemma sample_reachable: "tracks_run sample_config after_start" "tracks_run sample_config after_schedule"
  "tracks_run sample_config after_failed_select"
proof -
  have fresh: "tracks_run sample_config sample_world"
    by (rule tracks_run.Fresh) (simp_all add: sample_world_def)
  have w0: "sample_world\<lparr>tw_outcomes := []\<rparr> = sample_world" by (simp add: sample_world_def)
  from tracks_run.Start [OF fresh, of 5 "[]"] show start: "tracks_run sample_config after_start"
    by (simp add: after_start_def w0)
  have steady: "careful sample_config ''b'' after_start" by code_simp
  have w1: "after_start\<lparr>tw_outcomes := []\<rparr> = after_start" by code_simp
  from tracks_run.Select [OF start steady, of 6 0 True False "[]"]
  show "tracks_run sample_config after_schedule" by (simp add: after_schedule_def scheduleSelection_def w1)
  from tracks_run.Select [OF start steady, of 6 0 False False "replicate 9 Host_ok @ [Host_ok, Host_fails ''unhealthy'']"]
  show "tracks_run sample_config after_failed_select"
    unfolding after_failed_select_def tracks_select_def by simp
qed

theorem single_execution_witness:
  "tw_owners after_failed_select = [''b''] \<and> length (tw_owners after_failed_select) \<le> 1 \<and> set (tw_owners after_failed_select) \<subseteq>
    {ts_activeRelease (stored (tc_initial sample_config) (tw_file after_failed_select))} \<union>
      (if ts_phase (stored (tc_initial sample_config) (tw_file after_failed_select)) = Steady then {}
       else set_option (ts_targetRelease (stored (tc_initial sample_config) (tw_file after_failed_select))))"
proof -
  have "tw_owners after_failed_select = [''b'']" by code_simp
  with single_execution [OF sample_reachable(3)] show ?thesis by simp
qed

theorem resume_completes_witness:
  "\<exists>s' w'. tracks_resume sample_config 8 after_schedule = (Done s', w') \<and> tw_file w' = holding s' \<and> ts_phase s' = Steady
    \<and> ts_activeRelease s' = ''b'' \<and> tw_owners w' = [''b'']"
proof (rule resume_completes [OF sample_reachable(2)])
  let ?s = "stored (tc_initial sample_config) (tw_file after_schedule)"
  show "tw_outcomes after_schedule = []" by code_simp
  show "tracks_validate sample_config ?s = Inr ?s" by code_simp
  show "ts_phase ?s \<noteq> Steady" by code_simp
  show "ts_targetRelease ?s = Some ''b''" by code_simp
  show "forward_ready sample_config ?s" by code_simp
qed (simp_all add: isSafeInteger_def max_safe_integer_def)

end
