(* ===== verification/Track_Blocking.thy ===== *)
theory Track_Blocking
  imports Track_Safety
begin

text \<open>
  What the execution tracks cannot repair: a release that executes although the recorded handoff does not
  name it. The controller ends only executions it has recorded, and the lock of the data directory refuses
  every other activation, so the handoff stays unfinished for ever. A selection the controller accepts
  leads there.
\<close>

section \<open>An execution that no handoff records\<close>

text \<open>
  A release that executes but is neither the active release nor the target nor the standby of the recorded
  handoff; and the same of the state of a running operation.
\<close>

definition forgotten :: "string \<Rightarrow> tracks_state \<Rightarrow> bool" where
  "forgotten B s \<longleftrightarrow> ts_phase s \<noteq> Steady \<and> B \<noteq> ts_activeRelease s \<and> ts_targetRelease s \<noteq> Some B
     \<and> ts_standbyRelease s \<noteq> Some B"

definition blocked :: "tracks_config \<Rightarrow> string \<Rightarrow> track_world \<Rightarrow> bool" where
  "blocked cfg B w \<longleftrightarrow> tc_exclusive cfg \<and> at_rest (tw_file w) \<and> tw_owners w = [B]
     \<and> forgotten B (stored (tc_initial cfg) (tw_file w))"

interpretation bl: crash_invariant "blocked cfg B" for cfg B
  by unfold_locales (simp add: blocked_def)

definition blocked_op :: "tracks_config \<Rightarrow> string \<Rightarrow> track_world \<Rightarrow> bool" where
  "blocked_op cfg B w \<longleftrightarrow> blocked cfg B w \<and> forgotten B (tw_state w)"

abbreviation unsettled :: "tracks_config \<Rightarrow> string \<Rightarrow> tracks_state \<Rightarrow> track_world \<Rightarrow> bool" where
  "unsettled cfg B s w \<equiv> blocked cfg B w \<and> ts_phase s \<noteq> Steady"

lemma blocked_outcomes [simp]: "blocked cfg B (w\<lparr>tw_outcomes := xs\<rparr>) = blocked cfg B w"
  "blocked_op cfg B (w\<lparr>tw_outcomes := xs\<rparr>) = blocked_op cfg B w"
  by (simp_all add: blocked_op_def blocked_def)

lemma blocked_host:
  assumes "blocked_op cfg B w" and "eff [B] = [B]"
  shows "bl.wp cfg B (host_call eff) (\<lambda>_. blocked_op cfg B) (\<lambda>_. blocked_op cfg B) w"
  by (rule bl.wp_host_call) (use assms in \<open>auto simp: blocked_op_def blocked_def\<close>)

lemma blocked_file_tx:
  assumes "blocked cfg B w"
    and "\<And>r s b xs. f (stored (tc_initial cfg) (tw_file w)) = Inr (r, s, b) \<Longrightarrow>
      (b \<longrightarrow> forgotten B s) \<and> Q r (w\<lparr>tw_outcomes := xs, tw_file := if b then holding s else tw_file w\<rparr>)"
  shows "bl.wp cfg B (file_tx cfg f) Q (\<lambda>_ w'. blocked cfg B w' \<and> tw_state w' = tw_state w) w"
proof -
  have tx: "transaction (tc_initial cfg) f (tw_file w) =
    (case f (stored (tc_initial cfg) (tw_file w)) of
       Inl e \<Rightarrow> (Inl (Inr e), tw_file w)
     | Inr (r, s, changed) \<Rightarrow> (Inr r, if changed then holding s else tw_file w))"
    by (rule transaction_on_read, rule at_rest_read) (use assms(1) in \<open>simp add: blocked_def\<close>)
  show ?thesis unfolding file_tx_def
    by (rule bl.wp_call [OF assms(1)])
      (use tx assms in \<open>auto simp: bl.wp_def blocked_def split: sum.splits prod.splits if_splits\<close>)
qed

lemma blocked_save_local:
  assumes "blocked_op cfg B w"
  shows "bl.wp cfg B (save_local cfg now) (\<lambda>_. blocked_op cfg B) (\<lambda>_. blocked_op cfg B) w"
proof -
  let ?s = "stamp now (tw_state w)" let ?w = "w\<lparr>tw_state := ?s\<rparr>"
  have s: "forgotten B ?s" and w: "blocked_op cfg B ?w" "blocked cfg B ?w"
    using assms by (auto simp: blocked_op_def blocked_def forgotten_def)
  have "bl.wp cfg B (file_tx cfg (\<lambda>raw. rbind (tracks_validate cfg raw) (\<lambda>current.
      if ts_generation current \<noteq> ts_generation ?s then Inl Generation_changed else Inr (?s, ?s, True))))
      (\<lambda>_. blocked_op cfg B) (\<lambda>_ w'. blocked cfg B w' \<and> tw_state w' = tw_state ?w) ?w"
    by (rule blocked_file_tx [OF w(2)])
      (use s w in \<open>auto simp: rbind_eq_Inr blocked_op_def blocked_def split: if_splits\<close>)
  then have "bl.wp cfg B (file_tx cfg (\<lambda>raw. rbind (tracks_validate cfg raw) (\<lambda>current.
      if ts_generation current \<noteq> ts_generation ?s then Inl Generation_changed else Inr (?s, ?s, True))))
      (\<lambda>_. blocked_op cfg B) (\<lambda>_. blocked_op cfg B) ?w"
    by (rule bl.wp_mono) (use s in \<open>auto simp: blocked_op_def\<close>)
  then show ?thesis
    unfolding save_local_def bl.wp_rules tracks_save_def Let_def
    using w by (auto simp: bl.wp_rules split: sum.splits cong: if_cong)
qed

lemma blocked_set_save:
  assumes "blocked_op cfg B w" and "\<And>s. forgotten B s \<Longrightarrow> forgotten B (f s)"
  shows "bl.wp cfg B (tbind (set_state f) (\<lambda>_. save_local cfg now)) (\<lambda>_. blocked_op cfg B) (\<lambda>_. blocked_op cfg B) w"
  unfolding bl.wp_rules by (rule blocked_save_local) (use assms in \<open>simp add: blocked_op_def blocked_def\<close>)

lemma blocked_forward:
  assumes "blocked_op cfg B w"
  shows "bl.wp cfg B (forward_part cfg now) (\<lambda>_. blocked_op cfg B) (\<lambda>_. blocked_op cfg B) w"
proof -
  let ?L = "\<lambda>_. blocked_op cfg B"
  have backup: "bl.wp cfg B (tbind (host_backupStoppedState cfg) (\<lambda>path.
      tbind (set_state (\<lambda>s. s\<lparr>ts_backupPath := Some path\<rparr>)) (\<lambda>_. save_local cfg now))) ?L ?L w'" if "blocked_op cfg B w'" for w'
    unfolding host_backupStoppedState_def bl.wp_bind [of _ _ "tbind _ _"] bl.wp_bind [of _ _ "host_call id"] bl.wp_return
    by (rule bl.wp_mono [OF blocked_host [OF that]]) (auto intro!: blocked_set_save simp: forgotten_def)
  have started: "bl.wp cfg B (tbind (set_state (\<lambda>s. s\<lparr>ts_targetWriteStarted := True, ts_standbyRelease := None\<rparr>)) (\<lambda>_.
      tbind (save_local cfg now) (\<lambda>_. treturn True))) ?L ?L w'" if "blocked_op cfg B w'" for w'
    using blocked_set_save [OF that, of "\<lambda>s. s\<lparr>ts_targetWriteStarted := True, ts_standbyRelease := None\<rparr>" now]
    by (simp add: bl.wp_rules forgotten_def)
  have prepare: "bl.wp cfg B host_prepareForwardHost ?L ?L w'" if "blocked_op cfg B w'" for w'
  proof -
    have "bl.wp cfg B (tbind (host_call id) (\<lambda>_. treturn b)) ?L ?L w'" for b
      unfolding bl.wp_rules by (rule blocked_host [OF that]) simp
    then show ?thesis by (simp add: bl.wp_def host_prepareForwardHost_def)
  qed
  have rest: "bl.wp cfg B (tbind host_prepareForwardHost (\<lambda>prepared. if \<not> prepared then treturn False
      else tbind (set_state (\<lambda>s. s\<lparr>ts_targetWriteStarted := True, ts_standbyRelease := None\<rparr>)) (\<lambda>_.
           tbind (save_local cfg now) (\<lambda>_. treturn True)))) ?L ?L w'" if "blocked_op cfg B w'" for w'
    by (rule bl.wp_seq [OF prepare [OF that]]) (auto simp: bl.wp_return intro: started)
  have first: "bl.wp cfg B (if ts_backupPath (tw_state w) \<noteq> None then treturn ()
      else tbind (tguard (ts_targetWriteStarted (tw_state w)) Backup_missing) (\<lambda>_.
           tbind (host_backupStoppedState cfg) (\<lambda>path.
           tbind (set_state (\<lambda>s. s\<lparr>ts_backupPath := Some path\<rparr>)) (\<lambda>_. save_local cfg now)))) ?L ?L w"
    using backup [OF assms] assms by (auto simp: bl.wp_return bl.wp_guard bl.wp_bind [of _ _ "tguard _ _"])
  show ?thesis
  proof (cases "ts_forwardOnly (tw_state w)")
    case True
    then show ?thesis
      unfolding forward_part_def bl.wp_bind [of _ _ get_state] bl.wp_get
      by (simp only: True not_True_eq_False if_False) (rule bl.wp_seq [OF first], rule rest)
  qed (simp add: forward_part_def bl.wp_rules assms)
qed

text \<open>The activation is refused, whatever the target.\<close>

lemma blocked_activate:
  assumes "blocked_op cfg B w" and "T \<noteq> B"
  shows "bl.wp cfg B (activate_target cfg now T) Q (\<lambda>_. blocked_op cfg B) w"
proof -
  let ?rest = "\<lambda>_. tbind (host_verifyActive T) (\<lambda>_. tbind get_state (\<lambda>s.
     tbind (tracks_save cfg now (completed_state s T)) (prepareOptionalStandby cfg now)))"
  have refused: "bl.wp cfg B (host_activate cfg T) R (\<lambda>_. blocked_op cfg B) w'" if "blocked_op cfg B w'" for R w'
    unfolding host_activate_def
    by (rule bl.wp_call) (use that assms(2) in \<open>auto simp: bl.wp_def blocked_op_def blocked_def\<close>)
  have "bl.wp cfg B (tbind (tbind (set_state (\<lambda>s. s\<lparr>ts_phase := Activating\<rparr>)) (\<lambda>_. save_local cfg now))
      (\<lambda>_. tbind (host_activate cfg T) ?rest)) Q (\<lambda>_. blocked_op cfg B) w"
    by (rule bl.wp_seq [OF blocked_set_save [OF assms(1)]]) (auto simp: forgotten_def bl.wp_bind [of _ _ "host_activate cfg T"] intro: refused)
  then show ?thesis by (simp add: activate_target_def bl.wp_bind)
qed

lemma blocked_complete:
  assumes "blocked cfg B w" and "forgotten B s"
  shows "bl.wp cfg B (tracks_complete cfg now s) (\<lambda>s'. unsettled cfg B s') (\<lambda>_. blocked cfg B) w"
proof (cases "ts_targetRelease s")
  case (Some T)
  let ?L = "\<lambda>_. blocked_op cfg B" and ?Q = "\<lambda>s'. unsettled cfg B s'"
  let ?w = "w\<lparr>tw_state := s\<rparr>"
  have L: "blocked_op cfg B ?w" using assms by (simp add: blocked_op_def blocked_def)
  have T: "T \<noteq> B" "ts_activeRelease s \<noteq> B" using assms(2) Some by (auto simp: forgotten_def)
  have valid: "bl.wp cfg B (validate_target cfg s T) ?L ?L ?w"
    unfolding validate_target_def bl.wp_rules host_reads using L by (auto intro!: blocked_host)
  have rel: "bl.wp cfg B (host_releaseExecution r) ?L ?L w'" if "blocked_op cfg B w'" "r \<noteq> B" for r w'
    unfolding host_releaseExecution_def by (rule blocked_host) (use that in auto)
  have step: "bl.wp cfg B (if \<not> proceed then get_state else activate_target cfg now T) ?Q ?L w'" if "blocked_op cfg B w'" for proceed w'
    using that blocked_activate [OF that T(1)] by (auto simp: bl.wp_get blocked_op_def forgotten_def)
  have body: "bl.wp cfg B (tbind (validate_target cfg s T) (\<lambda>_.
             tbind (host_releaseExecution (ts_activeRelease s)) (\<lambda>_.
             tbind (host_releaseExecution T) (\<lambda>_.
             tbind (forward_part cfg now) (\<lambda>proceed.
             if \<not> proceed then get_state else activate_target cfg now T))))) ?Q ?L ?w"
    by (rule bl.wp_seq [OF valid], rule bl.wp_seq [OF rel [OF _ T(2)]], assumption,
        rule bl.wp_seq [OF rel [OF _ T(1)]], assumption, rule bl.wp_seq [OF blocked_forward], assumption,
        rule step)
  have fail: "bl.wp cfg B (fail_attention cfg now id e) ?Q (\<lambda>_. blocked cfg B) w'" if "blocked_op cfg B w'" for e w'
  proof -
    have "bl.wp cfg B (tbind (set_state (\<lambda>s. id (s\<lparr>ts_phase := Attention, ts_error := Some (track_error_message e)\<rparr>)))
        (\<lambda>_. save_local cfg now)) ?L ?L w'"
      by (rule blocked_set_save [OF that]) (simp add: forgotten_def)
    then have "bl.wp cfg B (tbind (set_state (\<lambda>s. id (s\<lparr>ts_phase := Attention, ts_error := Some (track_error_message e)\<rparr>)))
        (\<lambda>_. save_local cfg now)) (\<lambda>_. blocked cfg B) (\<lambda>_. blocked cfg B) w'"
      by (rule bl.wp_mono) (simp_all add: blocked_op_def)
    then show ?thesis by (simp add: fail_attention_def bl.wp_rules)
  qed
  have "bl.wp cfg B (tcatch (tbind (validate_target cfg s T) (\<lambda>_.
             tbind (host_releaseExecution (ts_activeRelease s)) (\<lambda>_.
             tbind (host_releaseExecution T) (\<lambda>_.
             tbind (forward_part cfg now) (\<lambda>proceed.
             if \<not> proceed then get_state else activate_target cfg now T))))) (fail_attention cfg now id))
     ?Q (\<lambda>_. blocked cfg B) ?w"
    unfolding bl.wp_catch by (rule bl.wp_mono [OF body]) (auto intro: fail)
  then show ?thesis by (simp add: tracks_complete_def Some bl.wp_set bl.wp_bind [of _ _ "set_state _"])
qed (use assms in \<open>simp add: tracks_complete_def bl.wp_throw\<close>)

lemma blocked_status:
  assumes "blocked cfg B w"
  shows "bl.wp cfg B (tracks_status cfg) (\<lambda>s w'. blocked cfg B w' \<and> s = stored (tc_initial cfg) (tw_file w')
    \<and> forgotten B s \<and> tracks_validate cfg s = Inr s) (\<lambda>_. blocked cfg B) w"
  unfolding tracks_status_def
  by (rule bl.wp_mono [OF blocked_file_tx [OF assms, where Q = "\<lambda>s w'. blocked cfg B w' \<and>
        s = stored (tc_initial cfg) (tw_file w') \<and> forgotten B s \<and> tracks_validate cfg s = Inr s"]])
    (use assms in \<open>auto simp: rbind_eq_Inr blocked_def tracks_validate_def split: if_splits\<close>)

lemma forgotten_requested:
  assumes "forgotten B s" and "tracks_validate cfg s = Inr s'" and "r \<noteq> B"
  shows "forgotten B (requested r forward now s)"
  using assms by (auto simp: forgotten_def requested_def tracks_validate_def split: if_splits)

lemma blocked_keep:
  assumes "blocked cfg B w" and "eff [B] = [B]"
  shows "bl.wp cfg B (host_call eff) (\<lambda>_. blocked cfg B) (\<lambda>_. blocked cfg B) w"
  by (rule bl.wp_host_call) (use assms in \<open>auto simp: blocked_def\<close>)

lemma blocked_begin:
  assumes "blocked cfg B w" and "r \<noteq> B" and "ts_phase s \<noteq> Steady"
  shows "bl.wp cfg B (begin_handoff cfg now r generation deferred forward s) (\<lambda>s'. unsettled cfg B s') (\<lambda>_. blocked cfg B) w"
proof -
  let ?B = "\<lambda>_. blocked cfg B" and ?Q = "\<lambda>s'. unsettled cfg B s'"
  let ?f = "\<lambda>raw. rbind (tracks_validate cfg raw) (\<lambda>s'.
         if ts_generation s' \<noteq> generation \<or> ts_phase s' \<noteq> ts_phase s then Inl Handoff_changed
         else (let next = requested r forward now raw in Inr (next, next, True)))"
  have tx: "bl.wp cfg B (file_tx cfg ?f) (\<lambda>x w'. blocked cfg B w' \<and> forgotten B x) ?B w'" if "blocked cfg B w'" for w'
  proof -
    have "bl.wp cfg B (file_tx cfg ?f) (\<lambda>x w'. blocked cfg B w' \<and> forgotten B x)
        (\<lambda>_ w''. blocked cfg B w'' \<and> tw_state w'' = tw_state w') w'"
      by (rule blocked_file_tx [OF that])
        (use that assms(2) in \<open>auto simp: rbind_eq_Inr Let_def blocked_def intro: forgotten_requested split: if_splits\<close>)
    then show ?thesis by (rule bl.wp_mono) simp_all
  qed
  have last: "bl.wp cfg B (tbind (file_tx cfg ?f) (\<lambda>intent. if deferred then treturn intent else tracks_complete cfg now intent))
      ?Q ?B w'" if "blocked cfg B w'" for w'
    by (rule bl.wp_seq [OF tx [OF that]]) (auto simp: bl.wp_return forgotten_def intro: blocked_complete)
  have ensure: "bl.wp cfg B (tbind (host_ensureStandby r) (\<lambda>_. tbind (file_tx cfg ?f)
      (\<lambda>intent. if deferred then treturn intent else tracks_complete cfg now intent))) ?Q ?B w'" if "blocked cfg B w'" for w'
    unfolding host_reads by (rule bl.wp_seq [OF blocked_keep [OF that]], simp, rule last)
  have "bl.wp cfg B (tbind (if forward then host_validateForwardRelease r else host_validateRelease r) (\<lambda>_.
      tbind (host_ensureStandby r) (\<lambda>_. tbind (file_tx cfg ?f)
      (\<lambda>intent. if deferred then treturn intent else tracks_complete cfg now intent)))) ?Q ?B w"
    by (rule bl.wp_seq [where R = ?B]) (use assms(1) in \<open>simp add: host_reads blocked_keep\<close>, rule ensure)
  then show ?thesis
    using assms(1,3) by (simp add: begin_handoff_def bl.wp_bind [of _ _ "tguard _ _"] bl.wp_bind [of _ _ "treturn _"]
        bl.wp_guard bl.wp_return bl.wp_bind cong: if_cong)
qed

lemma blocked_select:
  assumes "blocked cfg B w"
  shows "bl.wp cfg B (requestSelection cfg now r generation deferred forward) (\<lambda>s'. unsettled cfg B s') (\<lambda>_. blocked cfg B) w"
proof -
  have "bl.wp cfg B (tbind (tracks_status cfg) (\<lambda>current.
     tbind (tguard (ts_generation current \<noteq> generation) Selection_changed) (\<lambda>_.
     tbind (tguard (ts_phase current \<noteq> Steady \<and> ts_phase current \<noteq> Attention) Handoff_running) (\<lambda>_.
     if ts_phase current = Attention \<and> ts_forwardOnly current then
       tbind (tguard (Some r \<noteq> ts_targetRelease current) Older_reader) (\<lambda>_.
       if deferred then treturn current else tracks_complete cfg now current)
     else
       tbind (tguard (ts_phase current = Attention \<and> r \<noteq> ts_activeRelease current
         \<and> Some r \<noteq> ts_targetRelease current \<and> Some r \<noteq> ts_standbyRelease current)
         Unresolved_handoff) (\<lambda>_.
       if r = ts_activeRelease current \<and> ts_phase current = Steady then treturn current
       else begin_handoff cfg now r generation deferred forward current)))))
     (\<lambda>s'. unsettled cfg B s') (\<lambda>_. blocked cfg B) w"
  proof (rule bl.wp_seq [OF blocked_status [OF assms]], elim conjE)
    fix s w'
    assume w': "blocked cfg B w'" and s: "forgotten B s"
    have "r \<noteq> B" if "\<not> (r \<noteq> ts_activeRelease s \<and> Some r \<noteq> ts_targetRelease s \<and> Some r \<noteq> ts_standbyRelease s)"
      using that s by (auto simp: forgotten_def)
    with w' s show "bl.wp cfg B (tbind (tguard (ts_generation s \<noteq> generation) Selection_changed) (\<lambda>_.
     tbind (tguard (ts_phase s \<noteq> Steady \<and> ts_phase s \<noteq> Attention) Handoff_running) (\<lambda>_.
     if ts_phase s = Attention \<and> ts_forwardOnly s then
       tbind (tguard (Some r \<noteq> ts_targetRelease s) Older_reader) (\<lambda>_.
       if deferred then treturn s else tracks_complete cfg now s)
     else
       tbind (tguard (ts_phase s = Attention \<and> r \<noteq> ts_activeRelease s
         \<and> Some r \<noteq> ts_targetRelease s \<and> Some r \<noteq> ts_standbyRelease s)
         Unresolved_handoff) (\<lambda>_.
       if r = ts_activeRelease s \<and> ts_phase s = Steady then treturn s
       else begin_handoff cfg now r generation deferred forward s))))
     (\<lambda>s'. unsettled cfg B s') (\<lambda>_. blocked cfg B) w'"
      by (auto simp: bl.wp_bind [of _ _ "tguard _ _"] bl.wp_guard bl.wp_return forgotten_def
          intro: blocked_complete blocked_begin)
  qed
  with assms show ?thesis by (simp add: requestSelection_def bl.wp_bind [of _ _ "tguard _ _"] bl.wp_guard)
qed

lemma blocked_resume:
  assumes "blocked cfg B w"
  shows "bl.wp cfg B (tracks_resume cfg now) (\<lambda>s'. unsettled cfg B s') (\<lambda>_. blocked cfg B) w"
  unfolding tracks_resume_def
  by (rule bl.wp_seq [OF blocked_status [OF assms]]) (auto simp: forgotten_def intro: blocked_complete)

lemma blocked_start:
  assumes "blocked cfg B w"
  shows "bl.wp cfg B (startDefault cfg now) (\<lambda>_. blocked cfg B) (\<lambda>_. blocked cfg B) w"
proof -
  have "bl.wp cfg B (tbind (tracks_complete cfg now s) (\<lambda>_. treturn ())) (\<lambda>_. blocked cfg B) (\<lambda>_. blocked cfg B) w'"
    if "blocked cfg B w'" "forgotten B s" for s w'
    by (rule bl.wp_seq [OF blocked_complete [OF that]]) (simp add: bl.wp_return)
  then show ?thesis
    unfolding startDefault_def
    by (intro bl.wp_seq [OF blocked_status [OF assms]]) (auto simp: forgotten_def)
qed

text \<open>The operations a supervisor can run, each with the outcomes of its calls.\<close>

datatype track_command = Run_select string int bool bool | Run_resume | Run_start

fun command_step :: "tracks_config \<Rightarrow> track_command \<times> int \<times> host_outcome list \<Rightarrow> track_world \<Rightarrow> track_world" where
  "command_step cfg (Run_select r generation deferred forward, now, xs) w =
     snd (requestSelection cfg now r generation deferred forward (w\<lparr>tw_outcomes := xs\<rparr>))"
| "command_step cfg (Run_resume, now, xs) w = snd (tracks_resume cfg now (w\<lparr>tw_outcomes := xs\<rparr>))"
| "command_step cfg (Run_start, now, xs) w = snd (startDefault cfg now (w\<lparr>tw_outcomes := xs\<rparr>))"

lemma blocked_command: "blocked cfg B w \<Longrightarrow> blocked cfg B (command_step cfg c w)"
proof -
  assume w: "blocked cfg B w"
  obtain cmd now xs where c: "c = (cmd, now, xs)" by (metis prod.exhaust)
  let ?w = "w\<lparr>tw_outcomes := xs\<rparr>"
  have w': "blocked cfg B ?w" using w by simp
  show ?thesis
  proof (cases cmd)
    case (Run_select r g d f)
    with bl.wp_invariant [OF bl.wp_mono [OF blocked_select [OF w', of now r g d f]]] c show ?thesis by simp
  next
    case Run_resume
    with bl.wp_invariant [OF bl.wp_mono [OF blocked_resume [OF w', of now]]] c show ?thesis by simp
  next
    case Run_start
    with bl.wp_invariant [OF blocked_start [OF w', of now]] c show ?thesis by simp
  qed
qed

text \<open>
  C11: an execution that the recorded handoff does not name is never ended by the controller. When a
  release \<open>B\<close> executes that is neither the active release nor the target nor the standby of an unfinished
  handoff, and the lock taken by \<open>activate\<close> excludes others, then whatever selections, resumptions and
  starts follow, with whatever outcomes of their calls, \<open>B\<close> keeps executing alone and the handoff stays
  unfinished.
\<close>

theorem unrecorded_execution_blocks:
  assumes "tc_exclusive cfg" and "at_rest (tw_file w)" and "tw_owners w = [B]"
    and "forgotten B (stored (tc_initial cfg) (tw_file w))"
    and "w' = fold (command_step cfg) commands w"
  shows "tw_owners w' = [B] \<and> ts_phase (stored (tc_initial cfg) (tw_file w')) \<noteq> Steady"
proof -
  have "blocked cfg B w" using assms(1-4) by (simp add: blocked_def)
  then have "blocked cfg B (fold (command_step cfg) commands w)"
    by (induction commands arbitrary: w) (auto intro: blocked_command)
  then show ?thesis using assms(5) by (simp add: blocked_def forgotten_def)
qed

text \<open>
  The controller brings that about itself. After a handoff whose target \<open>b\<close> was activated and then failed
  its verification, it accepts a selection of the older standby release \<open>s\<close>, which forgets \<open>b\<close>.
\<close>

definition after_standby_select :: track_world where
  "after_standby_select = command_step sample_config (Run_select ''s'' 1 False False, 7, []) after_failed_select"

theorem unrecorded_execution_blocks_witness:
  "tw_owners (fold (command_step sample_config) [(Run_resume, 8, []), (Run_select ''b'' 2 False False, 9, []), (Run_start, 10, [])]
      after_standby_select) = [''b'']
   \<and> ts_phase (stored sample_tracks (tw_file (fold (command_step sample_config)
      [(Run_resume, 8, []), (Run_select ''b'' 2 False False, 9, []), (Run_start, 10, [])] after_standby_select))) \<noteq> Steady"
proof -
  have "tc_exclusive sample_config" by (simp add: sample_config_def)
  moreover have "tw_file after_standby_select = holding (stored sample_tracks (tw_file after_standby_select))" by code_simp
  then have "at_rest (tw_file after_standby_select)" by (metis at_rest_simps(1))
  moreover have "tw_owners after_standby_select = [''b'']" by code_simp
  moreover have "forgotten ''b'' (stored (tc_initial sample_config) (tw_file after_standby_select))" by code_simp
  ultimately show ?thesis
    using unrecorded_execution_blocks [OF _ _ _ _ refl, of sample_config after_standby_select "''b''"
        "[(Run_resume, 8, []), (Run_select ''b'' 2 False False, 9, []), (Run_start, 10, [])]"]
    by (simp add: sample_config_def)
qed

end
