(* ===== verification/Lock_Files.thy ===== *)
theory Lock_Files
  imports Prelude
begin

text \<open>
  Locks that are files: what the cross-process lock of the JSON stores and the lock of the gateway's
  data directory share. A lock file holds the complete record of its owner, published by one atomic
  \<open>link\<close>. Processes take turns in any order, one file-system call at a time; a process may die between
  any two calls. A process here is one incarnation (a PID with its start marker), so a dead process
  never moves again.
\<close>

section \<open>State\<close>

text \<open>The owner record: the process and the token it drew for the acquisition.\<close>

type_synonym lock_owner = "nat \<times> nat"

record 'pc lock_world =
  lk_file :: "lock_owner option" \<comment> \<open>what is at the lock path\<close>
  lk_temp :: "lock_owner \<Rightarrow> bool" \<comment> \<open>the temporary files, named by process and token, that a \<open>link\<close> publishes\<close>
  lk_stale :: "nat \<Rightarrow> lock_owner option" \<comment> \<open>what each process moved aside, under a name of its own\<close>
  lk_pc :: "nat \<Rightarrow> 'pc"
  lk_token :: "nat \<Rightarrow> nat"
  lk_next :: nat \<comment> \<open>source of fresh tokens\<close>
  lk_dead :: "nat \<Rightarrow> bool"

text \<open>The file-system calls a process makes, and its death.\<close>

datatype lock_action =
    Start nat
  | Write_temp nat
  | Link nat
  | Unlink_temp nat
  | Read_owner nat
  | Judge nat bool \<comment> \<open>with the answer of the operating system that the owner that was read has exited\<close>
  | Move_aside nat
  | Check_moved nat
  | Finish nat
  | Give_up nat
  | Release nat
  | Unlink nat
  | Die nat

fun actor :: "lock_action \<Rightarrow> nat" where
  "actor (Start p) = p"
| "actor (Write_temp p) = p"
| "actor (Link p) = p"
| "actor (Unlink_temp p) = p"
| "actor (Read_owner p) = p"
| "actor (Judge p _) = p"
| "actor (Move_aside p) = p"
| "actor (Check_moved p) = p"
| "actor (Finish p) = p"
| "actor (Give_up p) = p"
| "actor (Release p) = p"
| "actor (Unlink p) = p"
| "actor (Die p) = p"

abbreviation at_pc :: "nat \<Rightarrow> 'pc \<Rightarrow> 'pc lock_world \<Rightarrow> 'pc lock_world" where
  "at_pc p c w \<equiv> w\<lparr>lk_pc := (lk_pc w)(p := c)\<rparr>"

text \<open>A new acquisition draws a fresh token.\<close>

definition draw_token :: "nat \<Rightarrow> 'pc lock_world \<Rightarrow> 'pc lock_world" where
  "draw_token p w = w\<lparr>lk_token := (lk_token w)(p := lk_next w), lk_next := lk_next w + 1\<rparr>"

text \<open>The temporary record of the acquisition is written (\<open>wx\<close>), and unlinked again.\<close>

definition temp_exists :: "nat \<Rightarrow> 'pc lock_world \<Rightarrow> bool" where
  "temp_exists p w \<longleftrightarrow> lk_temp w (p, lk_token w p)"

definition write_temp :: "nat \<Rightarrow> 'pc lock_world \<Rightarrow> 'pc lock_world" where
  "write_temp p w = w\<lparr>lk_temp := (lk_temp w)((p, lk_token w p) := True)\<rparr>"

definition unlink_temp :: "nat \<Rightarrow> 'pc lock_world \<Rightarrow> 'pc lock_world" where
  "unlink_temp p w = w\<lparr>lk_temp := (lk_temp w)((p, lk_token w p) := False)\<rparr>"

definition publish :: "nat \<Rightarrow> 'pc lock_world \<Rightarrow> 'pc lock_world" where
  "publish p w = w\<lparr>lk_file := Some (p, lk_token w p)\<rparr>"

definition move_aside :: "nat \<Rightarrow> 'pc lock_world \<Rightarrow> 'pc lock_world" where
  "move_aside p w = w\<lparr>lk_file := None, lk_stale := (lk_stale w)(p := lk_file w)\<rparr>"

definition drop_stale :: "nat \<Rightarrow> 'pc lock_world \<Rightarrow> 'pc lock_world" where
  "drop_stale p w = w\<lparr>lk_stale := (lk_stale w)(p := None)\<rparr>"

definition own_lock :: "nat \<Rightarrow> 'pc lock_world \<Rightarrow> bool" where
  "own_lock p w \<longleftrightarrow> lk_file w = Some (p, lk_token w p)"

definition no_locks :: "'pc \<Rightarrow> 'pc lock_world" where
  "no_locks idle = \<lparr>lk_file = None, lk_temp = (\<lambda>_. False), lk_stale = (\<lambda>_. None), lk_pc = (\<lambda>_. idle), lk_token = (\<lambda>_. 0),
     lk_next = 1, lk_dead = (\<lambda>_. False)\<rparr>"

lemmas lock_ops = draw_token_def temp_exists_def write_temp_def unlink_temp_def publish_def move_aside_def drop_stale_def own_lock_def

section \<open>Runs\<close>

text \<open>
  A token that has not been drawn names no temporary record: tokens are random UUIDs in the code.
\<close>

definition fresh_tokens :: "'pc lock_world \<Rightarrow> bool" where
  "fresh_tokens w \<longleftrightarrow> (\<forall>p n. lk_next w \<le> n \<longrightarrow> \<not> lk_temp w (p, n)) \<and> (\<forall>p. lk_token w p < lk_next w)"

text \<open>A run is a list of actions, each enabled where it happens and allowed by a side condition.\<close>

fun lock_run :: "('a \<Rightarrow> 'w \<Rightarrow> 'w option) \<Rightarrow> ('a \<Rightarrow> 'w \<Rightarrow> bool) \<Rightarrow> 'a list \<Rightarrow> 'w \<Rightarrow> 'w option" where
  "lock_run step allowed [] w = Some w"
| "lock_run step allowed (a # as) w =
     (if allowed a w then (case step a w of None \<Rightarrow> None | Some w' \<Rightarrow> lock_run step allowed as w') else None)"

section \<open>The contract of a lock\<close>

text \<open>
  What a lock promises: an invariant its allowed actions keep, under which a holder's own record is at
  the lock path. Exclusion follows for every allowed run.
\<close>

locale file_lock =
  fixes step :: "lock_action \<Rightarrow> 'pc lock_world \<Rightarrow> 'pc lock_world option"
    and allowed :: "lock_action \<Rightarrow> 'pc lock_world \<Rightarrow> bool"
    and holds :: "'pc lock_world \<Rightarrow> nat \<Rightarrow> bool"
    and inv :: "'pc lock_world \<Rightarrow> bool"
    and idle :: 'pc
  assumes inv_start: "inv (no_locks idle)"
    and inv_step: "inv w \<Longrightarrow> allowed a w \<Longrightarrow> step a w = Some w' \<Longrightarrow> inv w'"
    and holds_own: "inv w \<Longrightarrow> holds w p \<Longrightarrow> own_lock p w"
begin

lemma run_inv: "lock_run step allowed as w = Some w' \<Longrightarrow> inv w \<Longrightarrow> inv w'"
  by (induction as arbitrary: w) (auto split: if_splits option.splits intro: inv_step)

lemma exclusion:
  assumes "lock_run step allowed as (no_locks idle) = Some w" and "holds w p" and "holds w q"
  shows "p = q"
proof -
  have "inv w" using assms(1) inv_start by (rule run_inv)
  from holds_own [OF this assms(2)] holds_own [OF this assms(3)] show ?thesis
    by (simp add: own_lock_def)
qed

end

section \<open>Locks that reclaim the record of an exited owner\<close>

text \<open>
  Both locks work alike: there are points of the protocol at which a process owns the lock, and a point
  at which it has judged the owner of a record it read earlier as exited and is about to move away
  whatever is at the lock path by then. The side condition is that what it moves is that record.
\<close>

locale reclaiming_lock =
  fixes step :: "lock_action \<Rightarrow> 'pc lock_world \<Rightarrow> 'pc lock_world option"
    and owning :: "'pc \<Rightarrow> bool"
    and judged :: "'pc \<Rightarrow> lock_owner option"
    and extra :: "'pc \<Rightarrow> lock_owner option \<Rightarrow> bool" \<comment> \<open>of the point and the process's stale path\<close>
    and idle :: 'pc
  assumes idle: "\<not> owning idle" "judged idle = None" "extra idle s"
    and step_live: "step a w = Some w' \<Longrightarrow> \<not> lk_dead w (actor a)"
    and step_other: "step a w = Some w' \<Longrightarrow> r \<noteq> actor a \<Longrightarrow> lk_pc w' r = lk_pc w r \<and> lk_token w' r = lk_token w r
      \<and> lk_stale w' r = lk_stale w r \<and> lk_dead w' r = lk_dead w r"
    and step_dead: "step a w = Some w' \<Longrightarrow> lk_dead w r \<Longrightarrow> lk_dead w' r"
    and step_file: "step a w = Some w' \<Longrightarrow> extra (lk_pc w (actor a)) (lk_stale w (actor a)) \<Longrightarrow>
      lk_file w' \<noteq> lk_file w \<Longrightarrow> lk_file w = None \<or> a = Move_aside (actor a) \<or> owning (lk_pc w (actor a))"
    and step_self: "step a w = Some w' \<Longrightarrow> p = actor a \<Longrightarrow>
      (a = Move_aside p \<Longrightarrow> lk_file w = None \<or> judged (lk_pc w p) = lk_file w) \<Longrightarrow>
      (owning (lk_pc w p) \<Longrightarrow> own_lock p w) \<Longrightarrow> extra (lk_pc w p) (lk_stale w p) \<Longrightarrow>
      (owning (lk_pc w' p) \<longrightarrow> own_lock p w')
      \<and> (\<forall>r. judged (lk_pc w' p) = Some r \<longrightarrow> judged (lk_pc w p) = Some r \<or> lk_dead w (fst r))
      \<and> extra (lk_pc w' p) (lk_stale w' p) \<and> (lk_dead w' p \<longrightarrow> lk_pc w' p = idle)"
begin

definition pc_ok :: "'pc lock_world \<Rightarrow> nat \<Rightarrow> bool" where
  "pc_ok w p \<longleftrightarrow> (lk_dead w p \<longrightarrow> lk_pc w p = idle) \<and> (owning (lk_pc w p) \<longrightarrow> own_lock p w)
     \<and> (\<forall>r. judged (lk_pc w p) = Some r \<longrightarrow> lk_dead w (fst r)) \<and> extra (lk_pc w p) (lk_stale w p)"

definition inv :: "'pc lock_world \<Rightarrow> bool" where
  "inv w \<longleftrightarrow> (\<forall>p. pc_ok w p)"

definition moves_judged :: "lock_action \<Rightarrow> 'pc lock_world \<Rightarrow> bool" where
  "moves_judged a w \<longleftrightarrow> (\<forall>p. a = Move_aside p \<longrightarrow> lk_file w = None \<or> judged (lk_pc w p) = lk_file w)"

definition holds :: "'pc lock_world \<Rightarrow> nat \<Rightarrow> bool" where
  "holds w p \<longleftrightarrow> owning (lk_pc w p)"

lemma invD: "inv w \<Longrightarrow> pc_ok w p"
  by (simp add: inv_def)

text \<open>A process that owns the lock is alive, so no other process moves its record, links or unlinks.\<close>

lemma relies_on_file:
  assumes "inv w" and "moves_judged a w" and "step a w = Some w'" and "r \<noteq> actor a" and "owning (lk_pc w r)"
  shows "lk_file w' = lk_file w"
proof (rule ccontr)
  assume changed: "lk_file w' \<noteq> lk_file w"
  note r = invD [OF assms(1), of r] and p = invD [OF assms(1), of "actor a"]
  have own: "lk_file w = Some (r, lk_token w r)" and live: "\<not> lk_dead w r"
    using assms(5) r idle(1) by (auto simp: pc_ok_def own_lock_def)
  with step_file [OF assms(3) _ changed] p consider "a = Move_aside (actor a)" | "owning (lk_pc w (actor a))"
    by (auto simp: pc_ok_def)
  then show False
  proof cases
    case 1
    with assms(2) own have "judged (lk_pc w (actor a)) = Some (r, lk_token w r)" by (auto simp: moves_judged_def)
    with p live show False by (auto simp: pc_ok_def)
  next
    case 2
    with p own assms(4) show False by (simp add: pc_ok_def own_lock_def)
  qed
qed

lemma step_ok_other:
  assumes "inv w" and "moves_judged a w" and "step a w = Some w'" and "r \<noteq> actor a"
  shows "pc_ok w' r"
proof -
  note same = step_other [OF assms(3,4)] and r = invD [OF assms(1), of r]
  have "own_lock r w'" if "owning (lk_pc w r)"
    using relies_on_file [OF assms that] r that same by (simp add: pc_ok_def own_lock_def)
  with same r step_dead [OF assms(3)] show ?thesis by (simp add: pc_ok_def)
qed

lemma inv_kept:
  assumes "inv w" and "moves_judged a w" and "step a w = Some w'"
  shows "inv w'"
  unfolding inv_def
proof
  show "pc_ok w' p" for p
  proof (cases "p = actor a")
    case True
    have "a = Move_aside p \<Longrightarrow> lk_file w = None \<or> judged (lk_pc w p) = lk_file w"
      using assms(2) by (simp add: moves_judged_def)
    with step_self [OF assms(3) True] invD [OF assms(1), of p] step_dead [OF assms(3)]
    show ?thesis by (auto simp: pc_ok_def)
  qed (rule step_ok_other [OF assms])
qed

lemma inv_no_locks: "inv (no_locks idle)"
  using idle by (simp add: inv_def pc_ok_def no_locks_def)

end

sublocale reclaiming_lock \<subseteq> file_lock step moves_judged holds inv idle
  by unfold_locales (auto intro: inv_kept inv_no_locks dest: invD simp: pc_ok_def holds_def)

end
