(* ===== verification/Store_Lock.thy ===== *)
theory Store_Lock
  imports Lock_Files
begin

text \<open>
  Model of \<open>CrossProcessFileLock\<close> (\<open>packages/security/src/node/atomic-json-file.ts\<close>), the lock around
  every transaction of a JSON store. \<open>acquire\<close> writes a candidate record and links it to the lock path
  until it succeeds, and in between reclaims the lock of an owner that has exited: it reads the owner,
  asks the operating system about it, moves the lock aside, checks that it moved the record it judged,
  and puts a different record back. Each of these is a call of its own, between which other processes
  move.
\<close>

section \<open>The protocol\<close>

datatype store_pc =
    Idle
  | Writing \<comment> \<open>before \<open>writeFile\<close> of the candidate\<close>
  | Trying \<comment> \<open>before \<open>link\<close>\<close>
  | Waiting \<comment> \<open>nothing was reclaimed; before the check of the deadline\<close>
  | Probing \<comment> \<open>before reading the owner\<close>
  | Judging lock_owner \<comment> \<open>this record was read; before asking whether its process exists\<close>
  | Judged lock_owner \<comment> \<open>its process has exited; before \<open>rename\<close>\<close>
  | Moved lock_owner \<comment> \<open>before reading what was moved\<close>
  | Discarding \<comment> \<open>before \<open>rm\<close> of the stale record\<close>
  | Restoring \<comment> \<open>before renaming a record moved by mistake back\<close>
  | Failing \<comment> \<open>\<open>acquire\<close> throws; before \<open>unlink\<close> of the candidate\<close>
  | Linked \<comment> \<open>the lock is acquired; before \<open>unlink\<close> of the candidate\<close>
  | Held
  | Unlinking \<comment> \<open>\<open>release\<close> read its own token; before \<open>unlink\<close>\<close>

definition store_start :: "nat \<Rightarrow> store_pc lock_world \<Rightarrow> store_pc lock_world option" where
  "store_start p w = (if lk_pc w p = Idle then Some (at_pc p Writing (draw_token p w)) else None)"

definition store_write :: "nat \<Rightarrow> store_pc lock_world \<Rightarrow> store_pc lock_world option" where
  "store_write p w =
     (if lk_pc w p \<noteq> Writing then None
      else if temp_exists p w then Some (at_pc p Idle w)
      else Some (at_pc p Trying (write_temp p w)))"

definition store_link :: "nat \<Rightarrow> store_pc lock_world \<Rightarrow> store_pc lock_world option" where
  "store_link p w =
     (if lk_pc w p \<noteq> Trying \<and> lk_pc w p \<noteq> Waiting then None
      else if lk_file w = None then Some (at_pc p Linked (publish p w))
      else Some (at_pc p Probing w))"

text \<open>The \<open>finally\<close> of \<open>acquire\<close>.\<close>

definition store_clean :: "nat \<Rightarrow> store_pc lock_world \<Rightarrow> store_pc lock_world option" where
  "store_clean p w =
     (case lk_pc w p of
        Linked \<Rightarrow> Some (at_pc p Held (unlink_temp p w))
      | Failing \<Rightarrow> Some (at_pc p Idle (unlink_temp p w))
      | _ \<Rightarrow> None)"

text \<open>\<open>reclaimExitedOwner\<close>: the record is read here and judged later, when the lock path may have changed.\<close>

definition store_read :: "nat \<Rightarrow> store_pc lock_world \<Rightarrow> store_pc lock_world option" where
  "store_read p w =
     (if lk_pc w p \<noteq> Probing then None
      else Some (at_pc p (case lk_file w of None \<Rightarrow> Waiting | Some r \<Rightarrow> Judging r) w))"

text \<open>
  The operating system says that an owner has exited only when it has; it may fail to say so, when no
  start marker is known.
\<close>

definition store_judge :: "nat \<Rightarrow> bool \<Rightarrow> store_pc lock_world \<Rightarrow> store_pc lock_world option" where
  "store_judge p exited w =
     (case lk_pc w p of
        Judging r \<Rightarrow>
          if \<not> exited then Some (at_pc p Waiting w)
          else if lk_dead w (fst r) then Some (at_pc p (Judged r) w)
          else None
      | _ \<Rightarrow> None)"

definition store_move :: "nat \<Rightarrow> store_pc lock_world \<Rightarrow> store_pc lock_world option" where
  "store_move p w =
     (case lk_pc w p of
        Judged r \<Rightarrow>
          if lk_file w = None then Some (at_pc p Trying w)
          else Some (at_pc p (Moved r) (move_aside p w))
      | _ \<Rightarrow> None)"

definition store_check :: "nat \<Rightarrow> store_pc lock_world \<Rightarrow> store_pc lock_world option" where
  "store_check p w =
     (case lk_pc w p of
        Moved r \<Rightarrow>
          Some (at_pc p (if map_option snd (lk_stale w p) = Some (snd r) then Discarding else Restoring) w)
      | _ \<Rightarrow> None)"

definition store_finish :: "nat \<Rightarrow> store_pc lock_world \<Rightarrow> store_pc lock_world option" where
  "store_finish p w =
     (case lk_pc w p of
        Discarding \<Rightarrow> Some (at_pc p Trying (drop_stale p w))
      | Restoring \<Rightarrow> Some (at_pc p Failing (drop_stale p
          (case lk_stale w p of None \<Rightarrow> w | Some r \<Rightarrow> w\<lparr>lk_file := Some r\<rparr>)))
      | _ \<Rightarrow> None)"

text \<open>The deadline passed.\<close>

definition store_give_up :: "nat \<Rightarrow> store_pc lock_world \<Rightarrow> store_pc lock_world option" where
  "store_give_up p w = (if lk_pc w p = Waiting then Some (at_pc p Failing w) else None)"

text \<open>The function \<open>acquire\<close> returns: it unlinks the lock only after reading its own token there.\<close>

definition store_release :: "nat \<Rightarrow> store_pc lock_world \<Rightarrow> store_pc lock_world option" where
  "store_release p w =
     (if lk_pc w p = Held
      then Some (at_pc p (if map_option snd (lk_file w) = Some (lk_token w p) then Unlinking else Idle) w)
      else None)"

definition store_unlink :: "nat \<Rightarrow> store_pc lock_world \<Rightarrow> store_pc lock_world option" where
  "store_unlink p w = (if lk_pc w p = Unlinking then Some (at_pc p Idle (w\<lparr>lk_file := None\<rparr>)) else None)"

definition store_lock_step :: "lock_action \<Rightarrow> store_pc lock_world \<Rightarrow> store_pc lock_world option" where
  "store_lock_step a w =
     (if lk_dead w (actor a) then None
      else (case a of
          Start p \<Rightarrow> store_start p w
        | Write_temp p \<Rightarrow> store_write p w
        | Link p \<Rightarrow> store_link p w
        | Unlink_temp p \<Rightarrow> store_clean p w
        | Read_owner p \<Rightarrow> store_read p w
        | Judge p e \<Rightarrow> store_judge p e w
        | Move_aside p \<Rightarrow> store_move p w
        | Check_moved p \<Rightarrow> store_check p w
        | Finish p \<Rightarrow> store_finish p w
        | Give_up p \<Rightarrow> store_give_up p w
        | Release p \<Rightarrow> store_release p w
        | Unlink p \<Rightarrow> store_unlink p w
        | Die p \<Rightarrow> Some (at_pc p Idle (w\<lparr>lk_dead := (lk_dead w)(p := True)\<rparr>))))"

lemmas store_step_defs = store_lock_step_def store_start_def store_write_def store_link_def store_clean_def
  store_read_def store_judge_def store_move_def store_check_def store_finish_def store_give_up_def
  store_release_def store_unlink_def

section \<open>Exclusion as long as every record moved is the one that was judged\<close>

text \<open>
  Between its reading of the owner and its \<open>rename\<close> a recovery relies on the lock path. The side
  condition: what a process moves aside, if there is anything, is the record it read and judged.
\<close>

definition store_moves_judged :: "lock_action \<Rightarrow> store_pc lock_world \<Rightarrow> bool" where
  "store_moves_judged a w \<longleftrightarrow>
     (\<forall>p. a = Move_aside p \<longrightarrow> lk_file w = None \<or> (\<exists>r. lk_pc w p = Judged r \<and> lk_file w = Some r))"

definition store_holds :: "store_pc lock_world \<Rightarrow> nat \<Rightarrow> bool" where
  "store_holds w p \<longleftrightarrow> lk_pc w p = Held"

definition store_owning :: "store_pc \<Rightarrow> bool" where
  "store_owning c \<longleftrightarrow> c = Linked \<or> c = Held \<or> c = Unlinking"

fun store_judged :: "store_pc \<Rightarrow> lock_owner option" where
  "store_judged (Judged r) = Some r"
| "store_judged _ = None"

text \<open>The record that was judged is the one moved aside; nothing is restored.\<close>

fun store_extra :: "store_pc \<Rightarrow> lock_owner option \<Rightarrow> bool" where
  "store_extra (Moved r) s = (s = Some r)"
| "store_extra Restoring s = False"
| "store_extra _ s = True"

interpretation store_lock: reclaiming_lock store_lock_step store_owning store_judged store_extra Idle
proof
  fix a w w' r p and s :: "lock_owner option"
  show "\<not> store_owning Idle" "store_judged Idle = None" "store_extra Idle s" by (simp_all add: store_owning_def)
  assume step: "store_lock_step a w = Some w'"
  then show "\<not> lk_dead w (actor a)" by (auto simp: store_lock_step_def split: if_splits)
  show "r \<noteq> actor a \<Longrightarrow> lk_pc w' r = lk_pc w r \<and> lk_token w' r = lk_token w r
      \<and> lk_stale w' r = lk_stale w r \<and> lk_dead w' r = lk_dead w r"
    using step by (cases a) (auto simp: store_step_defs lock_ops split: if_splits option.splits store_pc.splits)
  show "lk_dead w r \<Longrightarrow> lk_dead w' r"
    using step by (cases a) (auto simp: store_step_defs lock_ops split: if_splits option.splits store_pc.splits)
  show "store_extra (lk_pc w (actor a)) (lk_stale w (actor a)) \<Longrightarrow> lk_file w' \<noteq> lk_file w \<Longrightarrow>
      lk_file w = None \<or> a = Move_aside (actor a) \<or> store_owning (lk_pc w (actor a))"
    using step by (cases a) (auto simp: store_step_defs store_owning_def lock_ops split: if_splits option.splits store_pc.splits)
  show "p = actor a \<Longrightarrow> (a = Move_aside p \<Longrightarrow> lk_file w = None \<or> store_judged (lk_pc w p) = lk_file w) \<Longrightarrow>
      (store_owning (lk_pc w p) \<Longrightarrow> own_lock p w) \<Longrightarrow> store_extra (lk_pc w p) (lk_stale w p) \<Longrightarrow>
      (store_owning (lk_pc w' p) \<longrightarrow> own_lock p w')
      \<and> (\<forall>r. store_judged (lk_pc w' p) = Some r \<longrightarrow> store_judged (lk_pc w p) = Some r \<or> lk_dead w (fst r))
      \<and> store_extra (lk_pc w' p) (lk_stale w' p) \<and> (lk_dead w' p \<longrightarrow> lk_pc w' p = Idle)"
    using step by (cases a)
      (auto simp: store_step_defs store_owning_def lock_ops split: if_splits option.splits store_pc.splits)
qed

lemma store_moves_judged_eq: "store_lock.moves_judged = store_moves_judged"
proof (intro ext)
  fix a w
  have "store_judged c = Some r \<longleftrightarrow> c = Judged r" for c r by (cases c) simp_all
  then show "store_lock.moves_judged a w = store_moves_judged a w"
    by (cases "lk_file w") (auto simp: store_lock.moves_judged_def store_moves_judged_def)
qed

text \<open>
  C12: one process at a time is inside the transactions of a JSON store. In every interleaving of the
  file-system calls of any number of processes, with processes dying anywhere and abandoned locks being
  reclaimed, at most one process holds the lock, provided that every record a recovery moves aside is
  still the one it read before it judged its owner.
\<close>

theorem store_lock_exclusive:
  assumes "lock_run store_lock_step store_moves_judged as (no_locks Idle) = Some w"
    and "store_holds w p" and "store_holds w q"
  shows "p = q"
  using store_lock.exclusion [unfolded store_moves_judged_eq, OF assms(1)] assms(2,3)
  by (simp add: store_lock.holds_def store_holds_def store_owning_def)

text \<open>
  A run in which process 1 dies with the lock, processes 2 and 3 both read its record, process 2 reclaims
  the lock, and process 3 asks about the owner before that.
\<close>

definition reclaiming_run :: "lock_action list" where
  "reclaiming_run = [Start 1, Write_temp 1, Link 1, Unlink_temp 1, Die 1,
     Start 2, Write_temp 2, Link 2, Start 3, Write_temp 3, Link 3, Read_owner 2, Read_owner 3, Judge 3 False,
     Judge 2 True, Move_aside 2, Check_moved 2, Finish 2, Link 2, Unlink_temp 2, Link 3]"

lemma store_moves_judged_simps [simp]:
  "store_moves_judged (Move_aside p) w \<longleftrightarrow> lk_file w = None \<or> (\<exists>r. lk_pc w p = Judged r \<and> lk_file w = Some r)"
  "(\<forall>p. a \<noteq> Move_aside p) \<Longrightarrow> store_moves_judged a w"
  by (auto simp: store_moves_judged_def)

lemma reclaiming_run_ends: "\<exists>w. lock_run store_lock_step store_moves_judged reclaiming_run (no_locks Idle) = Some w \<and> store_holds w 2"
  by (simp add: reclaiming_run_def store_step_defs no_locks_def lock_ops store_holds_def)

theorem store_lock_exclusive_witness:
  "\<exists>w. lock_run store_lock_step store_moves_judged reclaiming_run (no_locks Idle) = Some w \<and> store_holds w 2
     \<and> \<not> store_holds w 3"
proof -
  obtain w where w: "lock_run store_lock_step store_moves_judged reclaiming_run (no_locks Idle) = Some w" "store_holds w 2"
    using reclaiming_run_ends by blast
  with store_lock_exclusive [OF w(1), of 2 3] show ?thesis by auto
qed

section \<open>A record that changed between the reading and the move\<close>

text \<open>The tokens of new acquisitions are fresh in every state that is reached.\<close>

lemma store_step_fresh: "fresh_tokens w \<Longrightarrow> store_lock_step a w = Some w' \<Longrightarrow> fresh_tokens w'"
  by (cases a) (auto simp: fresh_tokens_def store_step_defs lock_ops less_Suc_eq dest: Suc_leD leD
    split: if_splits option.splits store_pc.splits)

lemma store_run_fresh: "lock_run store_lock_step allowed as w = Some w' \<Longrightarrow> fresh_tokens w \<Longrightarrow> fresh_tokens w'"
  by (induction as arbitrary: w) (auto split: if_splits option.splits intro: store_step_fresh)

text \<open>
  One recovery is enough. Process \<open>p\<close> reads the record of \<open>x\<close>, which then releases the lock and exits;
  \<open>q\<close> acquires the lock; \<open>p\<close> judges \<open>x\<close> as exited and moves the lock of \<open>q\<close> aside; before \<open>p\<close> has looked
  at what it moved and put it back, \<open>r\<close> links its own record.
\<close>

definition late_recovery :: "nat \<Rightarrow> nat \<Rightarrow> nat \<Rightarrow> nat \<Rightarrow> lock_action list" where
  "late_recovery x p q r = [Start p, Write_temp p, Link p, Read_owner p, Release x, Unlink x, Die x,
     Start q, Write_temp q, Link q, Unlink_temp q, Judge p True, Move_aside p,
     Start r, Write_temp r, Link r, Unlink_temp r, Check_moved p, Finish p]"

text \<open>
  C39: without that proviso exclusion fails, with a single recovery under way. From every state that is
  reached with every recovery moving what it judged, in which a process \<open>x\<close> holds the lock, any three
  idle processes can move such that two of them, both alive, hold the lock at the same time: the lock path
  is free between the mistaken \<open>rename\<close> of a live lock and its restoration.
\<close>

theorem store_lock_race:
  assumes "lock_run store_lock_step store_moves_judged as (no_locks Idle) = Some w"
    and "store_holds w x" and "distinct [x, p, q, r]"
    and "\<forall>y\<in>{p, q, r}. lk_pc w y = Idle \<and> \<not> lk_dead w y"
  shows "\<exists>w'. lock_run store_lock_step (\<lambda>_ _. True) (late_recovery x p q r) w = Some w'
     \<and> store_holds w' q \<and> store_holds w' r \<and> \<not> lk_dead w' q \<and> \<not> lk_dead w' r"
proof -
  have "store_lock.inv w"
    using store_lock.run_inv [unfolded store_moves_judged_eq, OF assms(1)] store_lock.inv_no_locks by blast
  then have "own_lock x w" and "\<not> lk_dead w x"
    using store_lock.invD [of w x] assms(2) by (auto simp: store_lock.pc_ok_def store_holds_def store_owning_def)
  moreover have "fresh_tokens w"
    using store_run_fresh [OF assms(1)] by (simp add: fresh_tokens_def no_locks_def)
  ultimately show ?thesis
    using assms(2-4)
    by (simp add: late_recovery_def store_step_defs lock_ops store_holds_def fresh_tokens_def)
qed

theorem store_lock_race_witness:
  "\<exists>w w'. lock_run store_lock_step store_moves_judged [Start 1, Write_temp 1, Link 1, Unlink_temp 1] (no_locks Idle) = Some w
     \<and> lock_run store_lock_step (\<lambda>_ _. True) (late_recovery 1 2 3 4) w = Some w'
     \<and> store_holds w' 3 \<and> store_holds w' 4 \<and> \<not> lk_dead w' 3 \<and> \<not> lk_dead w' 4"
proof -
  have "\<exists>w. lock_run store_lock_step store_moves_judged [Start 1, Write_temp 1, Link 1, Unlink_temp 1] (no_locks Idle) = Some w
      \<and> store_holds w 1 \<and> (\<forall>y\<in>{2, 3, 4}. lk_pc w y = Idle \<and> \<not> lk_dead w y)"
    by (simp add: store_step_defs no_locks_def lock_ops store_holds_def)
  then obtain w where w: "lock_run store_lock_step store_moves_judged [Start 1, Write_temp 1, Link 1, Unlink_temp 1] (no_locks Idle) = Some w"
    "store_holds w 1" "\<forall>y\<in>{2, 3, 4}. lk_pc w y = Idle \<and> \<not> lk_dead w y" by blast
  from store_lock_race [OF w(1,2) _ w(3)] w(1) show ?thesis by auto
qed

section \<open>Recovery\<close>

text \<open>
  What an acquiring process does while it finds the abandoned record: \<open>k\<close> rounds in which the operating
  system does not yet say that the owner has exited, then one in which it does.
\<close>

fun recovery_rounds :: "nat \<Rightarrow> nat \<Rightarrow> lock_action list" where
  "recovery_rounds p 0 = [Link p, Read_owner p, Judge p True, Move_aside p, Check_moved p, Finish p, Link p, Unlink_temp p]"
| "recovery_rounds p (Suc k) = Link p # Read_owner p # Judge p False # recovery_rounds p k"

definition recovery :: "nat \<Rightarrow> nat \<Rightarrow> lock_action list" where
  "recovery p k = Start p # Write_temp p # recovery_rounds p k"

lemma recovery_length: "length (recovery p k) = 3 * k + 10"
  unfolding recovery_def by (induction k) simp_all

text \<open>The other processes, whatever they do, leave the lock path alone.\<close>

fun undisturbed :: "nat \<Rightarrow> lock_action list \<Rightarrow> store_pc lock_world \<Rightarrow> bool" where
  "undisturbed p [] w = True"
| "undisturbed p (a # as) w =
     (case store_lock_step a w of
        None \<Rightarrow> True
      | Some w' \<Rightarrow> (actor a \<noteq> p \<longrightarrow> lk_file w' = lk_file w) \<and> undisturbed p as w')"

text \<open>Where a process is that still has the given calls to make.\<close>

inductive on_track :: "lock_owner \<Rightarrow> nat \<Rightarrow> store_pc lock_world \<Rightarrow> lock_action list \<Rightarrow> bool" for r p w where
  "lk_pc w p = Idle \<Longrightarrow> lk_file w = Some r \<Longrightarrow> on_track r p w (recovery p k)"
| "lk_pc w p = Writing \<Longrightarrow> lk_file w = Some r \<Longrightarrow> \<not> temp_exists p w \<Longrightarrow> on_track r p w (Write_temp p # recovery_rounds p k)"
| "lk_pc w p = Trying \<or> lk_pc w p = Waiting \<Longrightarrow> lk_file w = Some r \<Longrightarrow> on_track r p w (recovery_rounds p k)"
| "lk_pc w p = Probing \<Longrightarrow> lk_file w = Some r \<Longrightarrow> on_track r p w (tl (recovery_rounds p k))"
| "lk_pc w p = Judging r \<Longrightarrow> lk_file w = Some r \<Longrightarrow> on_track r p w (drop 2 (recovery_rounds p k))"
| "lk_pc w p = Judged r \<Longrightarrow> lk_file w = Some r \<Longrightarrow> on_track r p w [Move_aside p, Check_moved p, Finish p, Link p, Unlink_temp p]"
| "lk_pc w p = Moved r \<Longrightarrow> lk_file w = None \<Longrightarrow> lk_stale w p = Some r \<Longrightarrow> on_track r p w [Check_moved p, Finish p, Link p, Unlink_temp p]"
| "lk_pc w p = Discarding \<Longrightarrow> lk_file w = None \<Longrightarrow> on_track r p w [Finish p, Link p, Unlink_temp p]"
| "lk_pc w p = Trying \<Longrightarrow> lk_file w = None \<Longrightarrow> on_track r p w [Link p, Unlink_temp p]"
| "lk_pc w p = Linked \<Longrightarrow> on_track r p w [Unlink_temp p]"
| "store_holds w p \<Longrightarrow> on_track r p w []"

text \<open>The call is the process's own, it can be made, and the process is on track after it.\<close>

lemma on_track_step:
  assumes "on_track r p w (a # as)" and "lk_dead w (fst r)" and "\<not> lk_dead w p" and "fresh_tokens w"
  shows "actor a = p \<and> (\<exists>w'. store_lock_step a w = Some w' \<and> on_track r p w' as \<and> lk_dead w' = lk_dead w)"
  using assms(1)
proof cases
  case (1 k)
  with assms show ?thesis
    by (auto simp: recovery_def store_step_defs lock_ops fresh_tokens_def intro!: on_track.intros(2))
next
  case (2 k)
  with assms show ?thesis by (auto simp: store_step_defs lock_ops intro!: on_track.intros(3))
next
  case (3 k)
  with assms show ?thesis
    using on_track.intros(4) [of "at_pc p Probing w" p r k] by (cases k) (auto simp: store_step_defs)
next
  case (4 k)
  with assms show ?thesis
    using on_track.intros(5) [of "at_pc p (Judging r) w" p r k] by (cases k) (auto simp: store_step_defs numeral_2_eq_2)
next
  case (5 k)
  with assms show ?thesis
    using on_track.intros(6) [of "at_pc p (Judged r) w" p r] on_track.intros(3) [of "at_pc p Waiting w" p r "k - 1"]
    by (cases k) (auto simp: store_step_defs numeral_2_eq_2 numeral_3_eq_3)
next
  case 6
  with assms show ?thesis
    using on_track.intros(7) [of "at_pc p (Moved r) (move_aside p w)" p r]
    by (auto simp: store_step_defs lock_ops numeral_3_eq_3 numeral_eq_Suc)
next
  case 7
  with assms show ?thesis
    by (auto simp: store_step_defs lock_ops numeral_eq_Suc intro!: on_track.intros(8))
qed (use assms in \<open>auto simp: store_step_defs lock_ops store_holds_def intro!: on_track.intros\<close>)

lemma on_track_other:
  assumes "on_track r p w as" and "store_lock_step a w = Some w'" and "actor a \<noteq> p" and "lk_file w' = lk_file w"
  shows "on_track r p w' as"
proof -
  have "temp_exists p w' = temp_exists p w"
    using assms(2,3) by (cases a) (auto simp: store_step_defs lock_ops split: if_splits option.splits store_pc.splits)
  note same = this store_lock.step_other [OF assms(2), of p]
  show ?thesis
    using assms(1) by cases (use same assms(3,4) in \<open>auto simp: store_holds_def intro: on_track.intros\<close>)
qed

lemma on_track_done: "on_track r p w [] \<Longrightarrow> store_holds w p"
proof (erule on_track.cases)
  fix k
  have "2 < length (recovery_rounds p k)" by (cases k) simp_all
  then show "[] = tl (recovery_rounds p k) \<Longrightarrow> store_holds w p" "[] = drop 2 (recovery_rounds p k) \<Longrightarrow> store_holds w p"
    "[] = recovery_rounds p k \<Longrightarrow> store_holds w p"
    by (auto simp: drop_eq_Nil2 dest: arg_cong [of _ _ length])
qed (simp_all add: recovery_def numeral_eq_Suc)

lemma on_track_run:
  assumes "on_track r p w rest" and "lk_dead w (fst r)" and "\<not> lk_dead w p" and "fresh_tokens w"
    and "lock_run store_lock_step (\<lambda>_ _. True) as w = Some w'" and "undisturbed p as w"
    and "filter (\<lambda>a. actor a = p) as @ left = rest"
  shows "on_track r p w' left \<and> lk_dead w' (fst r) \<and> \<not> lk_dead w' p \<and> fresh_tokens w'"
  using assms
proof (induction as arbitrary: w rest)
  case (Cons a as)
  from Cons.prems(5) obtain v where v: "store_lock_step a w = Some v" "lock_run store_lock_step (\<lambda>_ _. True) as v = Some w'"
    by (auto split: option.splits)
  have u: "undisturbed p as v" "actor a \<noteq> p \<Longrightarrow> lk_file v = lk_file w" using Cons.prems(6) v(1) by auto
  have f: "fresh_tokens v" and d: "lk_dead v (fst r)"
    using store_step_fresh [OF Cons.prems(4) v(1)] store_lock.step_dead [OF v(1) Cons.prems(2)] by auto
  show ?case
  proof (cases "actor a = p")
    case True
    with Cons.prems(1,7) on_track_step [OF _ Cons.prems(2-4), of a] v(1) Cons.prems(3)
    have "on_track r p v (filter (\<lambda>a. actor a = p) as @ left)" "\<not> lk_dead v p" by auto
    from Cons.IH [OF this(1) d this(2) f v(2) u(1) refl] show ?thesis .
  next
    case False
    with on_track_other [OF Cons.prems(1) v(1) False u(2)] store_lock.step_other [OF v(1), of p] Cons.prems(3)
    have "on_track r p v rest" "\<not> lk_dead v p" by auto
    from Cons.IH [OF this(1) d this(2) f v(2) u(1)] Cons.prems(7) False show ?thesis by simp
  qed
qed simp

text \<open>
  C13: an abandoned lock is recovered. Take any state reached in which the owner of the record at the lock
  path has exited, an idle process \<open>p\<close>, and any interleaving in which the other processes leave the lock
  path alone and \<open>p\<close> follows its code, the operating system answering \<open>k\<close> times that it cannot tell before
  it says that the owner has exited. Then \<open>p\<close> never waits for another process: its next call can always be
  made, and after the last of its \<open>3 * k + 10\<close> calls it holds the lock.
\<close>

theorem abandoned_lock_recovered:
  assumes "lock_run store_lock_step (\<lambda>_ _. True) before (no_locks Idle) = Some w"
    and "lk_file w = Some (x, t)" and "lk_dead w x" and "lk_pc w p = Idle" and "\<not> lk_dead w p"
    and "lock_run store_lock_step (\<lambda>_ _. True) as w = Some w'" and "undisturbed p as w"
    and "filter (\<lambda>a. actor a = p) as @ left = recovery p k"
  shows "(left \<noteq> [] \<longrightarrow> store_lock_step (hd left) w' \<noteq> None) \<and> (left = [] \<longrightarrow> store_holds w' p)
     \<and> length (recovery p k) = 3 * k + 10"
proof -
  have "fresh_tokens w" using store_run_fresh [OF assms(1)] by (simp add: fresh_tokens_def no_locks_def)
  moreover have "on_track (x, t) p w (recovery p k)" using assms(2,4) by (intro on_track.intros(1))
  ultimately have "on_track (x, t) p w' left" "lk_dead w' x" "\<not> lk_dead w' p" "fresh_tokens w'"
    using on_track_run [of "(x, t)" p w "recovery p k" as w' left] assms by simp_all
  then show ?thesis
    using on_track_step [of "(x, t)" p w' "hd left" "tl left"]
    by (cases left) (auto simp: recovery_length dest: on_track_done)
qed

text \<open>Process 3 waits for the same lock while process 2 recovers it, after one answer that told nothing.\<close>

definition waiting_beside :: "lock_action list" where
  "waiting_beside = [Start 2, Start 3, Write_temp 2, Link 2, Write_temp 3, Read_owner 2, Link 3, Judge 2 False,
     Read_owner 3, Link 2, Read_owner 2, Judge 3 False, Judge 2 True, Move_aside 2, Check_moved 2, Give_up 3, Finish 2, Link 2,
     Unlink_temp 3, Unlink_temp 2]"

theorem abandoned_lock_recovered_witness:
  "\<exists>w w'. lock_run store_lock_step (\<lambda>_ _. True) [Start 1, Write_temp 1, Link 1, Unlink_temp 1, Die 1] (no_locks Idle) = Some w
     \<and> lock_run store_lock_step (\<lambda>_ _. True) waiting_beside w = Some w' \<and> store_holds w' 2"
proof -
  have "\<exists>w. lock_run store_lock_step (\<lambda>_ _. True) [Start 1, Write_temp 1, Link 1, Unlink_temp 1, Die 1] (no_locks Idle) = Some w
      \<and> lk_file w = Some (1, 1) \<and> lk_dead w 1 \<and> lk_pc w 2 = Idle \<and> \<not> lk_dead w 2
      \<and> undisturbed 2 waiting_beside w \<and> (\<exists>w'. lock_run store_lock_step (\<lambda>_ _. True) waiting_beside w = Some w')"
    by (simp add: waiting_beside_def store_step_defs no_locks_def lock_ops)
  then obtain w w' where w: "lock_run store_lock_step (\<lambda>_ _. True) [Start 1, Write_temp 1, Link 1, Unlink_temp 1, Die 1] (no_locks Idle) = Some w"
      "lk_file w = Some (1, 1)" "lk_dead w 1" "lk_pc w 2 = Idle" "\<not> lk_dead w 2"
      "lock_run store_lock_step (\<lambda>_ _. True) waiting_beside w = Some w'" "undisturbed 2 waiting_beside w" by blast
  have "filter (\<lambda>a. actor a = 2) waiting_beside @ [] = recovery 2 1"
    by (simp add: waiting_beside_def recovery_def)
  from abandoned_lock_recovered [OF w this] w(1,6) show ?thesis by blast
qed

end
