(* ===== verification/Directory_Lock.thy ===== *)
theory Directory_Lock
  imports Lock_Files
begin

text \<open>
  Model of \<open>acquireGatewayDataDirectoryLock\<close> (\<open>src/gateway/matrix/gatewayDataDirectoryLock.ts\<close>), the lock
  that admits one gateway to a data directory and one controller to its execution tracks. It makes at
  most eight attempts: write a temporary record, link it, otherwise unlink it, read the owner, ask the
  operating system about that owner, refuse when it lives, and move the record of an exited owner aside
  and delete it. Each of these is a call of its own, between which other processes move. Unlike the lock
  of the JSON stores it does not look at what it moved.
\<close>

section \<open>The protocol\<close>

datatype directory_pc =
    Outside
  | Preparing nat \<comment> \<open>attempt; before \<open>writeFile\<close> of the temporary record\<close>
  | Linking nat \<comment> \<open>before \<open>link\<close>\<close>
  | Entered \<comment> \<open>the lock is acquired; before \<open>unlink\<close> of the temporary record\<close>
  | Cleaning nat \<comment> \<open>the lock path is taken; before \<open>unlink\<close> of the temporary record\<close>
  | Reading nat \<comment> \<open>before reading the owner\<close>
  | Weighing nat lock_owner \<comment> \<open>this record was read; before asking whether its process lives\<close>
  | Removing nat lock_owner \<comment> \<open>its process has exited; before \<open>rename\<close>\<close>
  | Deleting nat \<comment> \<open>before \<open>rm\<close> of the stale record\<close>
  | Inside
  | Leaving \<comment> \<open>\<open>release\<close> read its own record; before \<open>unlink\<close>\<close>

definition max_attempts :: nat where
  "max_attempts = 8"

text \<open>The end of a turn of the loop: the next attempt, or the exception after the last one.\<close>

definition next_attempt :: "nat \<Rightarrow> directory_pc" where
  "next_attempt n = (if n + 1 < max_attempts then Preparing (n + 1) else Outside)"

text \<open>The call before the loop is \<open>mkdir\<close>.\<close>

definition directory_start :: "nat \<Rightarrow> directory_pc lock_world \<Rightarrow> directory_pc lock_world option" where
  "directory_start p w = (if lk_pc w p = Outside then Some (at_pc p (Preparing 0) (draw_token p w)) else None)"

definition directory_write :: "nat \<Rightarrow> directory_pc lock_world \<Rightarrow> directory_pc lock_world option" where
  "directory_write p w =
     (case lk_pc w p of
        Preparing n \<Rightarrow>
          if temp_exists p w then Some (at_pc p Outside w)
          else Some (at_pc p (Linking n) (write_temp p w))
      | _ \<Rightarrow> None)"

definition directory_link :: "nat \<Rightarrow> directory_pc lock_world \<Rightarrow> directory_pc lock_world option" where
  "directory_link p w =
     (case lk_pc w p of
        Linking n \<Rightarrow>
          if lk_file w = None then Some (at_pc p Entered (publish p w))
          else Some (at_pc p (Cleaning n) w)
      | _ \<Rightarrow> None)"

definition directory_clean :: "nat \<Rightarrow> directory_pc lock_world \<Rightarrow> directory_pc lock_world option" where
  "directory_clean p w =
     (case lk_pc w p of
        Entered \<Rightarrow> Some (at_pc p Inside (unlink_temp p w))
      | Cleaning n \<Rightarrow> Some (at_pc p (Reading n) (unlink_temp p w))
      | _ \<Rightarrow> None)"

text \<open>The record is read here and judged later, when the lock path may have changed.\<close>

definition directory_read :: "nat \<Rightarrow> directory_pc lock_world \<Rightarrow> directory_pc lock_world option" where
  "directory_read p w =
     (case lk_pc w p of
        Reading n \<Rightarrow> Some (at_pc p (case lk_file w of None \<Rightarrow> next_attempt n | Some r \<Rightarrow> Weighing n r) w)
      | _ \<Rightarrow> None)"

text \<open>
  A process that has exited may still count as living, when its PID was given to another one; the
  operating system says that an owner has exited only when it has.
\<close>

definition directory_judge :: "nat \<Rightarrow> bool \<Rightarrow> directory_pc lock_world \<Rightarrow> directory_pc lock_world option" where
  "directory_judge p exited w =
     (case lk_pc w p of
        Weighing n r \<Rightarrow>
          if \<not> exited then Some (at_pc p Outside w)
          else if lk_dead w (fst r) then Some (at_pc p (Removing n r) w)
          else None
      | _ \<Rightarrow> None)"

definition directory_move :: "nat \<Rightarrow> directory_pc lock_world \<Rightarrow> directory_pc lock_world option" where
  "directory_move p w =
     (case lk_pc w p of
        Removing n r \<Rightarrow>
          if lk_file w = None then Some (at_pc p (next_attempt n) w)
          else Some (at_pc p (Deleting n) (move_aside p w))
      | _ \<Rightarrow> None)"

definition directory_delete :: "nat \<Rightarrow> directory_pc lock_world \<Rightarrow> directory_pc lock_world option" where
  "directory_delete p w =
     (case lk_pc w p of
        Deleting n \<Rightarrow> Some (at_pc p (next_attempt n) (drop_stale p w))
      | _ \<Rightarrow> None)"

definition directory_release :: "nat \<Rightarrow> directory_pc lock_world \<Rightarrow> directory_pc lock_world option" where
  "directory_release p w =
     (if lk_pc w p = Inside then Some (at_pc p (if own_lock p w then Leaving else Outside) w) else None)"

definition directory_unlink :: "nat \<Rightarrow> directory_pc lock_world \<Rightarrow> directory_pc lock_world option" where
  "directory_unlink p w = (if lk_pc w p = Leaving then Some (at_pc p Outside (w\<lparr>lk_file := None\<rparr>)) else None)"

definition directory_lock_step :: "lock_action \<Rightarrow> directory_pc lock_world \<Rightarrow> directory_pc lock_world option" where
  "directory_lock_step a w =
     (if lk_dead w (actor a) then None
      else (case a of
          Start p \<Rightarrow> directory_start p w
        | Write_temp p \<Rightarrow> directory_write p w
        | Link p \<Rightarrow> directory_link p w
        | Unlink_temp p \<Rightarrow> directory_clean p w
        | Read_owner p \<Rightarrow> directory_read p w
        | Judge p e \<Rightarrow> directory_judge p e w
        | Move_aside p \<Rightarrow> directory_move p w
        | Finish p \<Rightarrow> directory_delete p w
        | Release p \<Rightarrow> directory_release p w
        | Unlink p \<Rightarrow> directory_unlink p w
        | Die p \<Rightarrow> Some (at_pc p Outside (w\<lparr>lk_dead := (lk_dead w)(p := True)\<rparr>))
        | _ \<Rightarrow> None))"

lemmas directory_step_defs = directory_lock_step_def directory_start_def directory_write_def directory_link_def
  directory_clean_def directory_read_def directory_judge_def directory_move_def directory_delete_def
  directory_release_def directory_unlink_def next_attempt_def

section \<open>Exclusion as long as every record moved is the one that was judged\<close>

definition directory_moves_judged :: "lock_action \<Rightarrow> directory_pc lock_world \<Rightarrow> bool" where
  "directory_moves_judged a w \<longleftrightarrow>
     (\<forall>p. a = Move_aside p \<longrightarrow> lk_file w = None \<or> (\<exists>n r. lk_pc w p = Removing n r \<and> lk_file w = Some r))"

definition directory_holds :: "directory_pc lock_world \<Rightarrow> nat \<Rightarrow> bool" where
  "directory_holds w p \<longleftrightarrow> lk_pc w p = Inside"

definition directory_owning :: "directory_pc \<Rightarrow> bool" where
  "directory_owning c \<longleftrightarrow> c = Entered \<or> c = Inside \<or> c = Leaving"

fun directory_judged :: "directory_pc \<Rightarrow> lock_owner option" where
  "directory_judged (Removing n r) = Some r"
| "directory_judged _ = None"

interpretation directory_lock: reclaiming_lock directory_lock_step directory_owning directory_judged "\<lambda>_ _. True" Outside
proof
  fix a w w' r p
  show "\<not> directory_owning Outside" "directory_judged Outside = None" by (simp_all add: directory_owning_def)
  assume step: "directory_lock_step a w = Some w'"
  then show "\<not> lk_dead w (actor a)" by (auto simp: directory_lock_step_def split: if_splits)
  show "r \<noteq> actor a \<Longrightarrow> lk_pc w' r = lk_pc w r \<and> lk_token w' r = lk_token w r
      \<and> lk_stale w' r = lk_stale w r \<and> lk_dead w' r = lk_dead w r"
    using step by (cases a) (auto simp: directory_step_defs lock_ops split: if_splits option.splits directory_pc.splits)
  show "lk_dead w r \<Longrightarrow> lk_dead w' r"
    using step by (cases a) (auto simp: directory_step_defs lock_ops split: if_splits option.splits directory_pc.splits)
  show "lk_file w' \<noteq> lk_file w \<Longrightarrow> lk_file w = None \<or> a = Move_aside (actor a) \<or> directory_owning (lk_pc w (actor a))"
    using step by (cases a) (auto simp: directory_step_defs directory_owning_def lock_ops split: if_splits option.splits directory_pc.splits)
  show "p = actor a \<Longrightarrow> (a = Move_aside p \<Longrightarrow> lk_file w = None \<or> directory_judged (lk_pc w p) = lk_file w) \<Longrightarrow>
      (directory_owning (lk_pc w p) \<Longrightarrow> own_lock p w) \<Longrightarrow>
      (directory_owning (lk_pc w' p) \<longrightarrow> own_lock p w')
      \<and> (\<forall>r. directory_judged (lk_pc w' p) = Some r \<longrightarrow> directory_judged (lk_pc w p) = Some r \<or> lk_dead w (fst r))
      \<and> True \<and> (lk_dead w' p \<longrightarrow> lk_pc w' p = Outside)"
    using step by (cases a)
      (auto simp: directory_step_defs directory_owning_def lock_ops split: if_splits option.splits directory_pc.splits)
qed simp_all

lemma directory_moves_judged_eq: "directory_lock.moves_judged = directory_moves_judged"
proof (intro ext)
  fix a w
  have "directory_judged c = Some r \<longleftrightarrow> (\<exists>n. c = Removing n r)" for c r by (cases c) auto
  then show "directory_lock.moves_judged a w = directory_moves_judged a w"
    by (cases "lk_file w") (auto simp: directory_lock.moves_judged_def directory_moves_judged_def)
qed

text \<open>
  C18: one gateway at a time works on a data directory. In every interleaving of the calls of any number
  of processes, with deaths anywhere, at most one process is inside, provided that every record that is
  moved aside is still the one that was read before its owner was judged.
\<close>

theorem directory_lock_exclusive:
  assumes "lock_run directory_lock_step directory_moves_judged as (no_locks Outside) = Some w"
    and "directory_holds w p" and "directory_holds w q"
  shows "p = q"
  using directory_lock.exclusion [unfolded directory_moves_judged_eq, OF assms(1)] assms(2,3)
  by (simp add: directory_lock.holds_def directory_holds_def directory_owning_def)

definition restarted_gateway :: "lock_action list" where
  "restarted_gateway = [Start 1, Write_temp 1, Link 1, Unlink_temp 1, Die 1,
     Start 2, Write_temp 2, Link 2, Unlink_temp 2, Read_owner 2, Judge 2 True, Move_aside 2, Finish 2,
     Write_temp 2, Link 2, Start 3, Write_temp 3, Link 3, Unlink_temp 2, Unlink_temp 3, Read_owner 3, Judge 3 False]"

lemma directory_moves_judged_simps [simp]:
  "directory_moves_judged (Move_aside p) w \<longleftrightarrow> lk_file w = None \<or> (\<exists>n r. lk_pc w p = Removing n r \<and> lk_file w = Some r)"
  "(\<forall>p. a \<noteq> Move_aside p) \<Longrightarrow> directory_moves_judged a w"
  by (auto simp: directory_moves_judged_def)

theorem directory_lock_exclusive_witness:
  "\<exists>w. lock_run directory_lock_step directory_moves_judged restarted_gateway (no_locks Outside) = Some w
     \<and> directory_holds w 2 \<and> \<not> directory_holds w 3"
proof -
  have "\<exists>w. lock_run directory_lock_step directory_moves_judged restarted_gateway (no_locks Outside) = Some w \<and> directory_holds w 2"
    by (simp add: restarted_gateway_def directory_step_defs no_locks_def lock_ops directory_holds_def max_attempts_def)
  then obtain w where w: "lock_run directory_lock_step directory_moves_judged restarted_gateway (no_locks Outside) = Some w"
    "directory_holds w 2" by blast
  with directory_lock_exclusive [OF w(1), of 2 3] show ?thesis by auto
qed

section \<open>A record that changed between the reading and the move\<close>

lemma directory_step_fresh: "fresh_tokens w \<Longrightarrow> directory_lock_step a w = Some w' \<Longrightarrow> fresh_tokens w'"
  by (cases a) (auto simp: fresh_tokens_def directory_step_defs lock_ops less_Suc_eq dest: Suc_leD leD
    split: if_splits option.splits directory_pc.splits)

lemma directory_run_fresh: "lock_run directory_lock_step allowed as w = Some w' \<Longrightarrow> fresh_tokens w \<Longrightarrow> fresh_tokens w'"
  by (induction as arbitrary: w) (auto split: if_splits option.splits intro: directory_step_fresh)

text \<open>
  One recovery is enough. Process \<open>p\<close> reads the record of \<open>x\<close>, which then releases the lock and exits;
  \<open>q\<close> acquires the lock; \<open>p\<close> judges \<open>x\<close> as exited, moves the lock of \<open>q\<close> aside, deletes it, and links its
  own record.
\<close>

definition late_removal :: "nat \<Rightarrow> nat \<Rightarrow> nat \<Rightarrow> lock_action list" where
  "late_removal x p q = [Start p, Write_temp p, Link p, Unlink_temp p, Read_owner p, Release x, Unlink x, Die x,
     Start q, Write_temp q, Link q, Unlink_temp q, Judge p True, Move_aside p, Finish p,
     Write_temp p, Link p, Unlink_temp p]"

text \<open>
  C38: without that proviso two gateways work on one data directory, with a single recovery under way.
  From every state that is reached with every removal moving what it judged, in which a process \<open>x\<close> is
  inside, any two other idle processes can move such that both are inside, alive, at the same time: the
  one that arrives late deletes the lock the other one has just acquired.
\<close>

theorem directory_lock_race:
  assumes "lock_run directory_lock_step directory_moves_judged as (no_locks Outside) = Some w"
    and "directory_holds w x" and "distinct [x, p, q]"
    and "\<forall>y\<in>{p, q}. lk_pc w y = Outside \<and> \<not> lk_dead w y"
  shows "\<exists>w'. lock_run directory_lock_step (\<lambda>_ _. True) (late_removal x p q) w = Some w'
     \<and> directory_holds w' p \<and> directory_holds w' q \<and> \<not> lk_dead w' p \<and> \<not> lk_dead w' q"
proof -
  have "directory_lock.inv w"
    using directory_lock.run_inv [unfolded directory_moves_judged_eq, OF assms(1)] directory_lock.inv_no_locks by blast
  then have "own_lock x w" and "\<not> lk_dead w x"
    using directory_lock.invD [of w x] assms(2)
    by (auto simp: directory_lock.pc_ok_def directory_holds_def directory_owning_def)
  moreover have "fresh_tokens w"
    using directory_run_fresh [OF assms(1)] by (simp add: fresh_tokens_def no_locks_def)
  ultimately show ?thesis
    using assms(2-4)
    by (simp add: late_removal_def directory_step_defs lock_ops directory_holds_def fresh_tokens_def max_attempts_def)
qed

theorem directory_lock_race_witness:
  "\<exists>w w'. lock_run directory_lock_step directory_moves_judged [Start 1, Write_temp 1, Link 1, Unlink_temp 1] (no_locks Outside) = Some w
     \<and> lock_run directory_lock_step (\<lambda>_ _. True) (late_removal 1 2 3) w = Some w'
     \<and> directory_holds w' 2 \<and> directory_holds w' 3 \<and> \<not> lk_dead w' 2 \<and> \<not> lk_dead w' 3"
proof -
  have "\<exists>w. lock_run directory_lock_step directory_moves_judged [Start 1, Write_temp 1, Link 1, Unlink_temp 1] (no_locks Outside) = Some w
      \<and> directory_holds w 1 \<and> (\<forall>y\<in>{2, 3}. lk_pc w y = Outside \<and> \<not> lk_dead w y)"
    by (simp add: directory_step_defs no_locks_def lock_ops directory_holds_def)
  then obtain w where w: "lock_run directory_lock_step directory_moves_judged [Start 1, Write_temp 1, Link 1, Unlink_temp 1] (no_locks Outside) = Some w"
    "directory_holds w 1" "\<forall>y\<in>{2, 3}. lk_pc w y = Outside \<and> \<not> lk_dead w y" by blast
  from directory_lock_race [OF w(1,2) _ w(3)] w(1) show ?thesis by auto
qed

section \<open>Acquisition ends\<close>

text \<open>The calls an acquisition can still make: seven in every attempt.\<close>

fun remaining_calls :: "directory_pc \<Rightarrow> nat" where
  "remaining_calls (Preparing n) = 7 * (max_attempts - n)"
| "remaining_calls (Linking n) = 7 * (max_attempts - n) - 1"
| "remaining_calls (Cleaning n) = 7 * (max_attempts - n) - 2"
| "remaining_calls (Reading n) = 7 * (max_attempts - n) - 3"
| "remaining_calls (Weighing n r) = 7 * (max_attempts - n) - 4"
| "remaining_calls (Removing n r) = 7 * (max_attempts - n) - 5"
| "remaining_calls (Deleting n) = 7 * (max_attempts - n) - 6"
| "remaining_calls Entered = 1"
| "remaining_calls _ = 0"

definition acquiring :: "directory_pc \<Rightarrow> bool" where
  "acquiring c \<longleftrightarrow> c \<noteq> Outside \<and> c \<noteq> Inside \<and> c \<noteq> Leaving"

text \<open>The attempt counter of an acquisition stays below its bound.\<close>

fun attempt_ok :: "directory_pc \<Rightarrow> bool" where
  "attempt_ok (Preparing n) = (n < max_attempts)"
| "attempt_ok (Linking n) = (n < max_attempts)"
| "attempt_ok (Cleaning n) = (n < max_attempts)"
| "attempt_ok (Reading n) = (n < max_attempts)"
| "attempt_ok (Weighing n r) = (n < max_attempts)"
| "attempt_ok (Removing n r) = (n < max_attempts)"
| "attempt_ok (Deleting n) = (n < max_attempts)"
| "attempt_ok _ = True"

lemma acquiring_positive: "acquiring c \<Longrightarrow> attempt_ok c \<Longrightarrow> 0 < remaining_calls c"
  by (cases c) (auto simp: acquiring_def)

lemma acquisition_step:
  assumes "directory_lock_step a w = Some w'" and "actor a = p" and "acquiring (lk_pc w p)" and "attempt_ok (lk_pc w p)"
  shows "remaining_calls (lk_pc w' p) < remaining_calls (lk_pc w p) \<and> attempt_ok (lk_pc w' p)"
  using assms acquiring_positive [OF assms(3,4)]
  by (cases a) (auto simp: directory_step_defs acquiring_def lock_ops split: if_splits option.splits directory_pc.splits)

text \<open>An acquiring process is never blocked: it has a call to make, whatever the others did.\<close>

lemma acquisition_enabled:
  assumes "acquiring (lk_pc w p)" and "\<not> lk_dead w p"
  shows "\<exists>a w'. a \<noteq> Die p \<and> actor a = p \<and> directory_lock_step a w = Some w'"
proof -
  have "directory_lock_step (Write_temp p) w \<noteq> None \<or> directory_lock_step (Link p) w \<noteq> None
      \<or> directory_lock_step (Unlink_temp p) w \<noteq> None \<or> directory_lock_step (Read_owner p) w \<noteq> None
      \<or> directory_lock_step (Judge p False) w \<noteq> None \<or> directory_lock_step (Move_aside p) w \<noteq> None
      \<or> directory_lock_step (Finish p) w \<noteq> None"
    using assms by (cases "lk_pc w p") (simp_all add: directory_step_defs acquiring_def)
  then show ?thesis by fastforce
qed

text \<open>The calls of process \<open>p\<close> while it acquires the lock, among the calls of all processes.\<close>

fun acquisition_calls :: "nat \<Rightarrow> lock_action list \<Rightarrow> directory_pc lock_world \<Rightarrow> nat" where
  "acquisition_calls p [] w = 0"
| "acquisition_calls p (a # as) w =
     (case directory_lock_step a w of
        None \<Rightarrow> 0
      | Some w' \<Rightarrow>
          if acquiring (lk_pc w p) then (if actor a = p then 1 else 0) + acquisition_calls p as w' else 0)"

lemma acquisition_calls_le: "attempt_ok (lk_pc w p) \<Longrightarrow> acquisition_calls p as w \<le> remaining_calls (lk_pc w p)"
proof (induction as arbitrary: w)
  case (Cons a as)
  show ?case
  proof (cases "directory_lock_step a w")
    case (Some w')
    show ?thesis
    proof (cases "acquiring (lk_pc w p) \<and> actor a = p")
      case True
      with acquisition_step [OF Some, of p] Cons.prems Cons.IH [of w'] Some show ?thesis by fastforce
    next
      case False
      with directory_lock.step_other [OF Some, of p] Cons.prems Cons.IH [of w'] Some show ?thesis by auto
    qed
  qed simp
qed simp

text \<open>
  C19: acquiring the directory lock ends. Whatever other processes do in between, an acquisition makes at
  most 57 calls to the operating system before it is inside or has thrown: one \<open>mkdir\<close>, and in each of
  eight attempts a \<open>writeFile\<close>, \<open>link\<close>, \<open>unlink\<close>, \<open>readFile\<close>, \<open>kill\<close>, \<open>rename\<close> and \<open>rm\<close>. Until then a
  living process always has a next call that it can make.
\<close>

theorem acquisition_bounded:
  assumes "directory_start p w0 = Some w" and "lock_run directory_lock_step (\<lambda>_ _. True) as w = Some w'"
  shows "1 + acquisition_calls p as w \<le> 57
     \<and> (acquiring (lk_pc w' p) \<and> \<not> lk_dead w' p \<longrightarrow>
          (\<exists>a w''. a \<noteq> Die p \<and> actor a = p \<and> directory_lock_step a w' = Some w''))"
  using acquisition_calls_le [of w p as] assms acquisition_enabled [of w' p]
  by (auto simp: directory_start_def draw_token_def max_attempts_def split: if_splits)

text \<open>Process 2 recovers the lock of a dead owner; meanwhile process 3 acquires it and dies too.\<close>

definition contended_acquisition :: "lock_action list" where
  "contended_acquisition = [Write_temp 2, Link 2, Unlink_temp 2, Read_owner 2, Judge 2 True, Move_aside 2, Finish 2,
     Start 3, Write_temp 3, Link 3, Die 3, Write_temp 2, Link 2, Unlink_temp 2, Read_owner 2, Judge 2 True]"

theorem acquisition_bounded_witness:
  "\<exists>w w'. directory_start 2 ((no_locks Outside)\<lparr>lk_file := Some (1, 0), lk_dead := (\<lambda>_. False)(1 := True)\<rparr>) = Some w
     \<and> lock_run directory_lock_step (\<lambda>_ _. True) contended_acquisition w = Some w'
     \<and> 1 + acquisition_calls 2 contended_acquisition w \<le> 57
     \<and> (\<exists>a w''. a \<noteq> Die 2 \<and> actor a = 2 \<and> directory_lock_step a w' = Some w'')"
proof -
  have "\<exists>w w'. directory_start 2 ((no_locks Outside)\<lparr>lk_file := Some (1, 0), lk_dead := (\<lambda>_. False)(1 := True)\<rparr>) = Some w
      \<and> lock_run directory_lock_step (\<lambda>_ _. True) contended_acquisition w = Some w' \<and> acquiring (lk_pc w' 2) \<and> \<not> lk_dead w' 2"
    by (simp add: contended_acquisition_def directory_step_defs no_locks_def lock_ops max_attempts_def acquiring_def)
  then obtain w w' where w: "directory_start 2 ((no_locks Outside)\<lparr>lk_file := Some (1, 0), lk_dead := (\<lambda>_. False)(1 := True)\<rparr>) = Some w"
    "lock_run directory_lock_step (\<lambda>_ _. True) contended_acquisition w = Some w'" "acquiring (lk_pc w' 2)" "\<not> lk_dead w' 2"
    by blast
  with acquisition_bounded [OF w(1,2)] show ?thesis by blast
qed

end
