(* ===== verification/Totp.thy ===== *)
theory Totp
  imports Zod "HOL-Library.Word"
begin

text \<open>
  Model of \<open>packages/security/src/totp.ts\<close>: Base32 secrets and time-based one-time codes. Bytes are 8-bit
  words and the accumulators of the coders are 32-bit words with the shifts and masks of the source, so
  that the loss of high bits is part of the model. HMAC is a parameter. A time is an integer number of
  milliseconds; \<open>Math.floor(timeMs / 1_000 / periodSeconds)\<close> is then the integer quotient (for times
  beyond about the year 100000 the rounding of doubles could differ).
\<close>

unbundle bit_operations_syntax

section \<open>Base32\<close>

definition BASE32_ALPHABET :: string where
  "BASE32_ALPHABET = ''ABCDEFGHIJKLMNOPQRSTUVWXYZ234567''"

datatype totp_error =
    Not_base32 | Empty_secret | Trailing_bits | Secret_size | Bad_time | Bad_period | Bad_counter | Bad_digits

text \<open>
  \<open>toUpperCase\<close> of one code unit below 256: the sharp s becomes two letters; the letters whose capital
  lies beyond that range stay, and are no Base32 symbols either way.
\<close>

definition upper_char :: "char \<Rightarrow> string" where
  "upper_char c = (let n = of_char c :: nat in
     if n = 223 then ''SS''
     else if 97 \<le> n \<and> n \<le> 122 \<or> 224 \<le> n \<and> n \<le> 254 \<and> n \<noteq> 247 then [char_of (n - 32)]
     else [c])"

definition strip_padding :: "string \<Rightarrow> string" where
  "strip_padding s = rev (dropWhile (\<lambda>c. c = CHR ''='') (rev s))"

definition normalizeBase32Secret :: "string \<Rightarrow> (totp_error, string) result" where
  "normalizeBase32Secret input =
     (let normalized = concat (map upper_char
        (strip_padding (filter (\<lambda>c. \<not> (js_space c \<or> c = CHR ''-'')) (js_trim input))))
      in if normalized = [] \<or> \<not> list_all (\<lambda>c. c \<in> set BASE32_ALPHABET) normalized
         then Inl Not_base32 else Inr normalized)"

text \<open>The inner loop of \<open>encodeBase32\<close>: emit symbols while five bits are pending.\<close>

fun b32_emit :: "32 word \<Rightarrow> nat \<Rightarrow> string \<Rightarrow> 32 word \<times> nat \<times> string" where
  "b32_emit accumulator bits output =
     (if 5 \<le> bits then
        (let bits' = bits - 5 in
         b32_emit (accumulator AND (push_bit bits' 1 - 1)) bits'
           (output @ [BASE32_ALPHABET ! unat (drop_bit bits' accumulator AND 31)]))
      else (accumulator, bits, output))"

declare b32_emit.simps [simp del]

definition b32_push :: "8 word \<Rightarrow> 32 word \<times> nat \<times> string \<Rightarrow> 32 word \<times> nat \<times> string" where
  "b32_push byte st = (case st of (accumulator, bits, output) \<Rightarrow>
     b32_emit (push_bit 8 accumulator OR ucast byte) (bits + 8) output)"

definition encodeBase32 :: "8 word list \<Rightarrow> (totp_error, string) result" where
  "encodeBase32 bytes =
     (if bytes = [] then Inl Empty_secret
      else (case fold b32_push bytes (0, 0, []) of (accumulator, bits, output) \<Rightarrow>
        Inr (if 0 < bits
             then output @ [BASE32_ALPHABET ! unat (push_bit (5 - bits) accumulator AND 31)]
             else output)))"

definition alphabet_index :: "char \<Rightarrow> nat" where
  "alphabet_index c = length (takeWhile (\<lambda>d. d \<noteq> c) BASE32_ALPHABET)"

definition b32_read :: "char \<Rightarrow> 32 word \<times> nat \<times> 8 word list \<Rightarrow> 32 word \<times> nat \<times> 8 word list" where
  "b32_read character st = (case st of (accumulator, bits, output) \<Rightarrow>
     (let accumulator = push_bit 5 accumulator OR of_nat (alphabet_index character); bits = bits + 5 in
      if 8 \<le> bits then
        (let bits = bits - 8 in
         (accumulator AND (push_bit bits 1 - 1), bits, output @ [ucast (drop_bit bits accumulator AND 0xFF)]))
      else (accumulator, bits, output)))"

definition decodeBase32 :: "string \<Rightarrow> (totp_error, 8 word list) result" where
  "decodeBase32 input =
     rbind (normalizeBase32Secret input) (\<lambda>normalized.
       (case fold b32_read normalized (0, 0, []) of (accumulator, bits, output) \<Rightarrow>
          if 0 < bits \<and> accumulator \<noteq> 0 then Inl Trailing_bits
          else if length output < 16 \<or> 64 < length output then Inl Secret_size
          else Inr output))"

section \<open>One-time codes\<close>

definition totpCounter :: "int \<Rightarrow> int \<Rightarrow> (totp_error, int) result" where
  "totpCounter timeMs periodSeconds =
     (if timeMs < 0 then Inl Bad_time
      else if \<not> isSafeInteger periodSeconds \<or> periodSeconds < 1 then Inl Bad_period
      else Inr (timeMs div 1000 div periodSeconds))"

text \<open>\<open>setBigUint64(0, BigInt(counter), false)\<close>: eight bytes, the most significant first.\<close>

definition counter_bytes :: "nat \<Rightarrow> 8 word list" where
  "counter_bytes counter = map (\<lambda>i. of_nat (counter div 256 ^ (7 - i))) [0..<8]"

text \<open>\<open>digest[i]!\<close> in a bitwise operation: an index beyond the end counts as zero.\<close>

definition digest_at :: "8 word list \<Rightarrow> nat \<Rightarrow> 32 word" where
  "digest_at digest i = (if i < length digest then ucast (digest ! i) else 0)"

definition truncate_digest :: "8 word list \<Rightarrow> 32 word" where
  "truncate_digest digest =
     (let offset = unat (digest_at digest (length digest - 1) AND 0x0F) in
      push_bit 24 (digest_at digest offset AND 0x7F)
      OR push_bit 16 (digest_at digest (offset + 1))
      OR push_bit 8 (digest_at digest (offset + 2))
      OR digest_at digest (offset + 3))"

definition padStart :: "nat \<Rightarrow> char \<Rightarrow> string \<Rightarrow> string" where
  "padStart n c s = replicate (n - length s) c @ s"

definition generateTotpForCounter ::
  "(8 word list \<Rightarrow> 8 word list \<Rightarrow> 8 word list) \<Rightarrow> 8 word list \<Rightarrow> int \<Rightarrow> int \<Rightarrow> (totp_error, string) result" where
  "generateTotpForCounter hmac secretBytes counter digits =
     (if length secretBytes < 16 \<or> 64 < length secretBytes then Inl Secret_size
      else if \<not> isSafeInteger counter \<or> counter < 0 then Inl Bad_counter
      else if \<not> isSafeInteger digits \<or> digits < 6 \<or> 8 < digits then Inl Bad_digits
      else
        (let binary = truncate_digest (hmac secretBytes (counter_bytes (nat counter)))
         in Inr (padStart (nat digits) (CHR ''0'') (show_nat (unat binary mod 10 ^ nat digits)))))"

text \<open>The secret given as a Base32 string.\<close>

definition generateTotpForSecret ::
  "(8 word list \<Rightarrow> 8 word list \<Rightarrow> 8 word list) \<Rightarrow> string \<Rightarrow> int \<Rightarrow> int \<Rightarrow> (totp_error, string) result" where
  "generateTotpForSecret hmac secret counter digits =
     rbind (decodeBase32 secret) (\<lambda>secretBytes. generateTotpForCounter hmac secretBytes counter digits)"

definition generateTotp ::
  "(8 word list \<Rightarrow> 8 word list \<Rightarrow> 8 word list) \<Rightarrow> string \<Rightarrow> int \<Rightarrow> int \<Rightarrow> int \<Rightarrow> (totp_error, string) result" where
  "generateTotp hmac secret timeMs periodSeconds digits =
     rbind (totpCounter timeMs periodSeconds) (\<lambda>counter. generateTotpForSecret hmac secret counter digits)"

end
