(* ===== verification/Totp_Correct.thy ===== *)
theory Totp_Correct
  imports Totp
begin

text \<open>
  The Base32 coders against a reference on bit lists: the bits of the bytes in order, padded with zeros
  to groups of five, one symbol per group. From the equivalence follow the round trip and the shape of
  the codes.
\<close>

unbundle bit_operations_syntax

section \<open>Bits, most significant first\<close>

primrec nbits :: "nat \<Rightarrow> nat \<Rightarrow> bool list" where
  "nbits 0 x = []"
| "nbits (Suc k) x = nbits k (x div 2) @ [odd x]"

definition of_bits :: "bool list \<Rightarrow> nat" where
  "of_bits bs = foldl (\<lambda>a b. 2 * a + of_bool b) 0 bs"

lemma length_nbits [simp]: "length (nbits k x) = k"
  by (induction k arbitrary: x) auto

lemma of_bits_snoc: "of_bits (bs @ [b]) = 2 * of_bits bs + of_bool b"
  by (simp add: of_bits_def)

lemma of_bits_nbits: "of_bits (nbits k x) = x mod 2 ^ k"
proof (induction k arbitrary: x)
  case (Suc k)
  have "x mod (2 * 2 ^ k) = 2 * (x div 2 mod 2 ^ k) + x mod 2"
    by (metis mod_mult2_eq add.commute)
  with Suc show ?case by (simp add: of_bits_snoc mod2_eq_if)
qed (simp add: of_bits_def)

lemma nbits_of_bits: "length bs = k \<Longrightarrow> nbits k (of_bits bs) = bs"
proof (induction k arbitrary: bs)
  case (Suc k)
  then obtain cs c where bs: "bs = cs @ [c]" by (metis append_butlast_last_id length_0_conv nat.distinct(1))
  with Suc show ?case by (simp add: of_bits_snoc)
qed simp

lemma of_bits_less: "of_bits bs < 2 ^ length bs"
proof -
  have "of_bits bs = of_bits bs mod 2 ^ length bs"
    using of_bits_nbits [of "length bs" "of_bits bs"] nbits_of_bits [of bs "length bs"] by simp
  then show ?thesis by (metis mod_less_divisor zero_less_numeral zero_less_power)
qed

lemma nbits_append: "y < 2 ^ k \<Longrightarrow> nbits (j + k) (x * 2 ^ k + y) = nbits j x @ nbits k y"
proof (induction k arbitrary: y)
  case (Suc k)
  have "(x * 2 ^ Suc k + y) div 2 = x * 2 ^ k + y div 2"
    by (simp add: div_plus_div_distrib_dvd_left)
  moreover have "y div 2 < 2 ^ k" using Suc.prems by auto
  ultimately show ?case using Suc.IH [of "y div 2"] by simp
qed simp

lemma nbits_split: "nbits (j + k) x = nbits j (x div 2 ^ k) @ nbits k (x mod 2 ^ k)"
  using nbits_append [of "x mod 2 ^ k" k j "x div 2 ^ k"] by (simp only: div_mult_mod_eq) simp

section \<open>Groups\<close>

function chop :: "nat \<Rightarrow> 'a list \<Rightarrow> 'a list list" where
  "chop n xs = (if n = 0 \<or> length xs < n then [] else take n xs # chop n (drop n xs))"
  by auto
termination by (relation "measure (length \<circ> snd)") auto

declare chop.simps [simp del]

function chop_rest :: "nat \<Rightarrow> 'a list \<Rightarrow> 'a list" where
  "chop_rest n xs = (if n = 0 \<or> length xs < n then xs else chop_rest n (drop n xs))"
  by auto
termination by (relation "measure (length \<circ> snd)") auto

declare chop_rest.simps [simp del]

lemma chop_short: "length xs < n \<Longrightarrow> chop n xs = [] \<and> chop_rest n xs = xs"
  by (simp add: chop.simps chop_rest.simps)

lemma chop_group: "0 < n \<Longrightarrow> length g = n \<Longrightarrow> chop n (g @ xs) = g # chop n xs \<and> chop_rest n (g @ xs) = chop_rest n xs"
  by (simp add: chop.simps [of n "g @ xs"] chop_rest.simps [of n "g @ xs"])

lemma chop_append:
  "0 < n \<Longrightarrow> chop n (xs @ ys) = chop n xs @ chop n (chop_rest n xs @ ys) \<and>
    chop_rest n (xs @ ys) = chop_rest n (chop_rest n xs @ ys)"
proof (induction n xs rule: chop.induct)
  case (1 n xs)
  show ?case
  proof (cases "length xs < n")
    case True
    then show ?thesis by (simp add: chop_short)
  next
    case False
    then have len: "length (take n xs) = n" by simp
    have eq: "xs @ ys = take n xs @ (drop n xs @ ys)" by (metis append_assoc append_take_drop_id)
    have "chop n (xs @ ys) = take n xs # chop n (drop n xs @ ys)" "chop_rest n (xs @ ys) = chop_rest n (drop n xs @ ys)"
      unfolding eq using chop_group [OF 1(2) len, of "drop n xs @ ys"] by simp_all
    moreover have "chop n xs = take n xs # chop n (drop n xs)" "chop_rest n xs = chop_rest n (drop n xs)"
      using chop_group [OF 1(2) len, of "drop n xs"] by simp_all
    ultimately show ?thesis using 1 False by simp
  qed
qed

lemma chop_rest_short: "0 < n \<Longrightarrow> length (chop_rest n xs) < n"
  by (induction n xs rule: chop.induct) (simp add: chop_rest.simps)

lemma chop_concat: "0 < n \<Longrightarrow> \<forall>g\<in>set gs. length g = n \<Longrightarrow> length xs < n \<Longrightarrow>
    chop n (concat gs @ xs) = gs \<and> chop_rest n (concat gs @ xs) = xs"
  by (induction gs) (auto simp: chop_short chop_group)

lemma chop_whole: "0 < n \<Longrightarrow> concat (chop n xs) @ chop_rest n xs = xs \<and> (\<forall>g\<in>set (chop n xs). length g = n)"
proof (induction n xs rule: chop.induct)
  case (1 n xs)
  show ?case
  proof (cases "length xs < n")
    case False
    then have eq: "chop n xs = take n xs # chop n (drop n xs)" "chop_rest n xs = chop_rest n (drop n xs)" and "length (take n xs) = n"
      using 1(2) chop_group [of n "take n xs" "drop n xs"] by simp_all
    moreover have "concat (chop n (drop n xs)) @ chop_rest n (drop n xs) = drop n xs
        \<and> (\<forall>g\<in>set (chop n (drop n xs)). length g = n)" using 1 False by blast
    ultimately show ?thesis unfolding eq by simp
  qed (simp add: chop_short)
qed

lemma concat_length: "\<forall>g\<in>set gs. length g = n \<Longrightarrow> length (concat gs) = n * length gs"
  by (induction gs) auto

lemma chop_rest_length:
  assumes "0 < n"
  shows "length (chop_rest n xs) = length xs mod n"
proof -
  have "length xs = length (concat (chop n xs)) + length (chop_rest n xs)"
    using chop_whole [OF assms, of xs] by (metis length_append)
  moreover have "length (concat (chop n xs)) = n * length (chop n xs)"
    using chop_whole [OF assms, of xs] by (simp add: concat_length)
  ultimately show ?thesis using chop_rest_short [OF assms, of xs] by simp
qed

section \<open>The word operations\<close>

lemma unat_bound: "unat (w :: 'a::len word) < 2 ^ LENGTH('a)"
  by (rule unsigned_less)

lemma mask_word: "(push_bit k 1 - 1 :: 'a::len word) = mask k"
  by (simp add: mask_eq_exp_minus_1 push_bit_of_1)

lemma unat_mask: "unat ((w :: 'a::len word) AND (push_bit k 1 - 1)) = unat w mod 2 ^ k"
  unfolding mask_word take_bit_eq_mask [symmetric] unsigned_take_bit_eq by (rule take_bit_eq_mod)

lemma unat_field: "unat (drop_bit k w AND mask n :: 32 word) = unat w div 2 ^ k mod 2 ^ n"
  unfolding take_bit_eq_mask [symmetric] unsigned_take_bit_eq unsigned_drop_bit_eq
  using unat_bound [of w]
  by (simp add: take_bit_eq_mod [of _ "_ :: nat"] drop_bit_eq_div [of _ "_ :: nat"] take_bit_nat_eq_self)

lemma nat_shift_or: "y < 2 ^ n \<Longrightarrow> push_bit n x OR y = x * 2 ^ n + (y :: nat)"
proof -
  assume "y < 2 ^ n"
  then have "take_bit n y = y" by (simp add: take_bit_nat_eq_self)
  then have "bit y m \<Longrightarrow> m < n" for m by (metis bit_take_bit_iff)
  then have "\<not> bit (push_bit n x) m \<or> \<not> bit y m" for m by (metis bit_push_bit_iff leD)
  from disjunctive_add [OF this] show ?thesis by (simp add: push_bit_eq_mult)
qed

lemma unat_shift_or:
  assumes "unat w < 2 ^ k" and "unat v < 2 ^ n" and "k + n \<le> 32"
  shows "unat (push_bit n w OR v :: 32 word) = unat w * 2 ^ n + unat v"
proof -
  have "unat w * 2 ^ n < 2 ^ k * 2 ^ n" using assms(1) by simp
  also have "\<dots> \<le> 2 ^ 32" using power_increasing [OF assms(3), of "2::nat"] by (simp add: power_add)
  finally have "unat (push_bit n w) = push_bit n (unat w)"
    unfolding unsigned_push_bit_eq by (simp add: push_bit_eq_mult [of _ "_ :: nat"] take_bit_nat_eq_self)
  with nat_shift_or [OF assms(2)] show ?thesis by (simp add: unsigned_or_eq)
qed

lemma fields: "(31 :: 32 word) = mask 5" "(0xFF :: 32 word) = mask 8"
  by (simp_all add: mask_eq_exp_minus_1)

section \<open>Encoding\<close>

definition base32_symbol :: "bool list \<Rightarrow> char" where
  "base32_symbol g = BASE32_ALPHABET ! of_bits g"

definition byte_bits :: "8 word \<Rightarrow> bool list" where
  "byte_bits b = nbits 8 (unat b)"

text \<open>The reference: the bits of all bytes, padded with zeros, five at a time.\<close>

definition base32_reference :: "8 word list \<Rightarrow> string" where
  "base32_reference bytes =
     (let bits = concat (map byte_bits bytes);
          padding = replicate ((5 - length bits mod 5) mod 5) False
      in map base32_symbol (chop 5 (bits @ padding)))"

lemma b32_emit_spec:
  assumes "unat acc < 2 ^ bits" and "bits \<le> 32"
  shows "\<exists>acc' bits'. b32_emit acc bits out = (acc', bits', out @ map base32_symbol (chop 5 (nbits bits (unat acc))))
    \<and> nbits bits' (unat acc') = chop_rest 5 (nbits bits (unat acc)) \<and> bits' < 5 \<and> unat acc' < 2 ^ bits'"
  using assms
proof (induction acc bits out rule: b32_emit.induct)
  case (1 acc bits out)
  show ?case
  proof (cases "5 \<le> bits")
    case False
    with 1 show ?thesis by (simp add: b32_emit.simps [of acc] chop_short)
  next
    case True
    let ?bits = "bits - 5" and ?acc = "acc AND (push_bit (bits - 5) 1 - 1)"
    let ?g = "nbits 5 (unat acc div 2 ^ ?bits)"
    have acc: "unat ?acc = unat acc mod 2 ^ ?bits" by (rule unat_mask)
    have small: "unat ?acc < 2 ^ ?bits" unfolding acc by simp
    have split: "nbits bits (unat acc) = ?g @ nbits ?bits (unat ?acc)"
      using nbits_split [of 5 ?bits "unat acc"] True unfolding acc by simp
    have sym: "BASE32_ALPHABET ! unat (drop_bit ?bits acc AND 31) = base32_symbol ?g"
      by (simp only: base32_symbol_def of_bits_nbits fields unat_field)
    have "\<exists>acc' bits'. b32_emit ?acc ?bits (out @ [BASE32_ALPHABET ! unat (drop_bit ?bits acc AND 31)]) =
        (acc', bits', (out @ [BASE32_ALPHABET ! unat (drop_bit ?bits acc AND 31)]) @ map base32_symbol (chop 5 (nbits ?bits (unat ?acc))))
      \<and> nbits bits' (unat acc') = chop_rest 5 (nbits ?bits (unat ?acc)) \<and> bits' < 5 \<and> unat acc' < 2 ^ bits'"
      by (rule 1(1) [OF True refl small]) (use 1 in simp)
    with True sym show ?thesis
      by (simp add: b32_emit.simps [of acc bits] Let_def split chop_group)
  qed
qed

lemma b32_push_spec:
  assumes "unat acc < 2 ^ bits" and "bits < 5"
  shows "\<exists>acc' bits'. b32_push byte (acc, bits, out) =
      (acc', bits', out @ map base32_symbol (chop 5 (nbits bits (unat acc) @ byte_bits byte)))
    \<and> nbits bits' (unat acc') = chop_rest 5 (nbits bits (unat acc) @ byte_bits byte) \<and> bits' < 5 \<and> unat acc' < 2 ^ bits'"
proof -
  let ?acc = "push_bit 8 acc OR ucast byte :: 32 word"
  have b: "unat (ucast byte :: 32 word) = unat byte" "unat byte < 2 ^ 8"
    using unat_bound [of byte] by (simp_all add: unsigned_ucast_eq take_bit_nat_eq_self)
  have acc: "unat ?acc = unat acc * 2 ^ 8 + unat byte"
    using unat_shift_or [of acc bits "ucast byte" 8] assms b by simp
  have n: "nbits (bits + 8) (unat ?acc) = nbits bits (unat acc) @ byte_bits byte"
    using nbits_append [OF b(2), of bits "unat acc"] by (simp only: acc byte_bits_def)
  have "unat ?acc < 2 ^ (bits + 8)"
    using assms(1) b(2) by (simp add: acc power_add)
  from b32_emit_spec [OF this] assms(2) show ?thesis by (simp add: b32_push_def n)
qed

lemma b32_fold_spec:
  "unat acc < 2 ^ bits \<Longrightarrow> bits < 5 \<Longrightarrow>
    \<exists>acc' bits'. fold b32_push bytes (acc, bits, out) =
      (acc', bits', out @ map base32_symbol (chop 5 (nbits bits (unat acc) @ concat (map byte_bits bytes))))
    \<and> nbits bits' (unat acc') = chop_rest 5 (nbits bits (unat acc) @ concat (map byte_bits bytes)) \<and> bits' < 5 \<and> unat acc' < 2 ^ bits'"
proof (induction bytes arbitrary: acc bits out)
  case Nil
  then show ?case by (simp add: chop_short)
next
  case (Cons byte bytes)
  obtain acc' bits' where s: "b32_push byte (acc, bits, out) =
      (acc', bits', out @ map base32_symbol (chop 5 (nbits bits (unat acc) @ byte_bits byte)))"
    "nbits bits' (unat acc') = chop_rest 5 (nbits bits (unat acc) @ byte_bits byte)" "bits' < 5" "unat acc' < 2 ^ bits'"
    using b32_push_spec [OF Cons.prems] by blast
  from Cons.IH [OF s(4,3), of "out @ map base32_symbol (chop 5 (nbits bits (unat acc) @ byte_bits byte))"] s(1,2)
    chop_append [of 5 "nbits bits (unat acc) @ byte_bits byte" "concat (map byte_bits bytes)"]
  show ?case by simp
qed

lemma nbits_zero: "nbits k 0 = replicate k False"
  by (induction k) (simp_all add: replicate_append_same)

lemma encode_reference: "bytes \<noteq> [] \<Longrightarrow> encodeBase32 bytes = Inr (base32_reference bytes)"
proof -
  assume ne: "bytes \<noteq> []"
  let ?L = "concat (map byte_bits bytes)"
  let ?pad = "replicate ((5 - length ?L mod 5) mod 5) False"
  obtain acc bits where f: "fold b32_push bytes (0, 0, []) = (acc, bits, map base32_symbol (chop 5 ?L))"
    and rest: "nbits bits (unat acc) = chop_rest 5 ?L" and bits: "bits < 5" and acc: "unat acc < 2 ^ bits"
    using b32_fold_spec [of 0 0 bytes "[]"] by auto
  have len: "bits = length ?L mod 5" using arg_cong [OF rest, of length] by (simp add: chop_rest_length)
  have ref: "base32_reference bytes = map base32_symbol (chop 5 ?L) @ map base32_symbol (chop 5 (nbits bits (unat acc) @ ?pad))"
    using chop_append [of 5 ?L ?pad] by (simp add: base32_reference_def Let_def rest)
  show ?thesis
  proof (cases "bits = 0")
    case True
    then show ?thesis using ne f ref len by (simp add: encodeBase32_def chop_short)
  next
    case False
    let ?n = "5 - bits"
    have pad: "?pad = nbits ?n 0" using False bits by (simp add: len [symmetric] nbits_zero)
    have g: "nbits bits (unat acc) @ ?pad = nbits 5 (unat acc * 2 ^ ?n)"
      using nbits_append [of 0 ?n bits "unat acc"] bits by (simp add: pad)
    have shift: "unat (push_bit ?n acc) = unat acc * 2 ^ ?n"
      using unat_shift_or [OF acc, of 0 ?n] bits by simp
    have "BASE32_ALPHABET ! unat (push_bit ?n acc AND 31) = base32_symbol (nbits 5 (unat acc * 2 ^ ?n))"
      using unat_field [of 0 "push_bit ?n acc" 5] unfolding fields base32_symbol_def of_bits_nbits shift by simp
    moreover have "chop 5 (nbits 5 (unat acc * 2 ^ ?n)) = [nbits 5 (unat acc * 2 ^ ?n)]"
      using chop_group [of 5 "nbits 5 (unat acc * 2 ^ ?n)" "[]"] by (simp add: chop_short)
    ultimately show ?thesis
      using ne f ref False unfolding g by (simp add: encodeBase32_def)
  qed
qed

section \<open>Decoding\<close>

definition symbol_bits :: "char \<Rightarrow> bool list" where
  "symbol_bits c = nbits 5 (alphabet_index c)"

definition bits_byte :: "bool list \<Rightarrow> 8 word" where
  "bits_byte g = of_nat (of_bits g)"

lemma alphabet_index_less: "c \<in> set BASE32_ALPHABET \<Longrightarrow> alphabet_index c < 32"
proof -
  have "list_all (\<lambda>c. alphabet_index c < 32) BASE32_ALPHABET" by code_simp
  then show "c \<in> set BASE32_ALPHABET \<Longrightarrow> alphabet_index c < 32" by (simp add: list_all_iff)
qed

lemma alphabet_index_nth: "i < 32 \<Longrightarrow> alphabet_index (BASE32_ALPHABET ! i) = i"
proof -
  have "list_all (\<lambda>i. alphabet_index (BASE32_ALPHABET ! i) = i) [0..<32]" by code_simp
  then show "i < 32 \<Longrightarrow> alphabet_index (BASE32_ALPHABET ! i) = i" by (simp add: list_all_iff)
qed

lemma b32_read_spec:
  assumes "unat acc < 2 ^ bits" and "bits < 8" and "c \<in> set BASE32_ALPHABET"
  shows "\<exists>acc' bits'. b32_read c (acc, bits, out) =
      (acc', bits', out @ map bits_byte (chop 8 (nbits bits (unat acc) @ symbol_bits c)))
    \<and> nbits bits' (unat acc') = chop_rest 8 (nbits bits (unat acc) @ symbol_bits c) \<and> bits' < 8 \<and> unat acc' < 2 ^ bits'"
proof -
  let ?v = "alphabet_index c"
  let ?acc = "push_bit 5 acc OR of_nat ?v :: 32 word"
  have v: "?v < 2 ^ 5" using alphabet_index_less [OF assms(3)] by simp
  have v': "unat (of_nat ?v :: 32 word) = ?v" using v by (simp add: unat_of_nat)
  have acc: "unat ?acc = unat acc * 2 ^ 5 + ?v"
    using unat_shift_or [of acc bits "of_nat ?v" 5] assms v v' by simp
  have n: "nbits bits (unat acc) @ symbol_bits c = nbits (bits + 5) (unat ?acc)"
    using nbits_append [OF v, of bits "unat acc"] by (simp only: acc symbol_bits_def)
  have small: "unat ?acc < 2 ^ (bits + 5)"
    using assms(1) v by (simp add: acc power_add)
  show ?thesis
  proof (cases "8 \<le> bits + 5")
    case False
    with small n show ?thesis by (simp add: b32_read_def chop_short)
  next
    case True
    let ?k = "bits + 5 - 8" and ?x = "unat ?acc"
    let ?rest = "?acc AND (push_bit ?k 1 - 1)" and ?out = "ucast (drop_bit ?k ?acc AND 0xFF) :: 8 word"
    have rest: "unat ?rest = ?x mod 2 ^ ?k" by (rule unat_mask)
    have split: "nbits (bits + 5) ?x = nbits 8 (?x div 2 ^ ?k) @ nbits ?k (?x mod 2 ^ ?k)"
      using nbits_split [of 8 ?k ?x] True by (simp add: add.commute)
    have "unat ?out = of_bits (nbits 8 (?x div 2 ^ ?k))"
      unfolding fields of_bits_nbits by (simp only: unsigned_ucast_eq unat_field) (simp add: take_bit_nat_eq_self)
    then have out: "?out = bits_byte (nbits 8 (?x div 2 ^ ?k))"
      unfolding bits_byte_def by (metis of_nat_unat ucast_id)
    have "b32_read c (acc, bits, out) = (?rest, ?k, out @ [?out])"
      using True by (simp add: b32_read_def Let_def)
    moreover have "chop 8 (nbits (bits + 5) ?x) = [nbits 8 (?x div 2 ^ ?k)]"
      "chop_rest 8 (nbits (bits + 5) ?x) = nbits ?k (unat ?rest)"
      unfolding split rest using assms(2) by (simp_all add: chop_group chop_short)
    moreover have "?k < 8" "unat ?rest < 2 ^ ?k" unfolding rest using assms(2) by simp_all
    ultimately show ?thesis unfolding n using out by (intro exI conjI) simp_all
  qed
qed

lemma b32_read_fold:
  "unat acc < 2 ^ bits \<Longrightarrow> bits < 8 \<Longrightarrow> set s \<subseteq> set BASE32_ALPHABET \<Longrightarrow>
    \<exists>acc' bits'. fold b32_read s (acc, bits, out) =
      (acc', bits', out @ map bits_byte (chop 8 (nbits bits (unat acc) @ concat (map symbol_bits s))))
    \<and> nbits bits' (unat acc') = chop_rest 8 (nbits bits (unat acc) @ concat (map symbol_bits s)) \<and> bits' < 8 \<and> unat acc' < 2 ^ bits'"
proof (induction s arbitrary: acc bits out)
  case Nil
  then show ?case by (simp add: chop_short)
next
  case (Cons c s)
  obtain acc' bits' where s: "b32_read c (acc, bits, out) =
      (acc', bits', out @ map bits_byte (chop 8 (nbits bits (unat acc) @ symbol_bits c)))"
    "nbits bits' (unat acc') = chop_rest 8 (nbits bits (unat acc) @ symbol_bits c)" "bits' < 8" "unat acc' < 2 ^ bits'"
    using b32_read_spec [OF Cons.prems(1,2), of c out] Cons.prems(3) by auto
  from Cons.IH [OF s(4,3), of "out @ map bits_byte (chop 8 (nbits bits (unat acc) @ symbol_bits c))"] s(1,2) Cons.prems(3)
    chop_append [of 8 "nbits bits (unat acc) @ symbol_bits c" "concat (map symbol_bits s)"]
  show ?case by simp
qed

lemma dropWhile_none: "\<forall>c\<in>set s. \<not> P c \<Longrightarrow> dropWhile P s = s"
  by (cases s) auto

lemma chop_exact:
  assumes "0 < n" and "length xs mod n = 0"
  shows "concat (chop n xs) = xs" and "\<forall>g\<in>set (chop n xs). length g = n"
  using chop_whole [OF assms(1), of xs] chop_rest_length [OF assms(1), of xs] assms(2) by auto

lemma pad_five: "(n + (5 - n mod 5) mod 5) mod 5 = (0::nat)"
proof -
  have "n mod 5 \<in> {0, 1, 2, 3, 4}" by auto
  moreover have "(n + (5 - n mod 5) mod 5) mod 5 = (n mod 5 + (5 - n mod 5) mod 5) mod 5"
    by (simp add: mod_add_left_eq)
  ultimately show ?thesis by auto
qed

lemma normalize_symbols:
  assumes "s \<noteq> []" and "set s \<subseteq> set BASE32_ALPHABET"
  shows "normalizeBase32Secret s = Inr s"
proof -
  have sym: "\<not> js_space c \<and> c \<noteq> CHR ''-'' \<and> c \<noteq> CHR ''='' \<and> upper_char c = [c]" if "c \<in> set s" for c
  proof -
    have "list_all (\<lambda>c. \<not> js_space c \<and> c \<noteq> CHR ''-'' \<and> c \<noteq> CHR ''='' \<and> upper_char c = [c]) BASE32_ALPHABET" by code_simp
    with that assms(2) show ?thesis by (auto simp: list_all_iff)
  qed
  have "js_trim s = s" using sym by (simp add: js_trim_def dropWhile_none)
  moreover have "filter (\<lambda>c. \<not> (js_space c \<or> c = CHR ''-'')) s = s" using sym by (simp add: filter_id_conv)
  moreover have "strip_padding s = s" using sym by (simp add: strip_padding_def dropWhile_none)
  moreover have "concat (map upper_char s) = s" using sym by (induction s) auto
  ultimately show ?thesis
    using assms by (simp add: normalizeBase32Secret_def list_all_iff subset_iff)
qed

lemma symbol_bits_symbol: "length g = 5 \<Longrightarrow> symbol_bits (base32_symbol g) = g \<and> base32_symbol g \<in> set BASE32_ALPHABET"
proof -
  assume g: "length g = 5"
  then have "of_bits g < 32" using of_bits_less [of g] by simp
  moreover have "length BASE32_ALPHABET = 32" by (simp add: BASE32_ALPHABET_def)
  ultimately show ?thesis
    using alphabet_index_nth [of "of_bits g"] nbits_of_bits [OF g]
    by (simp add: symbol_bits_def base32_symbol_def)
qed

lemma bits_byte_bits: "bits_byte (byte_bits b) = b"
  using unat_bound [of b] by (simp add: bits_byte_def byte_bits_def of_bits_nbits)

lemma decode_reference:
  assumes "16 \<le> length bytes" and "length bytes \<le> 64"
  shows "decodeBase32 (base32_reference bytes) = Inr bytes"
proof -
  define L where "L = concat (map byte_bits bytes)"
  define k where "k = (5 - length L mod 5) mod 5"
  define gs where "gs = chop 5 (L @ replicate k False)"
  define s where "s = base32_reference bytes"
  have s: "s = map base32_symbol gs" by (simp add: s_def gs_def k_def L_def base32_reference_def Let_def)
  have "length (L @ replicate k False) mod 5 = 0"
    unfolding length_append length_replicate k_def by (rule pad_five)
  then have whole: "concat gs = L @ replicate k False" and five: "\<forall>g\<in>set gs. length g = 5"
    unfolding gs_def by (rule chop_exact [OF zero_less_numeral])+
  have "map symbol_bits s = gs"
    unfolding s map_map by (rule map_idI) (use five symbol_bits_symbol in simp)
  then have bits: "concat (map symbol_bits s) = L @ replicate k False"
    by (simp only: whole)
  have sub: "set s \<subseteq> set BASE32_ALPHABET" using five symbol_bits_symbol by (auto simp: s)
  have "k < 8" unfolding k_def by (rule less_trans [OF mod_less_divisor]) simp_all
  then have chop8: "chop 8 (L @ replicate k False) = map byte_bits bytes" "chop_rest 8 (L @ replicate k False) = replicate k False"
    using chop_concat [of 8 "map byte_bits bytes" "replicate k False"] by (simp_all add: L_def byte_bits_def)
  have "L \<noteq> []" using assms(1) by (cases bytes) (simp_all add: L_def byte_bits_def numeral_eq_Suc)
  then have ne: "s \<noteq> []" using bits by (cases s) auto
  obtain acc n where f: "fold b32_read s (0, 0, []) = (acc, n, map bits_byte (map byte_bits bytes))"
    and rest: "nbits n (unat acc) = replicate k False" and small: "unat acc < 2 ^ n"
    using b32_read_fold [of 0 0 s "[]"] sub by (auto simp: bits chop8)
  have "unat acc = of_bits (replicate k False)" using small by (simp add: rest [symmetric] of_bits_nbits)
  also have "\<dots> = 0" using of_bits_nbits [of k 0] by (simp add: nbits_zero)
  finally have "acc = 0" by (simp add: unat_eq_0)
  moreover have "map bits_byte (map byte_bits bytes) = bytes" by (simp add: comp_def bits_byte_bits)
  ultimately have "decodeBase32 s = Inr bytes"
    using assms normalize_symbols [OF ne sub] f by (simp add: decodeBase32_def)
  then show ?thesis by (simp add: s_def)
qed

text \<open>
  C35: the Base32 coder is correct. For secrets of 16 to 64 bytes, \<open>encodeBase32\<close>, which shifts bytes
  through a 32-bit accumulator, yields the reference encoding of the bit string in groups of five, and
  \<open>decodeBase32\<close> of the result is the secret again.
\<close>

theorem base32_roundtrip:
  assumes "16 \<le> length bytes" and "length bytes \<le> 64"
  shows "encodeBase32 bytes = Inr (base32_reference bytes) \<and> rbind (encodeBase32 bytes) decodeBase32 = Inr bytes"
proof -
  have "bytes \<noteq> []" using assms(1) by auto
  with encode_reference [of bytes] decode_reference [OF assms] show ?thesis by simp
qed

theorem base32_roundtrip_witness:
  "encodeBase32 (replicate 16 0xA5) = Inr (base32_reference (replicate 16 0xA5)) \<and>
   rbind (encodeBase32 (replicate 16 0xA5)) decodeBase32 = Inr (replicate 16 0xA5)"
  by (rule base32_roundtrip) simp_all

section \<open>Codes\<close>

lemma unat_or_disjoint:
  assumes "unat x = a * 2 ^ n" and "unat y < 2 ^ n"
  shows "unat (x OR y :: 32 word) = unat x + unat y"
  using nat_shift_or [OF assms(2), of a] assms(1) by (simp add: unsigned_or_eq push_bit_eq_mult)

lemma unat_shift: "unat w < 2 ^ k \<Longrightarrow> k + n \<le> 32 \<Longrightarrow> unat (push_bit n w :: 32 word) = unat w * 2 ^ n"
  using unat_shift_or [of w k 0 n] by simp

text \<open>RFC 4226: four bytes at the offset the last byte gives, without the sign bit.\<close>

definition dynamic_truncation :: "nat list \<Rightarrow> nat" where
  "dynamic_truncation digest = (let i = last digest mod 16 in
     (digest ! i * 2 ^ 24 + digest ! (i + 1) * 2 ^ 16 + digest ! (i + 2) * 2 ^ 8 + digest ! (i + 3)) mod 2 ^ 31)"

lemma mod_shifted: "r < 2 ^ 24 \<Longrightarrow> (b * 2 ^ 24 + r) mod 2 ^ 31 = b mod 2 ^ 7 * 2 ^ 24 + (r :: nat)"
  using mod_mult2_eq [of "b * 2 ^ 24 + r" "2 ^ 24" "2 ^ 7"] by simp

lemma truncate_digest_value:
  assumes "19 \<le> length digest"
  shows "unat (truncate_digest digest) = dynamic_truncation (map unat digest)"
proof -
  let ?d = "\<lambda>i. digest_at digest i"
  have byte: "i < length digest \<Longrightarrow> unat (?d i) = unat (digest ! i)" "unat (?d i) < 2 ^ 8" for i
    using unat_bound [of "digest ! i"] by (auto simp: digest_at_def unsigned_ucast_eq take_bit_nat_eq_self)
  have nonempty: "digest \<noteq> []" using assms by auto
  define i where "i = unat (?d (length digest - 1) AND 0x0F)"
  have i: "i = unat (last digest) mod 16"
    using assms nonempty byte(1) [of "length digest - 1"] unat_field [of 0 "?d (length digest - 1)" 4]
    by (simp add: i_def last_conv_nth mask_eq_exp_minus_1)
  have top: "unat (?d i AND 0x7F) = unat (?d i) mod 2 ^ 7"
    using unat_field [of 0 "?d i" 7] by (simp add: mask_eq_exp_minus_1)
  have s24: "unat (push_bit 24 (?d i AND 0x7F)) = (unat (?d i) mod 2 ^ 7) * 2 ^ 24"
    using unat_shift [of "?d i AND 0x7F" 7 24] by (simp add: top)
  have s16: "unat (push_bit 16 (?d (i + 1))) = unat (?d (i + 1)) * 2 ^ 16"
    using unat_shift [OF byte(2), of 16 "i + 1"] by simp
  have s8: "unat (push_bit 8 (?d (i + 2))) = unat (?d (i + 2)) * 2 ^ 8"
    using unat_shift [OF byte(2), of 8 "i + 2"] by simp
  have o1: "unat (push_bit 8 (?d (i + 2)) OR ?d (i + 3)) = unat (?d (i + 2)) * 2 ^ 8 + unat (?d (i + 3))"
    using unat_or_disjoint [OF s8 byte(2), of "i + 3"] s8 by simp
  have "unat (push_bit 8 (?d (i + 2)) OR ?d (i + 3)) < 2 ^ 16"
    unfolding o1 using byte(2) [of "i + 2"] byte(2) [of "i + 3"] by simp
  from unat_or_disjoint [OF s16 this]
  have o2: "unat (push_bit 16 (?d (i + 1)) OR push_bit 8 (?d (i + 2)) OR ?d (i + 3)) =
      unat (?d (i + 1)) * 2 ^ 16 + (unat (?d (i + 2)) * 2 ^ 8 + unat (?d (i + 3)))"
    by (simp only: s16 o1)
  have low: "unat (push_bit 16 (?d (i + 1)) OR push_bit 8 (?d (i + 2)) OR ?d (i + 3)) < 2 ^ 24"
    unfolding o2 using byte(2) [of "i + 1"] byte(2) [of "i + 2"] byte(2) [of "i + 3"] by simp
  have val: "unat (truncate_digest digest) =
      (unat (?d i) mod 2 ^ 7) * 2 ^ 24 + (unat (?d (i + 1)) * 2 ^ 16 + (unat (?d (i + 2)) * 2 ^ 8 + unat (?d (i + 3))))"
    using unat_or_disjoint [OF s24 low] unfolding s24 o2
    by (simp only: truncate_digest_def Let_def i_def [symmetric])
  have small: "unat (?d (i + 1)) * 2 ^ 16 + (unat (?d (i + 2)) * 2 ^ 8 + unat (?d (i + 3))) < 2 ^ 24"
    using low unfolding o2 .
  have "i + 3 < length digest" using assms i by (simp add: le_less_trans [of _ 18] less_Suc_eq_le)
  then have at: "unat (?d i) = unat (digest ! i)" "unat (?d (i + 1)) = unat (digest ! (i + 1))"
    "unat (?d (i + 2)) = unat (digest ! (i + 2))" "unat (?d (i + 3)) = unat (digest ! (i + 3))"
    using byte(1) by simp_all
  have "dynamic_truncation (map unat digest) =
      (unat (digest ! i) * 2 ^ 24 + (unat (digest ! (i + 1)) * 2 ^ 16 + (unat (digest ! (i + 2)) * 2 ^ 8 + unat (digest ! (i + 3))))) mod 2 ^ 31"
    using \<open>i + 3 < length digest\<close> nonempty by (simp add: dynamic_truncation_def Let_def last_map i add.assoc)
  with val mod_shifted [OF small, of "unat (digest ! i)"] show ?thesis by (simp only: at)
qed

lemma show_nat_length: "n < 10 ^ d \<Longrightarrow> 0 < d \<Longrightarrow> length (show_nat n) \<le> d"
proof (induction n arbitrary: d rule: show_nat.induct)
  case (1 n)
  show ?case
  proof (cases "n < 10")
    case False
    with 1 have "d \<noteq> 1" by auto
    with 1 obtain e where d: "d = Suc e" "0 < e" by (cases d) auto
    with 1 False have "length (show_nat (n div 10)) \<le> e" by (simp add: less_mult_imp_div_less mult.commute)
    with d False show ?thesis by (simp add: show_nat.simps [of n])
  qed (use 1 in \<open>simp add: show_nat.simps [of n]\<close>)
qed

lemma read_nat_zeros: "read_nat (replicate k (CHR ''0'') @ s) = read_nat s"
  by (induction k) (simp_all add: read_nat_def)

text \<open>
  C34: one-time codes are the codes of RFC 4226. For a secret of 16 to 64 bytes, a counter and six to
  eight digits, and an HMAC of at least 19 bytes, \<open>generateTotpForCounter\<close> returns exactly that many
  decimal digits, and their value is the dynamic truncation of the HMAC modulo the power of ten; no bit
  is lost in the 32-bit arithmetic.
\<close>

theorem totp_code:
  assumes "16 \<le> length secret" and "length secret \<le> 64" and "isSafeInteger counter" and "0 \<le> counter"
    and "digits \<in> {6, 7, 8}" and "\<And>k m. 19 \<le> length (hmac k m)"
  shows "\<exists>code. generateTotpForCounter hmac secret counter digits = Inr code \<and> length code = nat digits
    \<and> (\<forall>c\<in>set code. is_digit c)
    \<and> read_nat code = dynamic_truncation (map unat (hmac secret (counter_bytes (nat counter)))) mod 10 ^ nat digits"
proof -
  let ?n = "unat (truncate_digest (hmac secret (counter_bytes (nat counter)))) mod 10 ^ nat digits"
  have n: "length (show_nat ?n) \<le> nat digits"
    using assms(5) by (intro show_nat_length) auto
  have "isSafeInteger digits" using assms(5) by (auto simp: isSafeInteger_def max_safe_integer_def)
  moreover have "\<not> (digits < 6 \<or> 8 < digits)" using assms(5) by auto
  ultimately have "generateTotpForCounter hmac secret counter digits = Inr (padStart (nat digits) (CHR ''0'') (show_nat ?n))"
    using assms(1-4) by (simp add: generateTotpForCounter_def)
  moreover have "is_digit (CHR ''0'')" by (simp add: is_digit_def)
  ultimately show ?thesis
    using n show_nat_digits [of ?n] truncate_digest_value [OF assms(6)]
    by (auto simp: padStart_def read_nat_zeros read_show_nat)
qed

theorem totp_code_witness:
  "\<exists>code. generateTotpForCounter (\<lambda>k m. replicate 20 (last m)) (replicate 16 3) 5 6 = Inr code \<and> length code = nat 6
    \<and> list_all is_digit code"
  using totp_code [of "replicate 16 3" 5 6 "\<lambda>k m. replicate 20 (last m)"]
  by (auto simp: isSafeInteger_def max_safe_integer_def list_all_iff)

end
