(* ===== verification/Privilege_Helper.thy ===== *)
theory Privilege_Helper
  imports Totp
begin

text \<open>
  Model of the privilege helper (\<open>src/privilege/helperServer.ts\<close>, \<open>src/privilege/protocol.ts\<close>): a root
  process that executes a command for the gateway when the request carries the helper's token and a
  fresh one-time code. Requests are served concurrently: the asynchronous handler of a request is the
  sequence of its atomic parts (receive and validate, claim the request, verify the code, spawn, report
  the exit), and the parts of different requests interleave freely; the verifier's promise chain makes
  the verifications atomic. A restart ends all handlers and prunes old claims.

  The operating system (paths, file metadata, processes), SHA-256 and HMAC are parameters. Every action
  carries the time at which it happens; a claim file is stamped with it. Creating a claim file can fail
  before or after the file exists (\<open>file_outcome\<close>).
\<close>

section \<open>Protocol\<close>

definition PRIVILEGE_HELPER_PROTOCOL_VERSION :: int where
  "PRIVILEGE_HELPER_PROTOCOL_VERSION = 2"

definition PRIVILEGE_REQUEST_LIFETIME_MS :: int where
  "PRIVILEGE_REQUEST_LIFETIME_MS = 30000"

definition MAX_PRIVILEGED_OUTPUT_BYTES :: nat where
  "MAX_PRIVILEGED_OUTPUT_BYTES = 512 * 1024"

definition helperOpaqueId :: zschema where
  "helperOpaqueId = ZString [Str_min 1, Str_max 256]"

definition starts_with_slash :: "json \<Rightarrow> bool" where
  "starts_with_slash v = (case v of JStr (c # _) \<Rightarrow> c = CHR ''/'' | _ \<Rightarrow> False)"

definition absolutePath :: zschema where
  "absolutePath = ZRefine (ZString [Str_min 1, Str_max 8192]) starts_with_slash"

definition privilegedExecutionInput :: "(string \<times> zschema) list" where
  "privilegedExecutionInput =
     [(''executable'', absolutePath),
      (''args'', ZDefault (ZArray (ZString [Str_max 8192]) [Arr_max 256]) (JArr [])),
      (''reason'', ZString [Str_min 1, Str_max 2048]),
      (''timeoutMs'', ZDefault (ZNumber [Num_int, Num_min 1000, Num_max (15 * 60000)]) (JNum (5 * 60000)))]"

definition totpCode :: "string \<Rightarrow> bool" where
  "totpCode s \<longleftrightarrow> length s = 6 \<and> list_all is_digit s"

definition text_field :: "json \<Rightarrow> string \<Rightarrow> string" where
  "text_field e k = (case jprop e k of JStr s \<Rightarrow> s | _ \<Rightarrow> [])"

definition int_field :: "json \<Rightarrow> string \<Rightarrow> int" where
  "int_field e k = (case jprop e k of JNum n \<Rightarrow> n | _ \<Rightarrow> 0)"

definition lifetime_ok :: "json \<Rightarrow> bool" where
  "lifetime_ok e \<longleftrightarrow> int_field e ''requestedAt'' < int_field e ''expiresAt''
     \<and> int_field e ''expiresAt'' - int_field e ''requestedAt'' \<le> PRIVILEGE_REQUEST_LIFETIME_MS"

definition privilegedExecutionRequestSchema :: zschema where
  "privilegedExecutionRequestSchema = ZRefine (ZStrict (privilegedExecutionInput @
     [(''version'', ZLiteral (JNum PRIVILEGE_HELPER_PROTOCOL_VERSION)),
      (''totp'', ZString [Str_regex totpCode]),
      (''requestId'', helperOpaqueId),
      (''sessionId'', helperOpaqueId),
      (''cwd'', absolutePath),
      (''requestedAt'', ZNumber [Num_int, Num_nonnegative]),
      (''expiresAt'', ZNumber [Num_int, Num_positive])])) lifetime_ok"

definition privilegedExecutionResultSchema :: zschema where
  "privilegedExecutionResultSchema = ZStrict
     [(''requestId'', helperOpaqueId),
      (''status'', ZEnum [''succeeded'', ''failed'', ''timed_out'']),
      (''exitCode'', ZNullable (ZNumber [Num_int])),
      (''signal'', ZNullable (ZString [Str_max 128])),
      (''stdout'', ZString [Str_max MAX_PRIVILEGED_OUTPUT_BYTES]),
      (''stderr'', ZString [Str_max MAX_PRIVILEGED_OUTPUT_BYTES]),
      (''truncated'', ZBoolean),
      (''startedAt'', ZNumber [Num_int, Num_nonnegative]),
      (''completedAt'', ZNumber [Num_int, Num_nonnegative])]"

text \<open>The fields of \<open>PrivilegeHelperConfig\<close> the server works with.\<close>

record helper_config =
  hc_tokenSha256 :: string
  hc_secret :: string
  hc_periodSeconds :: int
  hc_allowedClockSkewSteps :: nat
  hc_allowArbitraryRootExecutables :: bool
  hc_allowedExecutables :: "string list"

text \<open>\<open>privilegeHelperConfigSchema\<close> on these fields.\<close>

definition hex_digit :: "char \<Rightarrow> bool" where
  "hex_digit c \<longleftrightarrow> is_digit c \<or> CHR ''a'' \<le> c \<and> c \<le> CHR ''f'' \<or> CHR ''A'' \<le> c \<and> c \<le> CHR ''F''"

definition helper_config_ok :: "helper_config \<Rightarrow> bool" where
  "helper_config_ok cfg \<longleftrightarrow>
     length (hc_tokenSha256 cfg) = 64 \<and> list_all hex_digit (hc_tokenSha256 cfg)
     \<and> length (hc_secret cfg) = 32 \<and> list_all (\<lambda>c. c \<in> set BASE32_ALPHABET) (hc_secret cfg)
     \<and> hc_periodSeconds cfg = 30 \<and> hc_allowedClockSkewSteps cfg \<le> 1
     \<and> length (hc_allowedExecutables cfg) \<le> 256
     \<and> list_all (\<lambda>p. starts_with_slash (JStr p) \<and> length p \<le> 8192) (hc_allowedExecutables cfg)"

section \<open>The operating system\<close>

record file_metadata =
  md_isFile :: bool
  md_isDirectory :: bool
  md_uid :: int
  md_groupOrWorldWritable :: bool \<comment> \<open>\<open>(mode & 0o022) !== 0\<close>\<close>

datatype file_outcome = File_written | Open_failed | Write_failed

datatype output_chunk = Stdout "8 word list" | Stderr "8 word list"

text \<open>
  A run of the child: the chunks its pipes delivered before the \<open>exit\<close> event and, since the pipes may still
  hold data then, those they delivered after it, and how it ended.
\<close>

record child_run =
  cr_beforeExit :: "output_chunk list"
  cr_afterExit :: "output_chunk list"
  cr_exitCode :: "int option"
  cr_signal :: "string option"
  cr_timedOut :: bool

record spawn_outcome =
  so_exitCode :: "int option"
  so_signal :: "string option"
  so_stdout :: string
  so_stderr :: string
  so_truncated :: bool
  so_timedOut :: bool

record helper_env =
  he_format :: "string \<Rightarrow> string \<Rightarrow> bool"
  he_sha256 :: "string \<Rightarrow> string" \<comment> \<open>lower-case hexadecimal digest\<close>
  he_hmac :: "8 word list \<Rightarrow> 8 word list \<Rightarrow> 8 word list"
  he_realpath :: "string \<Rightarrow> string option"
  he_stat :: "string \<Rightarrow> file_metadata option"
  he_executable :: "string \<Rightarrow> bool" \<comment> \<open>\<open>access(path, X_OK)\<close>\<close>
  he_utf8 :: "8 word list \<Rightarrow> string" \<comment> \<open>\<open>Buffer.toString('utf8')\<close>\<close>
  he_child :: "string \<Rightarrow> string list \<Rightarrow> string \<Rightarrow> int \<Rightarrow> child_run option"

section \<open>State\<close>

text \<open>\<open>HelperHttpError\<close>: the status and the code of the response.\<close>

datatype helper_error = Helper_error int string

datatype helper_response = Helper_status | Helper_result json | Helper_failed helper_error

text \<open>How far the handler of a request has come.\<close>

datatype helper_task =
    Received json string string \<comment> \<open>the request, the executable and the working directory\<close>
  | Claimed json string string
  | Approved json string string int \<comment> \<open>with the counter of its code\<close>
  | Running json string string int \<comment> \<open>with the time it started\<close>
  | Answered helper_response

record helper_world =
  hw_requests :: "(string, int) jsmap" \<comment> \<open>claim files of requests, with their time\<close>
  hw_steps :: "(int, int) jsmap" \<comment> \<open>claim files of one-time codes\<close>
  hw_failures :: "int list"
  hw_tasks :: "helper_task list"
  hw_spawned :: "(json \<times> string \<times> int) list" \<comment> \<open>the executions: request, executable, counter\<close>

record http_request =
  hr_method :: string
  hr_url :: string
  hr_authorization :: "string option"
  hr_size :: nat
  hr_json :: "json option" \<comment> \<open>the parsed body\<close>

section \<open>Receiving a request\<close>

definition MAX_BODY_BYTES :: nat where
  "MAX_BODY_BYTES = 64 * 1024"

definition MAX_REQUEST_CLOCK_SKEW_MS :: int where
  "MAX_REQUEST_CLOCK_SKEW_MS = 5000"

definition execution_failed :: helper_error where
  "execution_failed = Helper_error 500 ''execution_failed''"

definition hex_lower :: "char \<Rightarrow> char" where
  "hex_lower c = (if CHR ''A'' \<le> c \<and> c \<le> CHR ''F'' then char_of (of_char c + 32 :: nat) else c)"

definition bearer_token :: "string option \<Rightarrow> string" where
  "bearer_token header = (case header of
      None \<Rightarrow> []
    | Some h \<Rightarrow> if take 7 h = ''Bearer '' then drop 7 h else [])"

definition helper_authorize :: "helper_env \<Rightarrow> string \<Rightarrow> http_request \<Rightarrow> (helper_error, unit) result" where
  "helper_authorize env tokenSha256 req =
     (if he_sha256 env (bearer_token (hr_authorization req)) \<noteq> map hex_lower tokenSha256
      then Inl (Helper_error 401 ''unauthorized'') else Inr ())"

definition readJsonBody :: "http_request \<Rightarrow> (helper_error, json) result" where
  "readJsonBody req =
     (if MAX_BODY_BYTES < hr_size req then Inl (Helper_error 413 ''body_too_large'')
      else (case hr_json req of None \<Rightarrow> Inl (Helper_error 400 ''invalid_json'') | Some v \<Rightarrow> Inr v))"

definition validateExecutable :: "helper_env \<Rightarrow> helper_config \<Rightarrow> string \<Rightarrow> (helper_error, string) result" where
  "validateExecutable env cfg requestedPath =
     (case he_realpath env requestedPath of
        None \<Rightarrow> Inl (Helper_error 400 ''executable_not_found'')
      | Some executable \<Rightarrow>
          (let policyPaths = map (\<lambda>p. case he_realpath env p of None \<Rightarrow> p | Some q \<Rightarrow> q) (hc_allowedExecutables cfg) in
           if \<not> hc_allowArbitraryRootExecutables cfg \<and> executable \<notin> set policyPaths
           then Inl (Helper_error 403 ''executable_not_allowed'')
           else (case he_stat env executable of
               None \<Rightarrow> Inl execution_failed
             | Some md \<Rightarrow>
                 if \<not> md_isFile md \<or> md_uid md \<noteq> 0 \<or> md_groupOrWorldWritable md
                 then Inl (Helper_error 403 ''unsafe_executable'')
                 else if \<not> he_executable env executable then Inl execution_failed
                 else Inr executable)))"

definition validate_cwd :: "helper_env \<Rightarrow> string \<Rightarrow> (helper_error, string) result" where
  "validate_cwd env requested =
     (case he_realpath env requested of
        None \<Rightarrow> Inl execution_failed
      | Some cwd \<Rightarrow> (case he_stat env cwd of
          None \<Rightarrow> Inl execution_failed
        | Some md \<Rightarrow> if md_isDirectory md then Inr cwd else Inl (Helper_error 400 ''invalid_cwd'')))"

text \<open>The request handler up to the first claim.\<close>

definition handle_execute ::
  "helper_env \<Rightarrow> helper_config \<Rightarrow> int \<Rightarrow> http_request \<Rightarrow> (helper_error, json \<times> string \<times> string) result" where
  "handle_execute env cfg currentTime req =
     rbind (helper_authorize env (hc_tokenSha256 cfg) req) (\<lambda>_.
     rbind (readJsonBody req) (\<lambda>body.
     (case zod_parse (he_format env) privilegedExecutionRequestSchema body of
        None \<Rightarrow> Inl (Helper_error 400 ''invalid_request'')
      | Some execution \<Rightarrow>
          if int_field execution ''expiresAt'' \<le> currentTime then Inl (Helper_error 409 ''request_expired'')
          else if int_field execution ''requestedAt'' > currentTime + MAX_REQUEST_CLOCK_SKEW_MS
            then Inl (Helper_error 409 ''request_not_yet_valid'')
          else rbind (validateExecutable env cfg (text_field execution ''executable'')) (\<lambda>executable.
               rbind (validate_cwd env (text_field execution ''cwd'')) (\<lambda>cwd. Inr (execution, executable, cwd))))))"

definition handle_request :: "helper_env \<Rightarrow> helper_config \<Rightarrow> int \<Rightarrow> http_request \<Rightarrow> helper_task" where
  "handle_request env cfg currentTime req =
     (if hr_method req = ''GET'' \<and> hr_url req = ''/v1/status'' then
        (case helper_authorize env (hc_tokenSha256 cfg) req of
           Inl e \<Rightarrow> Answered (Helper_failed e)
         | Inr _ \<Rightarrow> Answered Helper_status)
      else if hr_method req \<noteq> ''POST'' \<or> hr_url req \<noteq> ''/v1/execute'' then
        Answered (Helper_failed (Helper_error 404 ''not_found''))
      else (case handle_execute env cfg currentTime req of
          Inl e \<Rightarrow> Answered (Helper_failed e)
        | Inr (execution, executable, cwd) \<Rightarrow> Received execution executable cwd))"

section \<open>Claims and codes\<close>

definition request_key :: "helper_env \<Rightarrow> json \<Rightarrow> string" where
  "request_key env execution = he_sha256 env (text_field execution ''requestId'')"

text \<open>\<open>open(path, 'wx')\<close>, write and sync: an existing file is refused, and one that cannot be written stays.\<close>

definition create_claim ::
  "'k \<Rightarrow> int \<Rightarrow> file_outcome \<Rightarrow> helper_error \<Rightarrow> ('k, int) jsmap \<Rightarrow> (helper_error, unit) result \<times> ('k, int) jsmap" where
  "create_claim key now outcome replayed claims =
     (if outcome = Open_failed then (Inl execution_failed, claims)
      else if js_has claims key then (Inl replayed, claims)
      else (if outcome = Write_failed then Inl execution_failed else Inr (), js_set key now claims))"

definition claimRequest ::
  "helper_env \<Rightarrow> int \<Rightarrow> file_outcome \<Rightarrow> json \<Rightarrow> helper_world \<Rightarrow> (helper_error, unit) result \<times> helper_world" where
  "claimRequest env now outcome execution w =
     (case create_claim (request_key env execution) now outcome (Helper_error 409 ''request_replayed'') (hw_requests w) of
        (r, claims) \<Rightarrow> (r, w\<lparr>hw_requests := claims\<rparr>))"

definition claimTotpStep ::
  "int \<Rightarrow> int \<Rightarrow> file_outcome \<Rightarrow> helper_world \<Rightarrow> (helper_error, unit) result \<times> helper_world" where
  "claimTotpStep counter now outcome w =
     (case create_claim counter now outcome (Helper_error 409 ''totp_replayed'') (hw_steps w) of
        (r, claims) \<Rightarrow> (r, w\<lparr>hw_steps := claims\<rparr>))"

definition TOTP_FAILURE_WINDOW_MS :: int where
  "TOTP_FAILURE_WINDOW_MS = 30000"

definition MAX_TOTP_FAILURES_PER_WINDOW :: nat where
  "MAX_TOTP_FAILURES_PER_WINDOW = 5"

definition clock_offsets :: "nat \<Rightarrow> int list" where
  "clock_offsets skew = 0 # map (\<lambda>i. - (int i + 1)) [0..<skew] @ map (\<lambda>i. int i + 1) [0..<skew]"

text \<open>\<open>Promise.all\<close> of the candidate codes: one that cannot be generated rejects them all.\<close>

fun candidate_codes :: "(int \<Rightarrow> (totp_error, string) result) \<Rightarrow> int list \<Rightarrow> (helper_error, (int \<times> string) list) result" where
  "candidate_codes gen [] = Inr []"
| "candidate_codes gen (c # cs) =
     (case gen c of
        Inl _ \<Rightarrow> Inl execution_failed
      | Inr code \<Rightarrow> rbind (candidate_codes gen cs) (\<lambda>rest. Inr ((c, code) # rest)))"

definition verifySerial ::
  "helper_env \<Rightarrow> helper_config \<Rightarrow> string \<Rightarrow> int \<Rightarrow> file_outcome \<Rightarrow> helper_world
    \<Rightarrow> (helper_error, int) result \<times> helper_world" where
  "verifySerial env cfg code currentTime outcome w0 =
     (let w = w0\<lparr>hw_failures := filter (\<lambda>f. f + TOTP_FAILURE_WINDOW_MS > currentTime) (hw_failures w0)\<rparr> in
      if MAX_TOTP_FAILURES_PER_WINDOW \<le> length (hw_failures w) then (Inl (Helper_error 429 ''totp_rate_limited''), w)
      else (case totpCounter currentTime (hc_periodSeconds cfg) of
          Inl _ \<Rightarrow> (Inl execution_failed, w)
        | Inr currentCounter \<Rightarrow>
            (case candidate_codes (\<lambda>c. generateTotpForSecret (he_hmac env) (hc_secret cfg) c 6)
                    (map (\<lambda>off. currentCounter + off) (clock_offsets (hc_allowedClockSkewSteps cfg))) of
               Inl e \<Rightarrow> (Inl e, w)
             | Inr candidates \<Rightarrow>
                 (case find (\<lambda>(c, candidate). candidate = code) candidates of
                    None \<Rightarrow> (Inl (Helper_error 401 ''invalid_totp''), w\<lparr>hw_failures := hw_failures w @ [currentTime]\<rparr>)
                  | Some (counter, _) \<Rightarrow>
                      (case claimTotpStep counter currentTime outcome w of
                         (Inl e, w') \<Rightarrow> (Inl e, w')
                       | (Inr _, w') \<Rightarrow> (Inr counter, w'\<lparr>hw_failures := []\<rparr>))))))"

section \<open>Executing\<close>

text \<open>\<open>append\<close> of \<open>spawnPrivileged\<close>: the buffer, and whether something was cut off.\<close>

definition append_output :: "8 word list \<Rightarrow> 8 word list \<Rightarrow> 8 word list \<times> bool" where
  "append_output current chunk =
     (if MAX_PRIVILEGED_OUTPUT_BYTES \<le> length current then (current, True)
      else (let remaining = MAX_PRIVILEGED_OUTPUT_BYTES - length current in
        (current @ take remaining chunk, remaining < length chunk)))"

fun on_data :: "output_chunk \<Rightarrow> 8 word list \<times> 8 word list \<times> bool \<Rightarrow> 8 word list \<times> 8 word list \<times> bool" where
  "on_data (Stdout chunk) (out, err, truncated) =
     (case append_output out chunk of (out', over) \<Rightarrow> (out', err, truncated \<or> over))"
| "on_data (Stderr chunk) (out, err, truncated) =
     (case append_output err chunk of (err', over) \<Rightarrow> (out, err', truncated \<or> over))"

text \<open>
  The promise is settled by the \<open>exit\<close> event, with the buffers as they are then: what the data handlers
  append afterwards has no effect on it.
\<close>

definition spawnPrivileged ::
  "helper_env \<Rightarrow> string \<Rightarrow> string list \<Rightarrow> string \<Rightarrow> int \<Rightarrow> (helper_error, spawn_outcome) result" where
  "spawnPrivileged env executable args cwd timeoutMs =
     (case he_child env executable args cwd timeoutMs of
        None \<Rightarrow> Inl execution_failed
      | Some run \<Rightarrow> (case fold on_data (cr_beforeExit run) ([], [], False) of (out, err, truncated) \<Rightarrow>
          Inr \<lparr>so_exitCode = cr_exitCode run, so_signal = cr_signal run,
            so_stdout = he_utf8 env out, so_stderr = he_utf8 env err,
            so_truncated = truncated, so_timedOut = cr_timedOut run\<rparr>))"

definition nullable :: "('a \<Rightarrow> json) \<Rightarrow> 'a option \<Rightarrow> json" where
  "nullable f x = (case x of None \<Rightarrow> JNull | Some y \<Rightarrow> f y)"

definition execution_result :: "json \<Rightarrow> spawn_outcome \<Rightarrow> int \<Rightarrow> int \<Rightarrow> json" where
  "execution_result execution outcome startedAt completedAt = JObj
     [(''requestId'', jprop execution ''requestId''),
      (''status'', JStr (if so_timedOut outcome then ''timed_out''
         else if so_exitCode outcome = Some 0 then ''succeeded'' else ''failed'')),
      (''exitCode'', nullable JNum (so_exitCode outcome)),
      (''signal'', nullable JStr (so_signal outcome)),
      (''stdout'', JStr (so_stdout outcome)),
      (''stderr'', JStr (so_stderr outcome)),
      (''truncated'', JBool (so_truncated outcome)),
      (''startedAt'', JNum startedAt),
      (''completedAt'', JNum completedAt)]"

definition args_of :: "json \<Rightarrow> string list" where
  "args_of execution = (case jprop execution ''args'' of
      JArr xs \<Rightarrow> map (\<lambda>x. case x of JStr s \<Rightarrow> s | _ \<Rightarrow> []) xs | _ \<Rightarrow> [])"

definition run_execution :: "helper_env \<Rightarrow> json \<Rightarrow> string \<Rightarrow> string \<Rightarrow> int \<Rightarrow> int \<Rightarrow> helper_response" where
  "run_execution env execution executable cwd startedAt completedAt =
     (case spawnPrivileged env executable (args_of execution) cwd (int_field execution ''timeoutMs'') of
        Inl e \<Rightarrow> Helper_failed e
      | Inr outcome \<Rightarrow>
          (case zod_parse (he_format env) privilegedExecutionResultSchema
                  (execution_result execution outcome startedAt completedAt) of
             None \<Rightarrow> Helper_failed (Helper_error 400 ''invalid_request'')
           | Some result \<Rightarrow> Helper_result result))"

section \<open>The server\<close>

definition REPLAY_RETENTION_MS :: int where
  "REPLAY_RETENTION_MS = 24 * 60 * 60000"

definition lower_hex_digit :: "char \<Rightarrow> bool" where
  "lower_hex_digit c \<longleftrightarrow> is_digit c \<or> CHR ''a'' \<le> c \<and> c \<le> CHR ''f''"

definition pruneReplayClaims :: "int \<Rightarrow> helper_world \<Rightarrow> helper_world" where
  "pruneReplayClaims now w = w\<lparr>
     hw_requests := filter (\<lambda>(key, mtime). \<not> (length key = 64 \<and> list_all lower_hex_digit key
        \<and> mtime + REPLAY_RETENTION_MS < now)) (hw_requests w),
     hw_steps := filter (\<lambda>(counter, mtime). \<not> mtime + REPLAY_RETENTION_MS < now) (hw_steps w)\<rparr>"

datatype helper_action =
    Receive int http_request
  | Claim int nat file_outcome
  | Verify int nat file_outcome
  | Spawn int nat
  | Exit int nat
  | Restart int

fun action_time :: "helper_action \<Rightarrow> int" where
  "action_time (Receive t _) = t"
| "action_time (Claim t _ _) = t"
| "action_time (Verify t _ _) = t"
| "action_time (Spawn t _) = t"
| "action_time (Exit t _) = t"
| "action_time (Restart t) = t"

definition set_task :: "nat \<Rightarrow> helper_task \<Rightarrow> helper_world \<Rightarrow> helper_world" where
  "set_task i t w = w\<lparr>hw_tasks := (hw_tasks w)[i := t]\<rparr>"

definition task_at :: "nat \<Rightarrow> helper_world \<Rightarrow> helper_task option" where
  "task_at i w = (if i < length (hw_tasks w) then Some (hw_tasks w ! i) else None)"

fun helper_step :: "helper_env \<Rightarrow> helper_config \<Rightarrow> helper_action \<Rightarrow> helper_world \<Rightarrow> helper_world" where
  "helper_step env cfg (Receive now req) w = w\<lparr>hw_tasks := hw_tasks w @ [handle_request env cfg now req]\<rparr>"
| "helper_step env cfg (Claim now i outcome) w =
     (case task_at i w of
        Some (Received execution executable cwd) \<Rightarrow>
          (case claimRequest env now outcome execution w of
             (Inl e, w') \<Rightarrow> set_task i (Answered (Helper_failed e)) w'
           | (Inr _, w') \<Rightarrow> set_task i (Claimed execution executable cwd) w')
      | _ \<Rightarrow> w)"
| "helper_step env cfg (Verify now i outcome) w =
     (case task_at i w of
        Some (Claimed execution executable cwd) \<Rightarrow>
          (case verifySerial env cfg (text_field execution ''totp'') now outcome w of
             (Inl e, w') \<Rightarrow> set_task i (Answered (Helper_failed e)) w'
           | (Inr counter, w') \<Rightarrow> set_task i (Approved execution executable cwd counter) w')
      | _ \<Rightarrow> w)"
| "helper_step env cfg (Spawn now i) w =
     (case task_at i w of
        Some (Approved execution executable cwd counter) \<Rightarrow>
          set_task i (Running execution executable cwd now)
            (w\<lparr>hw_spawned := hw_spawned w @ [(execution, executable, counter)]\<rparr>)
      | _ \<Rightarrow> w)"
| "helper_step env cfg (Exit now i) w =
     (case task_at i w of
        Some (Running execution executable cwd startedAt) \<Rightarrow>
          set_task i (Answered (run_execution env execution executable cwd startedAt now)) w
      | _ \<Rightarrow> w)"
| "helper_step env cfg (Restart now) w = (pruneReplayClaims now w)\<lparr>hw_tasks := [], hw_failures := []\<rparr>"

definition helper_fresh :: helper_world where
  "helper_fresh = \<lparr>hw_requests = [], hw_steps = [], hw_failures = [], hw_tasks = [], hw_spawned = []\<rparr>"

definition helper_run :: "helper_env \<Rightarrow> helper_config \<Rightarrow> helper_action list \<Rightarrow> helper_world \<Rightarrow> helper_world" where
  "helper_run env cfg actions w = fold (helper_step env cfg) actions w"

end
