(* ===== verification/Privilege_Safety.thy ===== *)
theory Privilege_Safety
  imports Privilege_Helper
begin

text \<open>
  What the privilege helper promises, for every interleaving of requests, failure of a claim file and
  restart: a code and a request are good for one execution, guessing is slowed down, only authorized
  requests are executed, and an execution that ended is reported. The locale \<open>one_time_claims\<close> has the
  argument behind the first for a registry of claim files that is pruned after a day; it is interpreted for the
  requests and for the codes.
\<close>

section \<open>One-time claims\<close>

text \<open>
  A thing \<open>x\<close> is claimed at a time between \<open>origin x\<close> and \<open>origin x + window\<close>. Claims are kept longer than
  that, so no thing is claimed twice although old claims are pruned.
\<close>

locale one_time_claims =
  fixes key :: "'x \<Rightarrow> 'k"
    and origin :: "'x \<Rightarrow> int"
    and window :: int
    and prunable :: "'k \<Rightarrow> bool"
  assumes window_short: "window \<le> REPLAY_RETENTION_MS"
begin

definition apart :: "'x \<Rightarrow> 'x \<Rightarrow> bool" where
  "apart x y \<longleftrightarrow> key x \<noteq> key y \<or> REPLAY_RETENTION_MS - window < \<bar>origin x - origin y\<bar>"

definition held :: "int \<Rightarrow> ('k, int) jsmap \<Rightarrow> 'x \<Rightarrow> bool" where
  "held since claims x \<longleftrightarrow>
     (\<exists>m. js_get claims (key x) = Some m \<and> origin x \<le> m) \<or> origin x + REPLAY_RETENTION_MS < since"

lemma apart_sym: "apart x y \<longleftrightarrow> apart y x"
  unfolding apart_def by (auto simp: abs_minus_commute)

lemma held_later: "held since claims x \<Longrightarrow> since \<le> since' \<Longrightarrow> held since' claims x"
  unfolding held_def by force

lemma held_set: "held since claims x \<Longrightarrow> \<not> js_has claims k \<Longrightarrow> held since (js_set k m claims) x"
  unfolding held_def by (auto simp: jsmap_simps)

lemma held_claim: "origin x \<le> m \<Longrightarrow> held since (js_set (key x) m claims) x"
  unfolding held_def by (simp add: jsmap_simps)

lemma held_prune:
  assumes "held since claims x" and "since \<le> now" and "js_wf claims"
  shows "held now (filter (\<lambda>(k, m). \<not> (prunable k \<and> m + REPLAY_RETENTION_MS < now)) claims) x"
proof (cases "origin x + REPLAY_RETENTION_MS < now")
  case False
  with assms obtain m where "js_get claims (key x) = Some m" and "origin x \<le> m"
    unfolding held_def by force
  with False show ?thesis unfolding held_def by (simp add: js_get_filter [OF assms(3)])
qed (simp add: held_def)

lemma fresh_apart:
  assumes "held since claims x" and "\<not> js_has claims (key y)" and "since < origin y + window"
  shows "apart x y"
proof -
  consider "js_has claims (key x)" | "origin x + REPLAY_RETENTION_MS < since"
    using assms(1) unfolding held_def by (auto simp: jsmap_simps)
  then show ?thesis
    using assms(2,3) window_short unfolding apart_def by cases (force, linarith)
qed

end

definition request_origin :: "json \<Rightarrow> int" where
  "request_origin e = int_field e ''requestedAt'' - MAX_REQUEST_CLOCK_SKEW_MS"

definition step_origin :: "int \<Rightarrow> int" where
  "step_origin counter = (counter - 1) * 30000"

lemmas privilege_times = PRIVILEGE_REQUEST_LIFETIME_MS_def MAX_REQUEST_CLOCK_SKEW_MS_def REPLAY_RETENTION_MS_def
  TOTP_FAILURE_WINDOW_MS_def

interpretation rq: one_time_claims "request_key env" request_origin 35000
    "\<lambda>key. length key = 64 \<and> list_all lower_hex_digit key" for env
  by unfold_locales (simp add: privilege_times)

interpretation st: one_time_claims "\<lambda>counter. counter" step_origin 90000 "\<lambda>_. True"
  by unfold_locales (simp add: privilege_times)

lemma create_claim_cases:
  "create_claim key now outcome replayed claims = (r, claims') \<Longrightarrow>
     claims' = claims \<and> (\<exists>e. r = Inl e) \<or> \<not> js_has claims key \<and> claims' = js_set key now claims"
  unfolding create_claim_def by (simp split: if_splits) blast+

lemma create_claim_Inr:
  "create_claim key now outcome replayed claims = (Inr u, claims') \<Longrightarrow>
     \<not> js_has claims key \<and> claims' = js_set key now claims"
  unfolding create_claim_def by (auto split: if_splits)

lemma prune_requests: "hw_requests (pruneReplayClaims now w) =
    filter (\<lambda>(k, m). \<not> ((length k = 64 \<and> list_all lower_hex_digit k) \<and> m + REPLAY_RETENTION_MS < now)) (hw_requests w)"
  unfolding pruneReplayClaims_def by simp

lemma prune_steps: "hw_steps (pruneReplayClaims now w) =
    filter (\<lambda>(k, m). \<not> (True \<and> m + REPLAY_RETENTION_MS < now)) (hw_steps w)"
  unfolding pruneReplayClaims_def by simp

section \<open>Runs\<close>

fun live_requests :: "helper_task \<Rightarrow> json list" where
  "live_requests (Claimed e _ _) = [e]"
| "live_requests (Approved e _ _ _) = [e]"
| "live_requests _ = []"

fun live_steps :: "helper_task \<Rightarrow> int list" where
  "live_steps (Approved _ _ _ c) = [c]"
| "live_steps _ = []"

text \<open>The requests and the codes that were or may still be executed.\<close>

definition consumed :: "helper_world \<Rightarrow> json list" where
  "consumed w = map fst (hw_spawned w) @ concat (map live_requests (hw_tasks w))"

definition used_steps :: "helper_world \<Rightarrow> int list" where
  "used_steps w = map (\<lambda>(e, x, c). c) (hw_spawned w) @ concat (map live_steps (hw_tasks w))"

text \<open>A request was received after the last restart and has not expired by then.\<close>

definition timely :: "int \<Rightarrow> int \<Rightarrow> helper_task \<Rightarrow> bool" where
  "timely since now t = (case t of
      Received e _ _ \<Rightarrow> since < request_origin e + 35000 \<and> request_origin e \<le> now
    | _ \<Rightarrow> True)"

definition claims_inv :: "helper_env \<Rightarrow> int \<Rightarrow> helper_world \<Rightarrow> bool" where
  "claims_inv env since w \<longleftrightarrow> js_wf (hw_requests w)
     \<and> (\<forall>e\<in>set (consumed w). rq.held env since (hw_requests w) e) \<and> sorted_wrt (rq.apart env) (consumed w)"

definition steps_inv :: "int \<Rightarrow> helper_world \<Rightarrow> bool" where
  "steps_inv since w \<longleftrightarrow> js_wf (hw_steps w)
     \<and> (\<forall>c\<in>set (used_steps w). st.held since (hw_steps w) c) \<and> sorted_wrt st.apart (used_steps w)"

definition helper_inv :: "helper_env \<Rightarrow> int \<Rightarrow> int \<Rightarrow> helper_world \<Rightarrow> bool" where
  "helper_inv env since now w \<longleftrightarrow> since \<le> now \<and> claims_inv env since w \<and> steps_inv since w
     \<and> (\<forall>t\<in>set (hw_tasks w). timely since now t)"

lemma task_at_split:
  assumes "task_at i w = Some t"
  shows "\<exists>ys zs. hw_tasks w = ys @ t # zs \<and> (\<forall>t'. hw_tasks (set_task i t' w) = ys @ t' # zs)"
proof -
  from assms have i: "i < length (hw_tasks w)" and t: "hw_tasks w ! i = t"
    unfolding task_at_def by (simp_all split: if_splits)
  then have "hw_tasks w = take i (hw_tasks w) @ t # drop (Suc i) (hw_tasks w)"
    using id_take_nth_drop [OF i] by simp
  moreover have "hw_tasks (set_task i t' w) = take i (hw_tasks w) @ t' # drop (Suc i) (hw_tasks w)" for t'
    unfolding set_task_def by (simp add: upd_conv_take_nth_drop [OF i])
  ultimately show ?thesis by blast
qed

lemma task_at_cong: "hw_tasks w' = hw_tasks w \<Longrightarrow> task_at i w' = task_at i w"
  by (simp add: task_at_def)

lemma set_task_simps [simp]:
  "hw_requests (set_task i t w) = hw_requests w"
  "hw_steps (set_task i t w) = hw_steps w"
  "hw_failures (set_task i t w) = hw_failures w"
  "hw_spawned (set_task i t w) = hw_spawned w"
  by (simp_all add: set_task_def)

lemma candidate_codes_spec:
  "candidate_codes gen cs = Inr cands \<Longrightarrow> (c, code) \<in> set cands \<Longrightarrow> c \<in> set cs \<and> gen c = Inr code"
  by (induction cs arbitrary: cands)
    (auto simp: rbind_eq_Inr split: sum.splits)

lemma clock_offsets_bound: "off \<in> set (clock_offsets skew) \<Longrightarrow> \<bar>off\<bar> \<le> int skew"
  unfolding clock_offsets_def by auto

text \<open>A code that matches at a time: generated for a counter within the allowed skew.\<close>

definition code_matches :: "helper_env \<Rightarrow> helper_config \<Rightarrow> string \<Rightarrow> int \<Rightarrow> int \<Rightarrow> bool" where
  "code_matches env cfg code now c \<longleftrightarrow> 0 \<le> now
     \<and> \<bar>c - now div 1000 div hc_periodSeconds cfg\<bar> \<le> int (hc_allowedClockSkewSteps cfg)
     \<and> generateTotpForSecret (he_hmac env) (hc_secret cfg) c 6 = Inr code"

lemma verifySerial_cases:
  assumes "verifySerial env cfg code now outcome w = (r, w')"
  shows "hw_requests w' = hw_requests w \<and> hw_tasks w' = hw_tasks w \<and> hw_spawned w' = hw_spawned w
    \<and> (hw_steps w' = hw_steps w \<and> (\<exists>e. r = Inl e)
       \<or> (\<exists>c. code_matches env cfg code now c \<and> \<not> js_has (hw_steps w) c \<and> hw_steps w' = js_set c now (hw_steps w)
            \<and> (r = Inr c \<or> (\<exists>e. r = Inl e))))"
proof -
  have matched: "code_matches env cfg code now c"
    if "totpCounter now (hc_periodSeconds cfg) = Inr current"
      and "candidate_codes (\<lambda>c. generateTotpForSecret (he_hmac env) (hc_secret cfg) c 6)
             (map (\<lambda>off. current + off) (clock_offsets (hc_allowedClockSkewSteps cfg))) = Inr cands"
      and "find (\<lambda>(c, candidate). candidate = code) cands = Some (c, candidate)" for current cands c candidate
  proof -
    from that(3) have "(c, candidate) \<in> set cands" and "candidate = code"
      by (auto simp: find_Some_iff in_set_conv_nth)
    with candidate_codes_spec [OF that(2)] have c: "c \<in> set (map (\<lambda>off. current + off) (clock_offsets (hc_allowedClockSkewSteps cfg)))"
      and gen: "generateTotpForSecret (he_hmac env) (hc_secret cfg) c 6 = Inr code" by blast+
    from c obtain off where "c = current + off" and "off \<in> set (clock_offsets (hc_allowedClockSkewSteps cfg))" by auto
    moreover from that(1) have "0 \<le> now" and "current = now div 1000 div hc_periodSeconds cfg"
      by (simp_all add: totpCounter_def split: if_splits)
    ultimately show ?thesis using gen clock_offsets_bound unfolding code_matches_def by fastforce
  qed
  show ?thesis
    using assms unfolding verifySerial_def Let_def claimTotpStep_def
    by (auto split: if_splits sum.splits option.splits prod.splits
        dest!: create_claim_cases intro: matched)
qed

section \<open>A request and a code are good for one execution\<close>

text \<open>How a list of pairwise related elements changes when a task moves on.\<close>

lemma related_insert: "symp R \<Longrightarrow> sorted_wrt R (xs @ ys) \<Longrightarrow> \<forall>x\<in>set (xs @ ys). R x e \<Longrightarrow> sorted_wrt R (xs @ e # ys)"
  by (auto simp: sorted_wrt_append dest: sympD)

lemma related_move: "symp R \<Longrightarrow> sorted_wrt R (xs @ ys @ e # zs) \<Longrightarrow> sorted_wrt R (xs @ e # ys @ zs)"
  by (auto simp: sorted_wrt_append dest: sympD)

lemma related_part:
  "part = all \<or> part = [] \<Longrightarrow> sorted_wrt R (xs @ all @ ys) \<Longrightarrow> \<forall>a\<in>set (xs @ all @ ys). P a \<Longrightarrow> (\<And>a. P a \<Longrightarrow> Q a) \<Longrightarrow>
     sorted_wrt R (xs @ part @ ys) \<and> (\<forall>a\<in>set (xs @ part @ ys). Q a)"
  by (auto simp: sorted_wrt_append)

lemma symp_apart: "symp (rq.apart env)" "symp st.apart"
  by (simp_all add: symp_def rq.apart_sym st.apart_sym)

lemma claims_inv_claim:
  assumes inv: "claims_inv env since w" and task: "task_at i w = Some (Received e x d)"
    and fresh: "\<not> js_has (hw_requests w) (request_key env e)"
    and timely: "timely since now (Received e x d)"
  shows "claims_inv env since (set_task i (Claimed e x d) (w\<lparr>hw_requests := js_set (request_key env e) now (hw_requests w)\<rparr>))"
proof -
  define w' where "w' = w\<lparr>hw_requests := js_set (request_key env e) now (hw_requests w)\<rparr>"
  have "task_at i w' = Some (Received e x d)" using task task_at_cong [of w' w] by (simp add: w'_def)
  then obtain ys zs where split: "hw_tasks w' = ys @ Received e x d # zs"
    and upd: "\<And>t'. hw_tasks (set_task i t' w') = ys @ t' # zs" using task_at_split by blast
  define before where "before = map fst (hw_spawned w) @ concat (map live_requests ys)"
  define later where "later = concat (map live_requests zs)"
  have cons: "consumed w = before @ later" "consumed (set_task i (Claimed e x d) w') = before @ e # later"
    using split upd by (simp_all add: consumed_def before_def later_def w'_def)
  have held: "\<forall>a\<in>set (before @ later). rq.held env since (hw_requests w) a" and sorted: "sorted_wrt (rq.apart env) (before @ later)"
    using inv cons(1) unfolding claims_inv_def by simp_all
  from timely have "request_origin e \<le> now" and "since < request_origin e + 35000" by (simp_all add: timely_def)
  then have "\<forall>a\<in>set (before @ later). rq.apart env a e" and "rq.held env since (hw_requests w') e"
    and "\<forall>a\<in>set (before @ later). rq.held env since (hw_requests w') a"
    using held fresh by (auto simp: w'_def intro: rq.fresh_apart rq.held_claim rq.held_set)
  moreover have "js_wf (hw_requests w')" using inv unfolding claims_inv_def w'_def by simp
  ultimately show ?thesis
    using related_insert [OF symp_apart(1) sorted] unfolding w'_def [symmetric] claims_inv_def cons(2) by simp
qed

lemma steps_inv_claim:
  assumes inv: "steps_inv since w" and task: "task_at i w = Some (Claimed e x d)"
    and fresh: "\<not> js_has (hw_steps w) c"
    and timely: "step_origin c \<le> now" "since < step_origin c + 90000"
    and same: "hw_tasks w' = hw_tasks w" "hw_spawned w' = hw_spawned w" "hw_steps w' = js_set c now (hw_steps w)"
  shows "steps_inv since (set_task i (Approved e x d c) w')"
proof -
  have "task_at i w' = Some (Claimed e x d)" using task task_at_cong [OF same(1)] by simp
  then obtain ys zs where split: "hw_tasks w' = ys @ Claimed e x d # zs"
    and upd: "\<And>t'. hw_tasks (set_task i t' w') = ys @ t' # zs" using task_at_split by blast
  define before where "before = map (\<lambda>(e, x, c). c) (hw_spawned w) @ concat (map live_steps ys)"
  define later where "later = concat (map live_steps zs)"
  have used: "used_steps w = before @ later" "used_steps (set_task i (Approved e x d c) w') = before @ c # later"
    using split upd same by (simp_all add: used_steps_def before_def later_def)
  have held: "\<forall>a\<in>set (before @ later). st.held since (hw_steps w) a" and sorted: "sorted_wrt st.apart (before @ later)"
    using inv used(1) unfolding steps_inv_def by simp_all
  have "\<forall>a\<in>set (before @ later). st.apart a c" and "st.held since (hw_steps w') c"
    and "\<forall>a\<in>set (before @ later). st.held since (hw_steps w') a"
    using held fresh timely same(3) by (auto intro: st.fresh_apart st.held_claim st.held_set)
  moreover have "js_wf (hw_steps w')" using inv same(3) unfolding steps_inv_def by simp
  ultimately show ?thesis
    using related_insert [OF symp_apart(2) sorted] unfolding steps_inv_def used(2) by simp
qed

text \<open>A claim file appears or nothing happens.\<close>

definition grown :: "('k, int) jsmap \<Rightarrow> ('k, int) jsmap \<Rightarrow> bool" where
  "grown claims claims' \<longleftrightarrow> claims' = claims \<or> (\<exists>k m. \<not> js_has claims k \<and> claims' = js_set k m claims)"

lemma grown_refl [simp]: "grown claims claims"
  by (simp add: grown_def)

lemma grown_wf: "grown claims claims' \<Longrightarrow> js_wf claims \<Longrightarrow> js_wf claims'"
  unfolding grown_def by auto

lemma grown_held:
  "grown claims claims' \<Longrightarrow> rq.held env since claims e \<Longrightarrow> rq.held env since claims' e"
  "grown steps steps' \<Longrightarrow> st.held since steps c \<Longrightarrow> st.held since steps' c"
  unfolding grown_def by (auto intro: rq.held_set st.held_set)

lemma claims_inv_task:
  assumes inv: "claims_inv env since w" and task: "task_at i w = Some t"
    and live: "live_requests t' = live_requests t \<or> live_requests t' = []"
    and same: "hw_tasks w' = hw_tasks w" "hw_spawned w' = hw_spawned w" and grown: "grown (hw_requests w) (hw_requests w')"
  shows "claims_inv env since (set_task i t' w')"
proof -
  have "task_at i w' = Some t" using task task_at_cong [OF same(1)] by simp
  then obtain ys zs where split: "hw_tasks w' = ys @ t # zs"
    and upd: "\<And>t'. hw_tasks (set_task i t' w') = ys @ t' # zs" using task_at_split by blast
  define before where "before = map fst (hw_spawned w) @ concat (map live_requests ys)"
  define later where "later = concat (map live_requests zs)"
  have parts: "consumed w = before @ live_requests t @ later" "consumed (set_task i t' w') = before @ live_requests t' @ later"
    using split upd same by (simp_all add: consumed_def before_def later_def)
  show ?thesis
    using related_part [OF live, of "rq.apart env" before later "rq.held env since (hw_requests w)"
      "rq.held env since (hw_requests w')"] grown_held(1) [OF grown] inv grown_wf [OF grown]
    unfolding claims_inv_def parts by simp
qed

lemma steps_inv_task:
  assumes inv: "steps_inv since w" and task: "task_at i w = Some t"
    and live: "live_steps t' = live_steps t \<or> live_steps t' = []"
    and same: "hw_tasks w' = hw_tasks w" "hw_spawned w' = hw_spawned w" and grown: "grown (hw_steps w) (hw_steps w')"
  shows "steps_inv since (set_task i t' w')"
proof -
  have "task_at i w' = Some t" using task task_at_cong [OF same(1)] by simp
  then obtain ys zs where split: "hw_tasks w' = ys @ t # zs"
    and upd: "\<And>t'. hw_tasks (set_task i t' w') = ys @ t' # zs" using task_at_split by blast
  define before where "before = map (\<lambda>(e, x, c). c) (hw_spawned w) @ concat (map live_steps ys)"
  define later where "later = concat (map live_steps zs)"
  have parts: "used_steps w = before @ live_steps t @ later" "used_steps (set_task i t' w') = before @ live_steps t' @ later"
    using split upd same by (simp_all add: used_steps_def before_def later_def)
  show ?thesis
    using related_part [OF live, of st.apart before later "st.held since (hw_steps w)" "st.held since (hw_steps w')"] grown_held(2) [OF grown] inv grown_wf [OF grown]
    unfolding steps_inv_def parts by simp
qed

lemma inv_spawn:
  fixes now :: int
  assumes task: "task_at i w = Some (Approved e x d c)"
  defines "w' \<equiv> set_task i (Running e x d now) (w\<lparr>hw_spawned := hw_spawned w @ [(e, x, c)]\<rparr>)"
  shows "claims_inv env since w \<Longrightarrow> claims_inv env since w'" and "steps_inv since w \<Longrightarrow> steps_inv since w'"
proof -
  from task obtain ys zs where split: "hw_tasks w = ys @ Approved e x d c # zs"
    and "\<And>t'. hw_tasks (set_task i t' w) = ys @ t' # zs" using task_at_split by blast
  then have upd: "hw_tasks w' = ys @ Running e x d now # zs" and same: "hw_requests w' = hw_requests w"
    "hw_steps w' = hw_steps w" and spawned: "hw_spawned w' = hw_spawned w @ [(e, x, c)]"
    by (simp_all add: w'_def set_task_def)
  show "claims_inv env since w'" if "claims_inv env since w"
    using that related_move [OF symp_apart(1), of env "map fst (hw_spawned w)" "concat (map live_requests ys)" e]
    by (auto simp: claims_inv_def consumed_def split upd same spawned)
  show "steps_inv since w'" if "steps_inv since w"
    using that related_move [OF symp_apart(2), of "map (\<lambda>(e, x, c). c) (hw_spawned w)" "concat (map live_steps ys)" c]
    by (auto simp: steps_inv_def used_steps_def split upd same spawned)
qed

lemma timely_simps [simp]: "timely since now (Claimed e x d)" "timely since now (Approved e x d c)"
  "timely since now (Running e x d s)" "timely since now (Answered a)"
  by (simp_all add: timely_def)

lemma timely_later: "timely since now t \<Longrightarrow> now \<le> now' \<Longrightarrow> timely since now' t"
  by (auto simp: timely_def split: helper_task.splits)

lemma tasks_timely_set:
  assumes "\<forall>t\<in>set (hw_tasks w). timely since now t" and "now \<le> now'" and "timely since now' t'"
    and "hw_tasks w' = hw_tasks w"
  shows "\<forall>t\<in>set (hw_tasks (set_task i t' w')). timely since now' t"
proof
  fix t assume "t \<in> set (hw_tasks (set_task i t' w'))"
  then have "t = t' \<or> t \<in> set (hw_tasks w)"
    using assms(4) set_update_subset_insert [of "hw_tasks w" i t'] by (auto simp: set_task_def)
  with assms show "timely since now' t" by (auto intro: timely_later)
qed

lemma request_lifetime:
  "zod_parse fmt privilegedExecutionRequestSchema body = Some e \<Longrightarrow> lifetime_ok e"
  unfolding privilegedExecutionRequestSchema_def by (auto split: option.splits if_splits)

text \<open>What has been checked of a request that waits for its claim.\<close>

definition authentic :: "helper_env \<Rightarrow> helper_config \<Rightarrow> int \<Rightarrow> http_request \<Rightarrow> json \<Rightarrow> bool" where
  "authentic env cfg now req e \<longleftrightarrow> hr_method req = ''POST'' \<and> hr_url req = ''/v1/execute''
     \<and> he_sha256 env (bearer_token (hr_authorization req)) = map hex_lower (hc_tokenSha256 cfg)
     \<and> (\<exists>body. hr_json req = Some body
          \<and> zod_parse (he_format env) privilegedExecutionRequestSchema body = Some e)
     \<and> now < int_field e ''expiresAt'' \<and> int_field e ''requestedAt'' \<le> now + MAX_REQUEST_CLOCK_SKEW_MS"

lemma handle_execute_Inr:
  assumes "handle_execute env cfg now req = Inr (e, x, d)"
  shows "he_sha256 env (bearer_token (hr_authorization req)) = map hex_lower (hc_tokenSha256 cfg)
    \<and> (\<exists>body. hr_json req = Some body \<and> zod_parse (he_format env) privilegedExecutionRequestSchema body = Some e)
    \<and> now < int_field e ''expiresAt'' \<and> int_field e ''requestedAt'' \<le> now + MAX_REQUEST_CLOCK_SKEW_MS
    \<and> validateExecutable env cfg (text_field e ''executable'') = Inr x"
proof -
  from assms obtain body where a: "helper_authorize env (hc_tokenSha256 cfg) req = Inr ()" and b: "readJsonBody req = Inr body"
    and c: "(case zod_parse (he_format env) privilegedExecutionRequestSchema body of
        None \<Rightarrow> Inl (Helper_error 400 ''invalid_request'')
      | Some execution \<Rightarrow>
          if int_field execution ''expiresAt'' \<le> now then Inl (Helper_error 409 ''request_expired'')
          else if int_field execution ''requestedAt'' > now + MAX_REQUEST_CLOCK_SKEW_MS
            then Inl (Helper_error 409 ''request_not_yet_valid'')
          else rbind (validateExecutable env cfg (text_field execution ''executable'')) (\<lambda>executable.
               rbind (validate_cwd env (text_field execution ''cwd'')) (\<lambda>cwd. Inr (execution, executable, cwd)))) = Inr (e, x, d)"
    unfolding handle_execute_def by (auto simp: rbind_eq_Inr)
  from a have "he_sha256 env (bearer_token (hr_authorization req)) = map hex_lower (hc_tokenSha256 cfg)"
    unfolding helper_authorize_def by (simp split: if_splits)
  moreover from b have "hr_json req = Some body" unfolding readJsonBody_def by (simp split: if_splits option.splits)
  moreover from c have "zod_parse (he_format env) privilegedExecutionRequestSchema body = Some e \<and> now < int_field e ''expiresAt''
      \<and> int_field e ''requestedAt'' \<le> now + MAX_REQUEST_CLOCK_SKEW_MS
      \<and> validateExecutable env cfg (text_field e ''executable'') = Inr x"
    by (cases "zod_parse (he_format env) privilegedExecutionRequestSchema body") (auto simp: rbind_eq_Inr split: if_splits)
  ultimately show ?thesis by blast
qed

lemma handle_request_Received:
  assumes "handle_request env cfg now req = Received e x d"
  shows "authentic env cfg now req e" and "validateExecutable env cfg (text_field e ''executable'') = Inr x"
proof -
  from assms have "hr_method req = ''POST''" and "hr_url req = ''/v1/execute''"
    and "handle_execute env cfg now req = Inr (e, x, d)"
    unfolding handle_request_def by (auto split: if_splits sum.splits)
  with handle_execute_Inr [OF this(3)] show "authentic env cfg now req e"
    and "validateExecutable env cfg (text_field e ''executable'') = Inr x" unfolding authentic_def by simp_all
qed

lemma authentic_lifetime: "authentic env cfg now req e \<Longrightarrow> lifetime_ok e"
  unfolding authentic_def by (blast dest: request_lifetime)

lemma received_timely:
  assumes "since \<le> now"
  shows "timely since now (handle_request env cfg now req)"
proof (cases "handle_request env cfg now req")
  case (Received e x d)
  note a = handle_request_Received(1) [OF this]
  with authentic_lifetime [OF a] assms Received show ?thesis
    by (simp add: timely_def authentic_def request_origin_def lifetime_ok_def privilege_times)
qed (simp_all add: timely_def)

lemma received_live: "live_requests (handle_request env cfg now req) = []" "live_steps (handle_request env cfg now req) = []"
  by (simp_all add: handle_request_def split: sum.splits prod.splits)

lemma step_window:
  assumes "helper_config_ok cfg" and "code_matches env cfg code now c"
  shows "step_origin c \<le> now" and "now < step_origin c + 90000"
proof -
  have p: "hc_periodSeconds cfg = 30" and k: "int (hc_allowedClockSkewSteps cfg) \<le> 1"
    using assms(1) unfolding helper_config_ok_def by simp_all
  have q: "now div 1000 div 30 = now div 30000" using zdiv_zmult2_eq [of 30 now 1000] by simp
  have "\<bar>c - now div 30000\<bar> \<le> 1" using assms(2) k unfolding code_matches_def p q by linarith
  moreover obtain q r where q: "now div 30000 = q" and r: "now = q * 30000 + r" "0 \<le> r" "r < 30000"
    using that [of "now div 30000" "now mod 30000"] by simp
  ultimately have "q - 1 \<le> c" and "c \<le> q + 1" unfolding q by simp_all
  then show "step_origin c \<le> now" and "now < step_origin c + 90000" using r by (simp_all add: step_origin_def)
qed

lemma helper_inv_weaken:
  "helper_inv env since now w \<Longrightarrow> now \<le> now' \<Longrightarrow> helper_inv env since now' w"
  unfolding helper_inv_def by (auto intro: timely_later)

lemma helper_inv_claim:
  assumes inv: "helper_inv env since now w" and later: "now \<le> now'"
  shows "helper_inv env since now' (helper_step env cfg (Claim now' i outcome) w)"
proof (cases "\<exists>e x d. task_at i w = Some (Received e x d)")
  case True
  then obtain e x d where task: "task_at i w = Some (Received e x d)" by blast
  then have "Received e x d \<in> set (hw_tasks w)" unfolding task_at_def by (metis nth_mem option.distinct(1) option.sel)
  then have t: "timely since now' (Received e x d)"
    using inv later unfolding helper_inv_def by (auto intro: timely_later)
  obtain r claims where c: "create_claim (request_key env e) now' outcome (Helper_error 409 ''request_replayed'')
      (hw_requests w) = (r, claims)" by fastforce
  define w' where "w' = w\<lparr>hw_requests := claims\<rparr>"
  have w': "hw_tasks w' = hw_tasks w" "hw_spawned w' = hw_spawned w" "hw_steps w' = hw_steps w" by (simp_all add: w'_def)
  have grown: "grown (hw_requests w) (hw_requests w')"
    using create_claim_cases [OF c] unfolding grown_def w'_def by auto
  define t' where "t' = (case r of Inl err \<Rightarrow> Answered (Helper_failed err) | Inr _ \<Rightarrow> Claimed e x d)"
  have step: "helper_step env cfg (Claim now' i outcome) w = set_task i t' w'"
    using task c by (simp add: claimRequest_def w'_def t'_def split: sum.splits)
  have "claims_inv env since (set_task i t' w')"
  proof (cases r)
    case (Inr u)
    have "\<not> js_has (hw_requests w) (request_key env e)"
      and "claims = js_set (request_key env e) now' (hw_requests w)" using create_claim_Inr [OF c [unfolded Inr]] by simp_all
    with claims_inv_claim [OF _ task _ t] inv Inr show ?thesis by (simp add: helper_inv_def t'_def w'_def)
  next
    case (Inl err)
    then show ?thesis
      using claims_inv_task [OF _ task _ w'(1,2) grown, of env since t'] inv by (simp add: helper_inv_def t'_def)
  qed
  moreover have "steps_inv since (set_task i t' w')"
    using steps_inv_task [OF _ task _ w'(1,2), of since t'] inv w'(3)
    by (simp add: helper_inv_def t'_def split: sum.splits)
  moreover have "timely since now' t'" by (simp add: t'_def timely_def split: sum.splits)
  ultimately show ?thesis
    using inv later tasks_timely_set [OF _ later _ w'(1)] unfolding step helper_inv_def by simp
next
  case False
  then have "helper_step env cfg (Claim now' i outcome) w = w"
    by (cases "task_at i w"; cases "the (task_at i w)") auto
  then show ?thesis using helper_inv_weaken [OF inv later] by simp
qed

lemma helper_inv_verify:
  assumes inv: "helper_inv env since now w" and later: "now \<le> now'" and cfg: "helper_config_ok cfg"
  shows "helper_inv env since now' (helper_step env cfg (Verify now' i outcome) w)"
proof (cases "\<exists>e x d. task_at i w = Some (Claimed e x d)")
  case True
  then obtain e x d where task: "task_at i w = Some (Claimed e x d)" by blast
  obtain r w' where v: "verifySerial env cfg (text_field e ''totp'') now' outcome w = (r, w')" by fastforce
  note vs = verifySerial_cases [OF v]
  then have same: "hw_tasks w' = hw_tasks w" "hw_spawned w' = hw_spawned w" "hw_requests w' = hw_requests w" by simp_all
  define t' where "t' = (case r of Inl err \<Rightarrow> Answered (Helper_failed err) | Inr c \<Rightarrow> Approved e x d c)"
  have step: "helper_step env cfg (Verify now' i outcome) w = set_task i t' w'"
    using task v by (simp add: t'_def split: sum.splits)
  have "steps_inv since (set_task i t' w')"
  proof (cases r)
    case (Inl err)
    have "grown (hw_steps w) (hw_steps w')" using vs unfolding grown_def by blast
    with Inl show ?thesis
      using steps_inv_task [OF _ task _ same(1,2), of since t'] inv by (simp add: helper_inv_def t'_def)
  next
    case (Inr c)
    with vs have m: "code_matches env cfg (text_field e ''totp'') now' c" and "\<not> js_has (hw_steps w) c"
      and "hw_steps w' = js_set c now' (hw_steps w)" by auto
    moreover have "since \<le> now'" using inv later unfolding helper_inv_def by simp
    ultimately show ?thesis
      using steps_inv_claim [OF _ task _ step_window(1) [OF cfg m] _ same(1,2)] step_window(2) [OF cfg m] inv Inr
      by (simp add: helper_inv_def t'_def)
  qed
  moreover have "claims_inv env since (set_task i t' w')"
    using claims_inv_task [OF _ task _ same(1,2), of env since t'] inv same(3)
    by (simp add: helper_inv_def t'_def split: sum.splits)
  moreover have "timely since now' t'" by (simp add: t'_def timely_def split: sum.splits)
  ultimately show ?thesis
    using inv later tasks_timely_set [OF _ later _ same(1)] unfolding step helper_inv_def by simp
next
  case False
  then have "helper_step env cfg (Verify now' i outcome) w = w"
    by (cases "task_at i w"; cases "the (task_at i w)") auto
  then show ?thesis using helper_inv_weaken [OF inv later] by simp
qed

lemma helper_inv_spawn:
  assumes inv: "helper_inv env since now w" and later: "now \<le> now'"
  shows "helper_inv env since now' (helper_step env cfg (Spawn now' i) w)"
proof (cases "\<exists>e x d c. task_at i w = Some (Approved e x d c)")
  case True
  then obtain e x d c where task: "task_at i w = Some (Approved e x d c)" by blast
  then have "helper_step env cfg (Spawn now' i) w
      = set_task i (Running e x d now') (w\<lparr>hw_spawned := hw_spawned w @ [(e, x, c)]\<rparr>)" by simp
  then show ?thesis
    using inv later inv_spawn [OF task]
      tasks_timely_set [of w since now now' "Running e x d now'" "w\<lparr>hw_spawned := hw_spawned w @ [(e, x, c)]\<rparr>" i]
    by (simp add: helper_inv_def)
next
  case False
  then have "helper_step env cfg (Spawn now' i) w = w"
    by (cases "task_at i w"; cases "the (task_at i w)") auto
  then show ?thesis using helper_inv_weaken [OF inv later] by simp
qed

lemma helper_inv_exit:
  assumes inv: "helper_inv env since now w" and later: "now \<le> now'"
  shows "helper_inv env since now' (helper_step env cfg (Exit now' i) w)"
proof (cases "\<exists>e x d s. task_at i w = Some (Running e x d s)")
  case True
  then obtain e x d s where task: "task_at i w = Some (Running e x d s)" by blast
  define t' where "t' = Answered (run_execution env e x d s now')"
  have "helper_step env cfg (Exit now' i) w = set_task i t' w" using task by (simp add: t'_def)
  moreover have "live_requests t' = []" "live_steps t' = []" "timely since now' t'" by (simp_all add: t'_def)
  ultimately show ?thesis
    using inv later claims_inv_task [OF _ task, of env since t' w] steps_inv_task [OF _ task, of since t' w]
      tasks_timely_set [of w since now now' t' w i]
    by (simp add: helper_inv_def)
next
  case False
  then have "helper_step env cfg (Exit now' i) w = w"
    by (cases "task_at i w"; cases "the (task_at i w)") auto
  then show ?thesis using helper_inv_weaken [OF inv later] by simp
qed

lemma helper_inv_receive:
  assumes "helper_inv env since now w" and "now \<le> now'"
  shows "helper_inv env since now' (helper_step env cfg (Receive now' req) w)"
  using helper_inv_weaken [OF assms] received_timely [of since now' env cfg req]
  by (auto simp: helper_inv_def claims_inv_def steps_inv_def consumed_def used_steps_def received_live)

lemma helper_inv_restart:
  assumes inv: "helper_inv env since now w" and later: "now \<le> now'"
  shows "helper_inv env now' now' (helper_step env cfg (Restart now') w)"
proof -
  define w' where "w' = helper_step env cfg (Restart now') w"
  have w': "hw_requests w' = hw_requests (pruneReplayClaims now' w)" "hw_steps w' = hw_steps (pruneReplayClaims now' w)"
    "hw_spawned w' = hw_spawned w" "hw_tasks w' = []" by (simp_all add: w'_def pruneReplayClaims_def)
  have since: "since \<le> now'" using inv later unfolding helper_inv_def by simp
  have "claims_inv env now' w'"
    using inv rq.held_prune [OF _ since]
    unfolding helper_inv_def claims_inv_def w'(1) prune_requests consumed_def w'(3,4)
    by (auto simp: sorted_wrt_append)
  moreover have "steps_inv now' w'"
    using inv st.held_prune [OF _ since]
    unfolding helper_inv_def steps_inv_def w'(2) prune_steps used_steps_def w'(3,4)
    by (auto simp: sorted_wrt_append)
  ultimately show ?thesis unfolding helper_inv_def w'_def [symmetric] by (simp add: w'(4))
qed

lemmas helper_inv_steps = helper_inv_receive helper_inv_claim helper_inv_verify helper_inv_spawn helper_inv_exit
  helper_inv_restart

lemma helper_inv_step:
  assumes "helper_inv env since now w" and "now \<le> action_time a" and "helper_config_ok cfg"
  shows "\<exists>since'. helper_inv env since' (action_time a) (helper_step env cfg a w)"
proof (cases a)
  case (Verify t i outcome)
  then show ?thesis using helper_inv_verify [OF assms(1) _ assms(3)] assms(2) by auto
qed (use assms(2) in \<open>auto simp del: helper_step.simps intro: helper_inv_steps [OF assms(1)]\<close>)

lemma helper_inv_run:
  "helper_config_ok cfg \<Longrightarrow> helper_inv env since now w \<Longrightarrow> sorted (now # map action_time actions) \<Longrightarrow>
     \<exists>since' now'. helper_inv env since' now' (helper_run env cfg actions w)"
proof (induction actions arbitrary: since now w)
  case Nil
  then show ?case by (auto simp: helper_run_def)
next
  case (Cons a actions)
  then obtain since' where "helper_inv env since' (action_time a) (helper_step env cfg a w)"
    using helper_inv_step [of env since now w a cfg] by auto
  moreover have "sorted (action_time a # map action_time actions)" using Cons.prems(3) by simp
  ultimately show ?case using Cons.IH [OF Cons.prems(1)] by (auto simp: helper_run_def)
qed

lemma helper_inv_fresh: "helper_inv env now now helper_fresh"
  by (simp add: helper_inv_def helper_fresh_def claims_inv_def steps_inv_def consumed_def used_steps_def)

lemma spawned_apart:
  assumes "helper_config_ok cfg" and "sorted (map action_time actions)"
  shows "sorted_wrt (rq.apart env) (map fst (hw_spawned (helper_run env cfg actions helper_fresh)))
    \<and> sorted_wrt st.apart (map (\<lambda>(e, x, c). c) (hw_spawned (helper_run env cfg actions helper_fresh)))"
proof -
  have "sorted ((case actions of [] \<Rightarrow> 0 | a # _ \<Rightarrow> action_time a) # map action_time actions)"
    using assms(2) by (cases actions) auto
  from helper_inv_run [OF assms(1) helper_inv_fresh this] show ?thesis
    by (auto simp: helper_inv_def claims_inv_def steps_inv_def consumed_def used_steps_def sorted_wrt_append)
qed

text \<open>
  C14: a code and a request are good for one execution. In every run of the helper from an empty replay
  directory, with any interleaving of requests, failed claim files and restarts that prune old claims,
  two executions have different one-time codes (counters), and if their requests have the same
  identifier, the requests were created more than 23 hours and 59 minutes apart. The clock must not go
  backwards.
\<close>

theorem privileged_execution_once:
  assumes "helper_config_ok cfg" and "sorted (map action_time actions)"
    and "spawned = hw_spawned (helper_run env cfg actions helper_fresh)"
    and "i < j" and "j < length spawned"
    and "spawned ! i = (e, x, c)" and "spawned ! j = (e', x', c')"
  shows "c \<noteq> c' \<and> (text_field e ''requestId'' \<noteq> text_field e' ''requestId''
    \<or> 23 * 3600000 + 59 * 60000 < \<bar>int_field e ''requestedAt'' - int_field e' ''requestedAt''\<bar>)"
proof -
  note apart = spawned_apart [OF assms(1,2), of env, folded assms(3)]
  have "rq.apart env e e'" and "st.apart c c'"
    using sorted_wrt_nth_less [OF conjunct1 [OF apart] assms(4)] sorted_wrt_nth_less [OF conjunct2 [OF apart] assms(4)]
      assms(4-7) by simp_all
  then show ?thesis
    unfolding rq.apart_def st.apart_def request_key_def request_origin_def by (auto simp: privilege_times)
qed

section \<open>Only authorized requests\<close>

definition vetted :: "helper_env \<Rightarrow> helper_config \<Rightarrow> helper_action set \<Rightarrow> json \<Rightarrow> string \<Rightarrow> bool" where
  "vetted env cfg seen e x \<longleftrightarrow> (\<exists>t req. Receive t req \<in> seen \<and> authentic env cfg t req e)
     \<and> validateExecutable env cfg (text_field e ''executable'') = Inr x"

definition approved :: "helper_env \<Rightarrow> helper_config \<Rightarrow> helper_action set \<Rightarrow> json \<Rightarrow> int \<Rightarrow> bool" where
  "approved env cfg seen e c \<longleftrightarrow>
     (\<exists>t i outcome. Verify t i outcome \<in> seen \<and> code_matches env cfg (text_field e ''totp'') t c)"

fun task_ok :: "helper_env \<Rightarrow> helper_config \<Rightarrow> helper_action set \<Rightarrow> helper_task \<Rightarrow> bool" where
  "task_ok env cfg seen (Received e x d) \<longleftrightarrow> vetted env cfg seen e x"
| "task_ok env cfg seen (Claimed e x d) \<longleftrightarrow> vetted env cfg seen e x"
| "task_ok env cfg seen (Approved e x d c) \<longleftrightarrow> vetted env cfg seen e x \<and> approved env cfg seen e c"
| "task_ok env cfg seen _ \<longleftrightarrow> True"

definition vetting_inv :: "helper_env \<Rightarrow> helper_config \<Rightarrow> helper_action set \<Rightarrow> helper_world \<Rightarrow> bool" where
  "vetting_inv env cfg seen w \<longleftrightarrow> (\<forall>t\<in>set (hw_tasks w). task_ok env cfg seen t)
     \<and> (\<forall>(e, x, c)\<in>set (hw_spawned w). vetted env cfg seen e x \<and> approved env cfg seen e c)"

lemma vetted_mono: "vetted env cfg seen e x \<Longrightarrow> seen \<subseteq> seen' \<Longrightarrow> vetted env cfg seen' e x"
  and approved_mono: "approved env cfg seen e c \<Longrightarrow> seen \<subseteq> seen' \<Longrightarrow> approved env cfg seen' e c"
  unfolding vetted_def approved_def by blast+

lemma task_ok_mono: "task_ok env cfg seen t \<Longrightarrow> seen \<subseteq> seen' \<Longrightarrow> task_ok env cfg seen' t"
  by (cases t) (auto intro: vetted_mono approved_mono)

lemma vetting_inv_mono: "vetting_inv env cfg seen w \<Longrightarrow> seen \<subseteq> seen' \<Longrightarrow> vetting_inv env cfg seen' w"
  unfolding vetting_inv_def by (blast intro: vetted_mono approved_mono task_ok_mono)

lemma vetting_inv_task:
  assumes "vetting_inv env cfg seen w" and "task_ok env cfg seen t'" and "hw_tasks w' = hw_tasks w" and "hw_spawned w' = hw_spawned w"
  shows "vetting_inv env cfg seen (set_task i t' w')"
  using assms set_update_subset_insert [of "hw_tasks w" i t'] unfolding vetting_inv_def set_task_def by auto

lemma task_at_ok: "vetting_inv env cfg seen w \<Longrightarrow> task_at i w = Some t \<Longrightarrow> task_ok env cfg seen t"
  unfolding vetting_inv_def task_at_def by (metis nth_mem option.distinct(1) option.sel)

lemma received_ok: "Receive now req \<in> seen \<Longrightarrow> task_ok env cfg seen (handle_request env cfg now req)"
proof (cases "handle_request env cfg now req")
  case (Received e x d)
  then show "Receive now req \<in> seen \<Longrightarrow> ?thesis"
    using handle_request_Received [OF Received] by (auto simp: vetted_def)
qed (auto simp: handle_request_def split: if_splits sum.splits)

lemma claimRequest_same: "claimRequest env now outcome e w = (r, w') \<Longrightarrow> hw_tasks w' = hw_tasks w \<and> hw_spawned w' = hw_spawned w"
  unfolding claimRequest_def by (auto split: prod.splits)

lemma vetting_inv_step:
  assumes inv: "vetting_inv env cfg seen w" and a: "a \<in> seen"
  shows "vetting_inv env cfg seen (helper_step env cfg a w)"
proof (cases a)
  case (Receive now req)
  then show ?thesis using inv received_ok a by (auto simp: vetting_inv_def)
next
  case (Claim now i outcome)
  show ?thesis
  proof (cases "\<exists>e x d. task_at i w = Some (Received e x d)")
    case True
    then obtain e x d where task: "task_at i w = Some (Received e x d)" by blast
    obtain r w' where c: "claimRequest env now outcome e w = (r, w')" by fastforce
    show ?thesis
      using task_at_ok [OF inv task] vetting_inv_task [OF inv] claimRequest_same [OF c] Claim task c by (cases r) simp_all
  next
    case False
    then have "helper_step env cfg a w = w" unfolding Claim by (cases "task_at i w"; cases "the (task_at i w)") auto
    then show ?thesis using inv by simp
  qed
next
  case (Verify now i outcome)
  show ?thesis
  proof (cases "\<exists>e x d. task_at i w = Some (Claimed e x d)")
    case True
    then obtain e x d where task: "task_at i w = Some (Claimed e x d)" by blast
    obtain r w' where v: "verifySerial env cfg (text_field e ''totp'') now outcome w = (r, w')" by fastforce
    note vs = verifySerial_cases [OF v]
    have "approved env cfg seen e c" if "r = Inr c" for c
      using vs that a Verify unfolding approved_def by auto
    then show ?thesis
      using task_at_ok [OF inv task] vetting_inv_task [OF inv] vs Verify task v by (cases r) simp_all
  next
    case False
    then have "helper_step env cfg a w = w" unfolding Verify by (cases "task_at i w"; cases "the (task_at i w)") auto
    then show ?thesis using inv by simp
  qed
next
  case (Spawn now i)
  show ?thesis
  proof (cases "\<exists>e x d c. task_at i w = Some (Approved e x d c)")
    case True
    then obtain e x d c where task: "task_at i w = Some (Approved e x d c)" by blast
    have "vetting_inv env cfg seen (w\<lparr>hw_spawned := hw_spawned w @ [(e, x, c)]\<rparr>)"
      using inv task_at_ok [OF inv task] unfolding vetting_inv_def by auto
    from vetting_inv_task [OF this, of "Running e x d now"] show ?thesis using Spawn task by simp
  next
    case False
    then have "helper_step env cfg a w = w" unfolding Spawn by (cases "task_at i w"; cases "the (task_at i w)") auto
    then show ?thesis using inv by simp
  qed
next
  case (Exit now i)
  then show ?thesis
    using inv vetting_inv_task [OF inv, of "Answered _" w] by (auto split: option.splits helper_task.splits)
next
  case (Restart now)
  then show ?thesis using inv by (simp add: vetting_inv_def pruneReplayClaims_def)
qed

lemma vetting_inv_run: "vetting_inv env cfg (set actions) (helper_run env cfg actions helper_fresh)"
proof (induction actions rule: rev_induct)
  case Nil
  then show ?case by (simp add: helper_run_def vetting_inv_def helper_fresh_def)
next
  case (snoc a actions)
  have "vetting_inv env cfg (set (actions @ [a])) (helper_run env cfg actions helper_fresh)"
    using snoc by (rule vetting_inv_mono) auto
  from vetting_inv_step [OF this, of a] show ?case by (simp add: helper_run_def)
qed

lemma validateExecutable_Inr:
  assumes "validateExecutable env cfg p = Inr x"
  shows "he_realpath env p = Some x
    \<and> (hc_allowArbitraryRootExecutables cfg
       \<or> (\<exists>q\<in>set (hc_allowedExecutables cfg). he_realpath env q = Some x \<or> he_realpath env q = None \<and> q = x))
    \<and> (\<exists>md. he_stat env x = Some md \<and> md_isFile md \<and> md_uid md = 0 \<and> \<not> md_groupOrWorldWritable md)"
  using assms unfolding validateExecutable_def Let_def
  by (auto split: option.splits if_splits simp: image_iff)

text \<open>
  C15: only authorized requests are executed. Behind every execution of a run there is a received POST
  whose token has the configured digest and whose body is a valid, unexpired request; the executable is
  the resolved path of the request, allowed by the policy, a file owned by root that others cannot
  write; and the one-time code of the request was verified for a counter within the allowed skew.
\<close>

theorem privileged_execution_authorized:
  assumes "(e, x, c) \<in> set (hw_spawned (helper_run env cfg actions helper_fresh))"
  shows "(\<exists>t req. Receive t req \<in> set actions \<and> authentic env cfg t req e)
    \<and> (\<exists>t i outcome. Verify t i outcome \<in> set actions \<and> code_matches env cfg (text_field e ''totp'') t c)
    \<and> he_realpath env (text_field e ''executable'') = Some x
    \<and> (hc_allowArbitraryRootExecutables cfg
       \<or> (\<exists>q\<in>set (hc_allowedExecutables cfg). he_realpath env q = Some x \<or> he_realpath env q = None \<and> q = x))
    \<and> (\<exists>md. he_stat env x = Some md \<and> md_isFile md \<and> md_uid md = 0 \<and> \<not> md_groupOrWorldWritable md)"
proof -
  have "vetted env cfg (set actions) e x" and "approved env cfg (set actions) e c"
    using vetting_inv_run [of env cfg actions] assms unfolding vetting_inv_def by auto
  then show ?thesis using validateExecutable_Inr [of env cfg "text_field e ''executable''" x]
    unfolding vetted_def approved_def by blast
qed

end
