(* ===== verification/Privilege_Limits.thy ===== *)
theory Privilege_Limits
  imports Privilege_Safety
begin

text \<open>
  The limits of the privilege helper: how fast one-time codes can be guessed, and that an execution that
  ended is reported within the bounds of the protocol.
\<close>

section \<open>The rate of guesses\<close>

definition invalid_totp :: helper_error where
  "invalid_totp = Helper_error 401 ''invalid_totp''"

text \<open>The verifications of a run, with their times and results.\<close>

fun verdict_of :: "helper_env \<Rightarrow> helper_config \<Rightarrow> helper_action \<Rightarrow> helper_world \<Rightarrow> (int \<times> (helper_error, int) result) list" where
  "verdict_of env cfg (Verify now i outcome) w =
     (case task_at i w of
        Some (Claimed e x d) \<Rightarrow> [(now, fst (verifySerial env cfg (text_field e ''totp'') now outcome w))]
      | _ \<Rightarrow> [])"
| "verdict_of env cfg _ w = []"

fun verdicts :: "helper_env \<Rightarrow> helper_config \<Rightarrow> helper_action list \<Rightarrow> helper_world \<Rightarrow> (int \<times> (helper_error, int) result) list" where
  "verdicts env cfg [] w = []"
| "verdicts env cfg (a # actions) w = verdict_of env cfg a w @ verdicts env cfg actions (helper_step env cfg a w)"

definition wrong_times :: "(int \<times> (helper_error, int) result) list \<Rightarrow> int list" where
  "wrong_times vs = map fst (filter (\<lambda>(t, r). r = Inl invalid_totp) vs)"

definition recent :: "int \<Rightarrow> int list \<Rightarrow> int list" where
  "recent now fs = filter (\<lambda>f. f + TOTP_FAILURE_WINDOW_MS > now) fs"

definition spaced :: "int list \<Rightarrow> bool" where
  "spaced ws \<longleftrightarrow> (\<forall>i. i + 5 < length ws \<longrightarrow> ws ! i + TOTP_FAILURE_WINDOW_MS \<le> ws ! (i + 5))"

lemma candidate_codes_Inl: "candidate_codes gen cs = Inl e \<Longrightarrow> e = execution_failed"
  by (induction cs) (auto simp: rbind_def split: sum.splits)

lemma verifySerial_failures:
  assumes "verifySerial env cfg code now outcome w = (r, w')"
  shows "r = Inl invalid_totp \<and> length (recent now (hw_failures w)) < 5 \<and> hw_failures w' = recent now (hw_failures w) @ [now]
    \<or> r \<noteq> Inl invalid_totp \<and> (hw_failures w' = recent now (hw_failures w) \<or> (\<exists>c. r = Inr c))"
proof -
  have claim: "r' \<noteq> Inl invalid_totp" if "claimTotpStep c now outcome v = (r', v')" for c v r' v'
    using that unfolding claimTotpStep_def create_claim_def invalid_totp_def execution_failed_def
    by (auto split: if_splits prod.splits)
  have same: "hw_failures v' = hw_failures v" if "claimTotpStep c now outcome v = (r', v')" for c v r' v'
    using that unfolding claimTotpStep_def by (auto split: prod.splits)
  have cand: "e \<noteq> invalid_totp" if "candidate_codes gen cs = Inl e" for gen cs e
    using candidate_codes_Inl [OF that] by (simp add: execution_failed_def invalid_totp_def)
  show ?thesis
    using assms unfolding verifySerial_def Let_def recent_def [symmetric]
    by (auto simp: MAX_TOTP_FAILURES_PER_WINDOW_def invalid_totp_def [symmetric] split: if_splits sum.splits option.splits prod.splits
        dest: claim same cand)
      (simp_all add: invalid_totp_def execution_failed_def)
qed

lemma recent_recent: "t \<le> t' \<Longrightarrow> recent t' (recent t fs) = recent t' fs"
  unfolding recent_def by (auto intro: filter_cong)

lemma recent_append: "recent t (xs @ ys) = recent t xs @ recent t ys"
  by (simp add: recent_def)

lemma recent_suffix:
  assumes "sorted ws" and "length (recent now ws) < 5" and "5 \<le> length ws"
  shows "ws ! (length ws - 5) + TOTP_FAILURE_WINDOW_MS \<le> now"
proof (rule ccontr)
  assume late: "\<not> ?thesis"
  let ?k = "length ws - 5"
  have "\<forall>f\<in>set (drop ?k ws). ws ! ?k \<le> f"
    using assms(1,3) by (auto simp: in_set_conv_nth sorted_nth_mono)
  with late have "recent now (drop ?k ws) = drop ?k ws" unfolding recent_def by (fastforce intro: filter_True)
  moreover have "recent now ws = recent now (take ?k ws) @ recent now (drop ?k ws)"
    using recent_append [of now "take ?k ws" "drop ?k ws"] by simp
  ultimately have "length (drop ?k ws) \<le> length (recent now ws)" by simp
  with assms(2,3) show False by simp
qed

lemma spaced_snoc: "spaced ws \<Longrightarrow> sorted ws \<Longrightarrow> length (recent now ws) < 5 \<Longrightarrow> spaced (ws @ [now])"
  using recent_suffix [of ws now] unfolding spaced_def by (auto simp: nth_append less_Suc_eq) (metis add_diff_cancel_right')

text \<open>The verifier remembers the recent ones of the wrong codes so far.\<close>

definition rate_inv :: "int list \<Rightarrow> int list \<Rightarrow> int \<Rightarrow> helper_world \<Rightarrow> bool" where
  "rate_inv old ws now w \<longleftrightarrow> spaced ws \<and> sorted ws \<and> (\<forall>t\<in>set ws. t \<le> now)
     \<and> (\<forall>t\<ge>now. recent t (hw_failures w) = recent t (old @ ws))"

lemma rate_inv_later: "rate_inv old ws now w \<Longrightarrow> now \<le> now' \<Longrightarrow> hw_failures w' = hw_failures w \<Longrightarrow> rate_inv old ws now' w'"
  unfolding rate_inv_def by force

lemma rate_inv_verify:
  assumes inv: "rate_inv old ws now w" and later: "now \<le> now'"
    and v: "verifySerial env cfg code now' outcome w = (r, w')" and "\<forall>c. r \<noteq> Inr c"
  shows "rate_inv old (ws @ wrong_times [(now', r)]) now' (set_task i t w')"
proof (cases "r = Inl invalid_totp")
  case True
  with verifySerial_failures [OF v] have few: "length (recent now' (hw_failures w)) < 5"
    and fs: "hw_failures w' = recent now' (hw_failures w) @ [now']" by simp_all
  have "recent now' (hw_failures w) = recent now' (old @ ws)" using inv later unfolding rate_inv_def by simp
  with few have "length (recent now' ws) < 5" by (simp add: recent_append)
  with inv later have "spaced (ws @ [now'])" and "sorted (ws @ [now'])"
    unfolding rate_inv_def by (auto intro: spaced_snoc simp: sorted_append)
  moreover have "recent t (hw_failures w') = recent t (old @ ws @ [now'])" if "now' \<le> t" for t
    using inv later that unfolding fs rate_inv_def by (simp add: recent_append recent_recent)
  ultimately show ?thesis
    using inv later True unfolding rate_inv_def wrong_times_def by auto
next
  case False
  with verifySerial_failures [OF v] assms(4) have "hw_failures w' = recent now' (hw_failures w)" by blast
  with inv later False show ?thesis
    unfolding rate_inv_def wrong_times_def by (auto simp: recent_recent)
qed

fun restart :: "helper_action \<Rightarrow> bool" where
  "restart (Restart _) \<longleftrightarrow> True"
| "restart _ \<longleftrightarrow> False"

lemma rate_inv_step:
  assumes inv: "rate_inv old ws now w" and later: "now \<le> action_time a" and "\<not> restart a"
    and none: "\<forall>(t, r)\<in>set (verdict_of env cfg a w). \<forall>c. r \<noteq> Inr c"
  shows "rate_inv old (ws @ wrong_times (verdict_of env cfg a w)) (action_time a) (helper_step env cfg a w)"
proof (cases "\<exists>now i outcome e x d. a = Verify now i outcome \<and> task_at i w = Some (Claimed e x d)")
  case True
  then obtain now' i outcome e x d where a: "a = Verify now' i outcome" and task: "task_at i w = Some (Claimed e x d)" by blast
  obtain r w' where v: "verifySerial env cfg (text_field e ''totp'') now' outcome w = (r, w')" by fastforce
  with a task none have r: "\<forall>c. r \<noteq> Inr c" by simp
  show ?thesis
  proof (cases r)
    case (Inl err)
    then show ?thesis using rate_inv_verify [OF inv _ v r] later a task v by simp
  qed (use r in simp)
next
  case False
  have failures: "hw_failures (helper_step env cfg a w) = hw_failures w"
    using False assms(3)
    by (cases a) (auto simp: claimRequest_def split: option.splits helper_task.splits prod.splits sum.splits)
  have "verdict_of env cfg a w = []"
    using False by (cases a) (auto split: option.splits helper_task.splits)
  then show ?thesis using rate_inv_later [OF inv later failures] by (simp add: wrong_times_def)
qed

lemma wrong_times_append: "wrong_times (vs @ us) = wrong_times vs @ wrong_times us"
  by (simp add: wrong_times_def)

lemma rate_inv_run:
  "rate_inv old ws now w \<Longrightarrow> sorted (now # map action_time actions) \<Longrightarrow> \<forall>a\<in>set actions. \<not> restart a \<Longrightarrow>
     \<forall>(t, r)\<in>set (verdicts env cfg actions w). \<forall>c. r \<noteq> Inr c \<Longrightarrow>
     spaced (ws @ wrong_times (verdicts env cfg actions w))"
proof (induction actions arbitrary: ws now w)
  case Nil
  then show ?case by (simp add: rate_inv_def wrong_times_def)
next
  case (Cons a actions)
  have "rate_inv old (ws @ wrong_times (verdict_of env cfg a w)) (action_time a) (helper_step env cfg a w)"
    using Cons.prems by (intro rate_inv_step [OF Cons.prems(1)]) auto
  from Cons.IH [OF this] Cons.prems(2-4) show ?case by (simp add: wrong_times_append)
qed

text \<open>
  C16: guessing is slowed down. From any state, in a run without a restart and without an approval, of any
  six successive verifications that fail with a wrong code the last comes at least 30 seconds after the
  first, whatever the interleaving of requests. So at most five codes per half minute can be tried.
\<close>

theorem guesses_limited:
  assumes "sorted (map action_time actions)" and "\<forall>a\<in>set actions. \<not> restart a"
    and "\<forall>(t, r)\<in>set (verdicts env cfg actions w). \<forall>c. r \<noteq> Inr c"
    and "i + 5 < length (wrong_times (verdicts env cfg actions w))"
  shows "wrong_times (verdicts env cfg actions w) ! i + 30000 \<le> wrong_times (verdicts env cfg actions w) ! (i + 5)"
proof -
  let ?now = "case actions of [] \<Rightarrow> 0 | a # _ \<Rightarrow> action_time a"
  have "rate_inv (hw_failures w) [] ?now w" by (simp add: rate_inv_def spaced_def)
  moreover have "sorted (?now # map action_time actions)" using assms(1) by (cases actions) auto
  ultimately have "spaced (wrong_times (verdicts env cfg actions w))"
    using rate_inv_run assms(2,3) by fastforce
  then show ?thesis using assms(4) by (simp add: spaced_def TOTP_FAILURE_WINDOW_MS_def)
qed

section \<open>Reporting an execution\<close>

fun chunk_bytes :: "output_chunk \<Rightarrow> 8 word list" where
  "chunk_bytes (Stdout bs) = bs"
| "chunk_bytes (Stderr bs) = bs"

fun on_stdout :: "output_chunk \<Rightarrow> bool" where
  "on_stdout (Stdout bs) \<longleftrightarrow> True"
| "on_stdout (Stderr bs) \<longleftrightarrow> False"

definition stdout_of :: "output_chunk list \<Rightarrow> 8 word list" where
  "stdout_of chunks = concat (map chunk_bytes (filter on_stdout chunks))"

definition stderr_of :: "output_chunk list \<Rightarrow> 8 word list" where
  "stderr_of chunks = concat (map chunk_bytes (filter (\<lambda>c. \<not> on_stdout c) chunks))"

lemma stream_simps [simp]:
  "stdout_of [] = []" "stderr_of [] = []"
  "stdout_of (Stdout bs # cs) = bs @ stdout_of cs" "stdout_of (Stderr bs # cs) = stdout_of cs"
  "stderr_of (Stdout bs # cs) = stderr_of cs" "stderr_of (Stderr bs # cs) = bs @ stderr_of cs"
  by (simp_all add: stdout_of_def stderr_of_def)

text \<open>Abstractly: a buffer keeps the first 512 KiB of its stream.\<close>

lemma append_output_stream:
  "chunk \<noteq> [] \<Longrightarrow> append_output (take MAX_PRIVILEGED_OUTPUT_BYTES bs) chunk =
     (take MAX_PRIVILEGED_OUTPUT_BYTES (bs @ chunk), MAX_PRIVILEGED_OUTPUT_BYTES < length (bs @ chunk))"
  unfolding append_output_def Let_def by (cases chunk; cases "MAX_PRIVILEGED_OUTPUT_BYTES \<le> length bs") (auto simp: not_le)

lemma on_data_stream:
  "\<forall>c\<in>set chunks. chunk_bytes c \<noteq> [] \<Longrightarrow>
     fold on_data chunks (take MAX_PRIVILEGED_OUTPUT_BYTES a, take MAX_PRIVILEGED_OUTPUT_BYTES b,
       MAX_PRIVILEGED_OUTPUT_BYTES < length a \<or> MAX_PRIVILEGED_OUTPUT_BYTES < length b) =
     (take MAX_PRIVILEGED_OUTPUT_BYTES (a @ stdout_of chunks), take MAX_PRIVILEGED_OUTPUT_BYTES (b @ stderr_of chunks),
       MAX_PRIVILEGED_OUTPUT_BYTES < length (a @ stdout_of chunks) \<or> MAX_PRIVILEGED_OUTPUT_BYTES < length (b @ stderr_of chunks))"
proof (induction chunks arbitrary: a b)
  case (Cons c chunks)
  show ?case
  proof (cases c)
    case (Stdout bs)
    have "(MAX_PRIVILEGED_OUTPUT_BYTES < length a \<or> MAX_PRIVILEGED_OUTPUT_BYTES < length b) \<or> MAX_PRIVILEGED_OUTPUT_BYTES < length (a @ bs)
        \<longleftrightarrow> MAX_PRIVILEGED_OUTPUT_BYTES < length (a @ bs) \<or> MAX_PRIVILEGED_OUTPUT_BYTES < length b" by auto
    then show ?thesis
      using Cons.IH [of "a @ bs" b] Cons.prems Stdout append_output_stream [of bs a] by simp
  next
    case (Stderr bs)
    have "(MAX_PRIVILEGED_OUTPUT_BYTES < length a \<or> MAX_PRIVILEGED_OUTPUT_BYTES < length b) \<or> MAX_PRIVILEGED_OUTPUT_BYTES < length (b @ bs)
        \<longleftrightarrow> MAX_PRIVILEGED_OUTPUT_BYTES < length a \<or> MAX_PRIVILEGED_OUTPUT_BYTES < length (b @ bs)" by auto
    then show ?thesis
      using Cons.IH [of a "b @ bs"] Cons.prems Stderr append_output_stream [of bs b] by simp
  qed
qed simp

lemma request_id_valid:
  assumes "zod_parse fmt privilegedExecutionRequestSchema body = Some e"
  shows "\<exists>s. jprop e ''requestId'' = JStr s \<and> 1 \<le> length s \<and> length s \<le> 256"
proof -
  let ?shape = "privilegedExecutionInput @
     [(''version'', ZLiteral (JNum PRIVILEGE_HELPER_PROTOCOL_VERSION)), (''totp'', ZString [Str_regex totpCode]),
      (''requestId'', helperOpaqueId), (''sessionId'', helperOpaqueId), (''cwd'', absolutePath),
      (''requestedAt'', ZNumber [Num_int, Num_nonnegative]), (''expiresAt'', ZNumber [Num_int, Num_positive])]"
  have "zod_parse fmt (ZStrict ?shape) body = Some e"
    using assms unfolding privilegedExecutionRequestSchema_def by (simp only: zod_parse.simps split: option.splits if_splits) simp
  then have "zod_parse fmt helperOpaqueId (jprop body ''requestId'') = Some (jprop e ''requestId'')"
    by (rule strict_parse_prop) (simp_all add: privilegedExecutionInput_def)
  then show ?thesis unfolding helperOpaqueId_def
    by (auto split: json.splits if_splits bind_splits) metis
qed

lemma result_schema_accepts:
  fixes truncated :: bool
  assumes "1 \<le> length requestId" and "length requestId \<le> 256" and "status \<in> {''succeeded'', ''failed'', ''timed_out''}"
    and "pred_option isSafeInteger exitCode" and "pred_option (\<lambda>s. length s \<le> 128) signal"
    and "length out \<le> MAX_PRIVILEGED_OUTPUT_BYTES" and "length err \<le> MAX_PRIVILEGED_OUTPUT_BYTES"
    and "isSafeInteger startedAt" and "0 \<le> startedAt" and "isSafeInteger completedAt" and "0 \<le> completedAt"
  defines "result \<equiv> JObj [(''requestId'', JStr requestId), (''status'', JStr status), (''exitCode'', nullable JNum exitCode),
     (''signal'', nullable JStr signal), (''stdout'', JStr out), (''stderr'', JStr err), (''truncated'', JBool truncated),
     (''startedAt'', JNum startedAt), (''completedAt'', JNum completedAt)]"
  shows "zod_parse fmt privilegedExecutionResultSchema result = Some result"
  using assms(1-11)
  by (cases exitCode; cases signal)
    (auto simp: result_def privilegedExecutionResultSchema_def helperOpaqueId_def nullable_def known_keys_def jprop_def strict_member_def)

text \<open>
  C17: an execution that ended is reported. For an accepted request, a child that ran to its end with
  non-empty output chunks, a decoder that yields at most one code unit per byte, and an exit code, signal
  and times within the protocol's ranges, the answer is the result, never an error: it carries the
  request's identifier, the first 512 KiB, decoded, of what each stream delivered before the \<open>exit\<close> event,
  and the flag \<open>truncated\<close> exactly when what a stream delivered before that event was longer. It does not
  depend on what the pipes deliver after that event: such output is missing, and \<open>truncated\<close> does not
  tell.
\<close>

theorem execution_reported:
  assumes "zod_parse (he_format env) privilegedExecutionRequestSchema body = Some e"
    and "he_child env x (args_of e) d (int_field e ''timeoutMs'') = Some run"
    and "\<forall>c\<in>set (cr_beforeExit run). chunk_bytes c \<noteq> []"
    and "\<forall>bs. length (he_utf8 env bs) \<le> length bs"
    and "pred_option isSafeInteger (cr_exitCode run)" and "pred_option (\<lambda>s. length s \<le> 128) (cr_signal run)"
    and "isSafeInteger startedAt" and "0 \<le> startedAt" and "isSafeInteger completedAt" and "0 \<le> completedAt"
  shows "run_execution env e x d startedAt completedAt = Helper_result (JObj
     [(''requestId'', JStr (text_field e ''requestId'')),
      (''status'', JStr (if cr_timedOut run then ''timed_out''
         else if cr_exitCode run = Some 0 then ''succeeded'' else ''failed'')),
      (''exitCode'', nullable JNum (cr_exitCode run)),
      (''signal'', nullable JStr (cr_signal run)),
      (''stdout'', JStr (he_utf8 env (take (512 * 1024) (stdout_of (cr_beforeExit run))))),
      (''stderr'', JStr (he_utf8 env (take (512 * 1024) (stderr_of (cr_beforeExit run))))),
      (''truncated'', JBool (512 * 1024 < length (stdout_of (cr_beforeExit run)) \<or> 512 * 1024 < length (stderr_of (cr_beforeExit run)))),
      (''startedAt'', JNum startedAt),
      (''completedAt'', JNum completedAt)])"
proof -
  obtain rid where rid: "jprop e ''requestId'' = JStr rid" "1 \<le> length rid" "length rid \<le> 256"
    using request_id_valid [OF assms(1)] by blast
  let ?max = "MAX_PRIVILEGED_OUTPUT_BYTES"
  let ?out = "stdout_of (cr_beforeExit run)" and ?err = "stderr_of (cr_beforeExit run)"
  have fold: "fold on_data (cr_beforeExit run) ([], [], False) = (take ?max ?out, take ?max ?err, ?max < length ?out \<or> ?max < length ?err)"
    using on_data_stream [OF assms(3), of "[]" "[]"] by simp
  have short: "length (he_utf8 env (take ?max bs)) \<le> ?max" for bs
    using assms(4) [rule_format, of "take ?max bs"] by simp
  define outcome where "outcome = \<lparr>so_exitCode = cr_exitCode run, so_signal = cr_signal run,
    so_stdout = he_utf8 env (take ?max ?out), so_stderr = he_utf8 env (take ?max ?err),
    so_truncated = ?max < length ?out \<or> ?max < length ?err, so_timedOut = cr_timedOut run\<rparr>"
  have "spawnPrivileged env x (args_of e) d (int_field e ''timeoutMs'') = Inr outcome"
    using fold assms(2) by (simp add: spawnPrivileged_def outcome_def)
  moreover have "zod_parse (he_format env) privilegedExecutionResultSchema (execution_result e outcome startedAt completedAt)
      = Some (execution_result e outcome startedAt completedAt)"
    unfolding execution_result_def rid(1) outcome_def spawn_outcome.simps
    by (rule result_schema_accepts [OF rid(2,3) _ assms(5,6) short short assms(7-10)]) simp
  ultimately show ?thesis
    by (simp add: run_execution_def execution_result_def rid(1) text_field_def outcome_def MAX_PRIVILEGED_OUTPUT_BYTES_def)
qed

end
