(* ===== verification/Privilege_Examples.thy ===== *)
theory Privilege_Examples
  imports Privilege_Limits
begin

text \<open>
  The privilege helper on concrete inputs: a run with a restart in which two requests are executed, six
  wrong codes in half a minute, and the report of an execution. They instantiate the properties of
  \<open>Privilege_Safety\<close> and \<open>Privilege_Limits\<close>; the operating system and the HMAC are sample functions.
\<close>

definition helper_sample_env :: helper_env where
  "helper_sample_env = \<lparr>he_format = (\<lambda>_ _. True), he_sha256 = (\<lambda>s. if s = ''token'' then replicate 64 (CHR ''a'') else s),
     he_hmac = (\<lambda>k m. let b = last m in [b, b, b, b, b, b, b, b, b, b, b, b, b, b, b, b, b, b, b, b]), he_realpath = Some,
     he_stat = (\<lambda>p. Some \<lparr>md_isFile = p \<noteq> ''/'', md_isDirectory = p = ''/'', md_uid = 0, md_groupOrWorldWritable = False\<rparr>),
     he_executable = (\<lambda>_. True), he_utf8 = map (\<lambda>b. char_of (unat b)),
     he_child = (\<lambda>_ _ _ _. Some \<lparr>cr_beforeExit = [Stdout [104, 105]], cr_afterExit = [Stdout [33]], cr_exitCode = Some 0, cr_signal = None, cr_timedOut = False\<rparr>)\<rparr>"

definition helper_sample_config :: helper_config where
  "helper_sample_config = \<lparr>hc_tokenSha256 = replicate 64 (CHR ''A''), hc_secret = replicate 32 (CHR ''A''), hc_periodSeconds = 30,
     hc_allowedClockSkewSteps = 1, hc_allowArbitraryRootExecutables = False, hc_allowedExecutables = [''/bin/id'']\<rparr>"

definition sample_body :: "string \<Rightarrow> string \<Rightarrow> int \<Rightarrow> json" where
  "sample_body requestId code now = JObj
     [(''executable'', JStr ''/bin/id''), (''args'', JArr []), (''reason'', JStr ''check''), (''timeoutMs'', JNum 1000),
      (''version'', JNum 2), (''totp'', JStr code), (''requestId'', JStr requestId), (''sessionId'', JStr ''s''),
      (''cwd'', JStr ''/''), (''requestedAt'', JNum now), (''expiresAt'', JNum (now + 20000))]"

definition helper_sample_request :: "string \<Rightarrow> string \<Rightarrow> int \<Rightarrow> http_request" where
  "helper_sample_request requestId code now = \<lparr>hr_method = ''POST'', hr_url = ''/v1/execute'',
     hr_authorization = Some ''Bearer token'', hr_size = 300, hr_json = Some (sample_body requestId code now)\<rparr>"

definition sample_actions :: "helper_action list" where
  "sample_actions =
     [Receive 60000 (helper_sample_request ''r1'' ''686018'' 60000), Claim 60001 0 File_written, Verify 60002 0 File_written,
      Spawn 60003 0, Exit 60010 0, Restart 70000,
      Receive 120000 (helper_sample_request ''r2'' ''372036'' 120000), Claim 120001 0 File_written, Verify 120002 0 File_written,
      Spawn 120003 0]"

lemma sample_secret: "decodeBase32 (replicate 32 (CHR ''A'')) = Inr (replicate 20 0)"
  by code_simp

lemma sample_counters:
  "counter_bytes 1 = [0, 0, 0, 0, 0, 0, 0, 1]" "counter_bytes 2 = [0, 0, 0, 0, 0, 0, 0, 2]"
  "counter_bytes 3 = [0, 0, 0, 0, 0, 0, 0, 3]" "counter_bytes 4 = [0, 0, 0, 0, 0, 0, 0, 4]"
  "counter_bytes 5 = [0, 0, 0, 0, 0, 0, 0, 5]"
  by (simp_all add: counter_bytes_def upt_conv_Cons)

lemma sample_digits: "digit_char 0 = CHR ''0''" "digit_char 1 = CHR ''1''" "digit_char 2 = CHR ''2''" "digit_char 3 = CHR ''3''"
  "digit_char 4 = CHR ''4''" "digit_char 5 = CHR ''5''" "digit_char 6 = CHR ''6''" "digit_char 7 = CHR ''7''"
  "digit_char 8 = CHR ''8''" "digit_char 9 = CHR ''9''"
  by code_simp+

lemma sample_numbers: "show_nat 843009 = ''843009''" "show_nat 686018 = ''686018''" "show_nat 529027 = ''529027''"
  "show_nat 372036 = ''372036''" "show_nat 215045 = ''215045''"
  by (simp_all add: show_nat.simps sample_digits sample_digits(2) [simplified])

lemma sample_truncated:
  "truncate_digest [1,1,1,1,1,1,1,1,1,1,1,1,1,1,1,1,1,1,1,1] = 16843009"
  "truncate_digest [2,2,2,2,2,2,2,2,2,2,2,2,2,2,2,2,2,2,2,2] = 33686018"
  "truncate_digest [3,3,3,3,3,3,3,3,3,3,3,3,3,3,3,3,3,3,3,3] = 50529027"
  "truncate_digest [4,4,4,4,4,4,4,4,4,4,4,4,4,4,4,4,4,4,4,4] = 67372036"
  "truncate_digest [5,5,5,5,5,5,5,5,5,5,5,5,5,5,5,5,5,5,5,5] = 84215045"
  by (simp_all add: truncate_digest_def digest_at_def)

lemma sample_code:
  assumes "0 \<le> c" and "c < 1000" and "truncate_digest (he_hmac helper_sample_env (replicate 20 0) (counter_bytes (nat c))) = k"
    and "show_nat (unat k mod 1000000) = code" and "length code = 6"
  shows "generateTotpForSecret (he_hmac helper_sample_env) (hc_secret helper_sample_config) c 6 = Inr code"
proof -
  have "decodeBase32 (hc_secret helper_sample_config) = Inr (replicate 20 0)"
    using sample_secret by (simp only: helper_sample_config_def helper_config.simps)
  with assms show ?thesis
    by (simp del: replicate.simps add: generateTotpForSecret_def generateTotpForCounter_def isSafeInteger_def max_safe_integer_def padStart_def)
qed

lemma sample_hmac: "he_hmac helper_sample_env k m = (let b = last m in [b, b, b, b, b, b, b, b, b, b, b, b, b, b, b, b, b, b, b, b])"
  by (simp add: helper_sample_env_def)

lemma sample_codes:
  "generateTotpForSecret (he_hmac helper_sample_env) (hc_secret helper_sample_config) 1 6 = Inr ''843009''"
  "generateTotpForSecret (he_hmac helper_sample_env) (hc_secret helper_sample_config) 2 6 = Inr ''686018''"
  "generateTotpForSecret (he_hmac helper_sample_env) (hc_secret helper_sample_config) 3 6 = Inr ''529027''"
  "generateTotpForSecret (he_hmac helper_sample_env) (hc_secret helper_sample_config) 4 6 = Inr ''372036''"
  "generateTotpForSecret (he_hmac helper_sample_env) (hc_secret helper_sample_config) 5 6 = Inr ''215045''"
  by (rule sample_code [OF _ _ refl],
      simp_all add: sample_hmac sample_counters sample_counters(1) [simplified] sample_truncated sample_truncated(1) [simplified] sample_numbers)+

lemma sample_parse:
  "zod_parse (\<lambda>_ _. True) privilegedExecutionRequestSchema (sample_body ''r1'' ''686018'' 60000) = Some (sample_body ''r1'' ''686018'' 60000)"
  "zod_parse (\<lambda>_ _. True) privilegedExecutionRequestSchema (sample_body ''r2'' ''372036'' 120000) = Some (sample_body ''r2'' ''372036'' 120000)"
  by code_simp+

lemma sample_fields:
  "text_field (sample_body r c n) ''executable'' = ''/bin/id''" "text_field (sample_body r c n) ''cwd'' = ''/''"
  "text_field (sample_body r c n) ''totp'' = c" "text_field (sample_body r c n) ''requestId'' = r"
  "int_field (sample_body r c n) ''requestedAt'' = n" "int_field (sample_body r c n) ''expiresAt'' = n + 20000"
  by (simp_all add: sample_body_def text_field_def int_field_def jprop_def)

lemma sample_key: "request_key helper_sample_env (sample_body ''r1'' c n) = ''r1''" "request_key helper_sample_env (sample_body ''r2'' c n) = ''r2''"
  by (simp_all add: request_key_def sample_fields helper_sample_env_def)

lemma sample_checks:
  "helper_authorize helper_sample_env (hc_tokenSha256 helper_sample_config) (helper_sample_request r c n) = Inr ()"
  "readJsonBody (helper_sample_request r c n) = Inr (sample_body r c n)"
  "validateExecutable helper_sample_env helper_sample_config ''/bin/id'' = Inr ''/bin/id''"
  "validate_cwd helper_sample_env ''/'' = Inr ''/''"
proof -
  have "he_sha256 helper_sample_env ''token'' = map hex_lower (hc_tokenSha256 helper_sample_config)" by code_simp
  then show "helper_authorize helper_sample_env (hc_tokenSha256 helper_sample_config) (helper_sample_request r c n) = Inr ()"
    by (simp add: helper_authorize_def helper_sample_request_def bearer_token_def)
qed (simp_all add: readJsonBody_def helper_sample_request_def MAX_BODY_BYTES_def validateExecutable_def validate_cwd_def helper_sample_env_def helper_sample_config_def)

lemma sample_received:
  "handle_request helper_sample_env helper_sample_config 60000 (helper_sample_request ''r1'' ''686018'' 60000) = Received (sample_body ''r1'' ''686018'' 60000) ''/bin/id'' ''/''"
  "handle_request helper_sample_env helper_sample_config 120000 (helper_sample_request ''r2'' ''372036'' 120000) = Received (sample_body ''r2'' ''372036'' 120000) ''/bin/id'' ''/''"
proof -
  have m: "hr_method (helper_sample_request r c n) = ''POST''" "hr_url (helper_sample_request r c n) = ''/v1/execute''"
    "he_format helper_sample_env = (\<lambda>_ _. True)" for r c n by (simp_all add: helper_sample_request_def helper_sample_env_def)
  show "handle_request helper_sample_env helper_sample_config 60000 (helper_sample_request ''r1'' ''686018'' 60000) = Received (sample_body ''r1'' ''686018'' 60000) ''/bin/id'' ''/''"
    "handle_request helper_sample_env helper_sample_config 120000 (helper_sample_request ''r2'' ''372036'' 120000) = Received (sample_body ''r2'' ''372036'' 120000) ''/bin/id'' ''/''"
    by (simp_all add: handle_request_def handle_execute_def m sample_checks sample_parse sample_fields MAX_REQUEST_CLOCK_SKEW_MS_def)
qed

lemma sample_verify:
  assumes "hw_failures w = []"
  shows "\<not> js_has (hw_steps w) 2 \<Longrightarrow> verifySerial helper_sample_env helper_sample_config ''686018'' 60002 File_written w
      = (Inr 2, w\<lparr>hw_steps := js_set 2 60002 (hw_steps w)\<rparr>)"
    and "\<not> js_has (hw_steps w) 4 \<Longrightarrow> verifySerial helper_sample_env helper_sample_config ''372036'' 120002 File_written w
      = (Inr 4, w\<lparr>hw_steps := js_set 4 120002 (hw_steps w)\<rparr>)"
proof -
  have p: "hc_periodSeconds helper_sample_config = 30" "hc_allowedClockSkewSteps helper_sample_config = 1"
    "clock_offsets (Suc 0) = [0, -1, 1]"
    by (simp_all add: helper_sample_config_def clock_offsets_def)
  show "\<not> js_has (hw_steps w) 2 \<Longrightarrow> verifySerial helper_sample_env helper_sample_config ''686018'' 60002 File_written w
      = (Inr 2, w\<lparr>hw_steps := js_set 2 60002 (hw_steps w)\<rparr>)"
    and "\<not> js_has (hw_steps w) 4 \<Longrightarrow> verifySerial helper_sample_env helper_sample_config ''372036'' 120002 File_written w
      = (Inr 4, w\<lparr>hw_steps := js_set 4 120002 (hw_steps w)\<rparr>)"
    using assms by (simp_all add: verifySerial_def Let_def totpCounter_def isSafeInteger_def max_safe_integer_def p sample_codes
        MAX_TOTP_FAILURES_PER_WINDOW_def claimTotpStep_def create_claim_def)
qed

lemma sample_spawned: "hw_spawned (helper_run helper_sample_env helper_sample_config sample_actions helper_fresh)
    = [(sample_body ''r1'' ''686018'' 60000, ''/bin/id'', 2), (sample_body ''r2'' ''372036'' 120000, ''/bin/id'', 4)]"
  unfolding sample_actions_def helper_run_def
  by (simp add: helper_fresh_def sample_received task_at_def set_task_def claimRequest_def create_claim_def sample_key sample_fields
      sample_verify pruneReplayClaims_def js_has_def)

lemma helper_sample_config_ok: "helper_config_ok helper_sample_config"
  by code_simp

theorem privileged_execution_once_witness:
  "hw_spawned (helper_run helper_sample_env helper_sample_config sample_actions helper_fresh)
    = [(sample_body ''r1'' ''686018'' 60000, ''/bin/id'', 2), (sample_body ''r2'' ''372036'' 120000, ''/bin/id'', 4)]
    \<and> (2 :: int) \<noteq> 4"
proof (rule conjI [OF sample_spawned])
  have "sorted (map action_time sample_actions)" by (simp add: sample_actions_def)
  from privileged_execution_once [OF helper_sample_config_ok this sample_spawned [symmetric], of 0 1]
  show "(2 :: int) \<noteq> 4" by fastforce
qed

theorem privileged_execution_authorized_witness:
  "he_realpath helper_sample_env (text_field (sample_body ''r1'' ''686018'' 60000) ''executable'') = Some ''/bin/id''"
  using privileged_execution_authorized [of "sample_body ''r1'' ''686018'' 60000" "''/bin/id''" 2 helper_sample_env helper_sample_config sample_actions]
  by (simp add: sample_spawned)

text \<open>Six wrong codes of six requests, the sixth half a minute after the first.\<close>

definition wrong_world :: helper_world where
  "wrong_world = helper_fresh\<lparr>hw_tasks := replicate 6 (Claimed (sample_body ''r1'' ''000000'' 60000) ''/bin/id'' ''/'')\<rparr>"

definition wrong_actions :: "helper_action list" where
  "wrong_actions = [Verify 60000 0 File_written, Verify 60001 1 File_written, Verify 60002 2 File_written,
     Verify 60003 3 File_written, Verify 60004 4 File_written, Verify 90000 5 File_written]"

lemma wrong_verify:
  assumes "length (recent now (hw_failures w)) < 5" and "now \<in> {60000, 60001, 60002, 60003, 60004, 90000}"
  shows "verifySerial helper_sample_env helper_sample_config ''000000'' now outcome w
    = (Inl invalid_totp, w\<lparr>hw_failures := recent now (hw_failures w) @ [now]\<rparr>)"
proof -
  have p: "hc_periodSeconds helper_sample_config = 30" "hc_allowedClockSkewSteps helper_sample_config = 1"
    "clock_offsets (Suc 0) = [0, -1, 1]"
    by (simp_all add: helper_sample_config_def clock_offsets_def)
  have "totpCounter now 30 = Inr 2 \<or> totpCounter now 30 = Inr 3"
    using assms(2) by (auto simp: totpCounter_def isSafeInteger_def max_safe_integer_def)
  with assms(1) show ?thesis
    by (auto simp: verifySerial_def Let_def p sample_codes MAX_TOTP_FAILURES_PER_WINDOW_def recent_def [symmetric] invalid_totp_def)
qed

lemma wrong_verdicts: "verdicts helper_sample_env helper_sample_config wrong_actions wrong_world
    = map (\<lambda>t. (t, Inl invalid_totp)) [60000, 60001, 60002, 60003, 60004, 90000]"
  unfolding wrong_actions_def wrong_world_def helper_fresh_def
  by (simp add: task_at_def set_task_def sample_fields wrong_verify recent_def TOTP_FAILURE_WINDOW_MS_def)

theorem guesses_limited_witness:
  "wrong_times (verdicts helper_sample_env helper_sample_config wrong_actions wrong_world) ! 0 + 30000
    \<le> wrong_times (verdicts helper_sample_env helper_sample_config wrong_actions wrong_world) ! (0 + 5)"
  by (rule guesses_limited) (simp_all add: wrong_verdicts wrong_times_def, simp_all add: wrong_actions_def)

text \<open>The child's last byte arrives after its \<open>exit\<close> event and is not reported.\<close>

theorem execution_reported_witness:
  "\<exists>result. run_execution helper_sample_env (sample_body ''r1'' ''686018'' 60000) ''/bin/id'' ''/'' 60003 60010 = Helper_result result
     \<and> jprop result ''stdout'' = JStr (map (\<lambda>b. char_of (unat b)) [104, 105 :: 8 word])
     \<and> jprop result ''truncated'' = JBool False"
proof -
  note parse = sample_parse(1)
  have "zod_parse (he_format helper_sample_env) privilegedExecutionRequestSchema (sample_body ''r1'' ''686018'' 60000) = Some (sample_body ''r1'' ''686018'' 60000)"
    using parse by (simp add: helper_sample_env_def)
  from execution_reported [OF this, of "''/bin/id''" "''/''" "\<lparr>cr_beforeExit = [Stdout [104, 105]], cr_afterExit = [Stdout [33]], cr_exitCode = Some 0, cr_signal = None, cr_timedOut = False\<rparr>" 60003 60010]
  show ?thesis
    by (simp add: helper_sample_env_def isSafeInteger_def max_safe_integer_def jprop_def)
qed

end
