(* ===== verification/Reminder_Scheduler.thy ===== *)
theory Reminder_Scheduler
  imports Prelude
begin

text \<open>
  Model of \<open>src/core/scheduler.ts\<close>: the timers behind reminders. The host's \<open>setTimeout\<close> is modelled as
  it is documented: a timer does not run before its delay has passed, and a delay below 1 or above
  2147483647 milliseconds is replaced by 1. Each timer is a handle with the time it is due and the task
  it runs. The callback may change the topic of the task and may throw; the saved tasks are what
  \<open>onTasksChanged\<close> last received, from which a restarted process loads.
\<close>

section \<open>State\<close>

record scheduled_task =
  st_id :: string
  st_topicKey :: string
  st_triggerAt :: int
  st_message :: string
  st_context :: "string option"
  st_recurringMs :: "int option"

record schedule_input =
  si_id :: "string option"
  si_topicKey :: string
  si_triggerAt :: int
  si_message :: string
  si_context :: "string option"
  si_recurringMs :: "int option"

type_synonym timer = "nat \<times> int \<times> string"

record scheduler =
  sd_tasks :: "(string, scheduled_task \<times> nat) jsmap"
  sd_timers :: "timer list"
  sd_next :: nat
  sd_saved :: "scheduled_task list"
  sd_fired :: "(int \<times> scheduled_task) list" \<comment> \<open>the calls of \<open>onTrigger\<close>\<close>

definition scheduler_fresh :: scheduler where
  "scheduler_fresh = \<lparr>sd_tasks = [], sd_timers = [], sd_next = 0, sd_saved = [], sd_fired = []\<rparr>"

section \<open>The host's timers\<close>

definition MAX_TIMER_DELAY :: int where
  "MAX_TIMER_DELAY = 2147483647"

definition timer_delay :: "int \<Rightarrow> int" where
  "timer_delay d = (if d < 1 \<or> MAX_TIMER_DELAY < d then 1 else d)"

definition clearTimeout :: "nat \<Rightarrow> scheduler \<Rightarrow> scheduler" where
  "clearTimeout h w = w\<lparr>sd_timers := filter (\<lambda>(h', due, i). h' \<noteq> h) (sd_timers w)\<rparr>"

section \<open>Operations\<close>

definition saveTasks :: "scheduler \<Rightarrow> scheduled_task list" where
  "saveTasks w = map (\<lambda>(i, task, h). task) (sd_tasks w)"

definition notifyTasksChanged :: "scheduler \<Rightarrow> scheduler" where
  "notifyTasksChanged w = w\<lparr>sd_saved := saveTasks w\<rparr>"

text \<open>Setting the timer of a task, in \<open>schedule\<close> and in \<open>loadTasks\<close>.\<close>

definition arm :: "int \<Rightarrow> scheduled_task \<Rightarrow> scheduler \<Rightarrow> scheduler" where
  "arm now task w = (let delay = max 0 (st_triggerAt task - now) in
     w\<lparr>sd_timers := sd_timers w @ [(sd_next w, now + timer_delay delay, st_id task)],
       sd_tasks := js_set (st_id task) (task, sd_next w) (sd_tasks w),
       sd_next := Suc (sd_next w)\<rparr>)"

definition task_of_input :: "string \<Rightarrow> schedule_input \<Rightarrow> scheduled_task" where
  "task_of_input uuid input = \<lparr>st_id = (case si_id input of None \<Rightarrow> uuid | Some i \<Rightarrow> i),
     st_topicKey = si_topicKey input, st_triggerAt = si_triggerAt input, st_message = si_message input,
     st_context = si_context input, st_recurringMs = si_recurringMs input\<rparr>"

definition schedule :: "int \<Rightarrow> string \<Rightarrow> schedule_input \<Rightarrow> scheduler \<Rightarrow> scheduled_task \<times> scheduler" where
  "schedule now uuid input w = (let task = task_of_input uuid input in (task, notifyTasksChanged (arm now task w)))"

definition scheduler_cancel :: "string \<Rightarrow> scheduler \<Rightarrow> bool \<times> scheduler" where
  "scheduler_cancel taskId w = (case js_get (sd_tasks w) taskId of
      None \<Rightarrow> (False, w)
    | Some (task, h) \<Rightarrow>
        (True, notifyTasksChanged ((clearTimeout h w)\<lparr>sd_tasks := js_delete taskId (sd_tasks w)\<rparr>)))"

definition cancelWhere :: "(scheduled_task \<Rightarrow> bool) \<Rightarrow> scheduler \<Rightarrow> scheduled_task list \<times> scheduler" where
  "cancelWhere predicate w =
     (case fold (\<lambda>(taskId, task, h) (cancelled, w).
          if \<not> predicate task then (cancelled, w)
          else (cancelled @ [task], (clearTimeout h w)\<lparr>sd_tasks := js_delete taskId (sd_tasks w)\<rparr>))
        (sd_tasks w) ([], w) of
      (cancelled, w') \<Rightarrow> (cancelled, if cancelled = [] then w' else notifyTasksChanged w'))"

definition getTask :: "string \<Rightarrow> scheduler \<Rightarrow> scheduled_task option" where
  "getTask taskId w = map_option fst (js_get (sd_tasks w) taskId)"

definition stopAll :: "scheduler \<Rightarrow> scheduler" where
  "stopAll w = (fold (\<lambda>(taskId, task, h). clearTimeout h) (sd_tasks w) w)\<lparr>sd_tasks := []\<rparr>"

definition loadTasks :: "int \<Rightarrow> scheduled_task list \<Rightarrow> scheduler \<Rightarrow> scheduler" where
  "loadTasks now saved w = fold (arm now) saved w"

text \<open>
  \<open>triggerTask\<close>. The callback returns the topic it leaves in the task and whether it throws; the error is
  thrown again after the task has been scheduled again or dropped. A \<open>recurringMs\<close> of 0 counts as none.
\<close>

definition triggerTask ::
  "(scheduled_task \<Rightarrow> string \<times> bool) \<Rightarrow> int \<Rightarrow> string \<Rightarrow> scheduler \<Rightarrow> bool \<times> scheduler" where
  "triggerTask onTrigger now taskId w = (case js_get (sd_tasks w) taskId of
      None \<Rightarrow> (False, w)
    | Some (task, h) \<Rightarrow>
        (let w1 = w\<lparr>sd_tasks := js_delete taskId (sd_tasks w), sd_fired := sd_fired w @ [(now, task)]\<rparr>;
             (topic, throws) = onTrigger task
         in (throws, case st_recurringMs task of
               Some r \<Rightarrow>
                 if r = 0 then notifyTasksChanged w1
                 else snd (schedule now [] \<lparr>si_id = Some (st_id task), si_topicKey = topic, si_triggerAt = now + r,
                        si_message = st_message task, si_context = st_context task, si_recurringMs = Some r\<rparr> w1)
             | None \<Rightarrow> notifyTasksChanged w1)))"

section \<open>Runs\<close>

text \<open>What happens to a scheduler: calls, timers that run, and restarts of the process.\<close>

datatype scheduler_action =
    Schedule int string schedule_input
  | Cancel int string
  | Cancel_where int "scheduled_task \<Rightarrow> bool"
  | Stop_all int
  | Fire int nat
  | Reload int

fun scheduler_time :: "scheduler_action \<Rightarrow> int" where
  "scheduler_time (Schedule t _ _) = t"
| "scheduler_time (Cancel t _) = t"
| "scheduler_time (Cancel_where t _) = t"
| "scheduler_time (Stop_all t) = t"
| "scheduler_time (Fire t _) = t"
| "scheduler_time (Reload t) = t"

fun scheduler_step :: "(scheduled_task \<Rightarrow> string \<times> bool) \<Rightarrow> scheduler_action \<Rightarrow> scheduler \<Rightarrow> scheduler" where
  "scheduler_step cb (Schedule now uuid input) w = snd (schedule now uuid input w)"
| "scheduler_step cb (Cancel now taskId) w = snd (scheduler_cancel taskId w)"
| "scheduler_step cb (Cancel_where now p) w = snd (cancelWhere p w)"
| "scheduler_step cb (Stop_all now) w = stopAll w"
| "scheduler_step cb (Fire now h) w =
     (case find (\<lambda>(h', due, i). h' = h) (sd_timers w) of
        Some (h', due, i) \<Rightarrow> if due \<le> now then snd (triggerTask cb now i (clearTimeout h w)) else w
      | None \<Rightarrow> w)"
| "scheduler_step cb (Reload now) w = loadTasks now (sd_saved w) (w\<lparr>sd_tasks := [], sd_timers := []\<rparr>)"

definition scheduler_run :: "(scheduled_task \<Rightarrow> string \<times> bool) \<Rightarrow> scheduler_action list \<Rightarrow> scheduler \<Rightarrow> scheduler" where
  "scheduler_run cb actions w = fold (scheduler_step cb) actions w"

end
