(* ===== verification/Reminder_Safety.thy ===== *)
theory Reminder_Safety
  imports Reminder_Scheduler
begin

text \<open>
  Reminders are kept: in every run with fresh identifiers and delays the host can represent, each pending
  task has exactly one timer, due at its trigger time, and no task runs early. A delay beyond the host's
  limit runs at once.
\<close>

section \<open>The invariant\<close>

definition bounded_task :: "int \<Rightarrow> scheduled_task \<Rightarrow> bool" where
  "bounded_task now task \<longleftrightarrow> st_triggerAt task \<le> now + MAX_TIMER_DELAY
     \<and> (case st_recurringMs task of None \<Rightarrow> True | Some r \<Rightarrow> r \<le> MAX_TIMER_DELAY)"

definition timer_ok :: "int \<Rightarrow> (string, scheduled_task \<times> nat) jsmap \<Rightarrow> timer \<Rightarrow> bool" where
  "timer_ok now tasks tm \<longleftrightarrow> (case tm of (h, due, i) \<Rightarrow>
     \<exists>task. js_get tasks i = Some (task, h) \<and> st_triggerAt task \<le> due \<and> due \<le> max (st_triggerAt task) now + 1)"

definition reminder_ok :: "int \<Rightarrow> timer list \<Rightarrow> string \<Rightarrow> scheduled_task \<times> nat \<Rightarrow> bool" where
  "reminder_ok now timers i e \<longleftrightarrow> (case e of (task, h) \<Rightarrow>
     st_id task = i \<and> bounded_task now task \<and> (\<exists>due. (h, due, i) \<in> set timers))"

definition armed :: "int \<Rightarrow> scheduler \<Rightarrow> bool" where
  "armed now w \<longleftrightarrow> js_wf (sd_tasks w) \<and> distinct (map fst (sd_timers w)) \<and> (\<forall>tm\<in>set (sd_timers w). fst tm < sd_next w)
     \<and> (\<forall>tm\<in>set (sd_timers w). timer_ok now (sd_tasks w) tm)
     \<and> (\<forall>i e. js_get (sd_tasks w) i = Some e \<longrightarrow> reminder_ok now (sd_timers w) i e)"

definition punctual :: "scheduler \<Rightarrow> bool" where
  "punctual w \<longleftrightarrow> (\<forall>(t, task)\<in>set (sd_fired w). st_triggerAt task \<le> t)"

definition saved_ok :: "int \<Rightarrow> scheduled_task list \<Rightarrow> bool" where
  "saved_ok now saved \<longleftrightarrow> distinct (map st_id saved) \<and> (\<forall>task\<in>set saved. bounded_task now task)"

definition scheduler_inv :: "int \<Rightarrow> scheduler \<Rightarrow> bool" where
  "scheduler_inv now w \<longleftrightarrow> armed now w \<and> punctual w \<and> saved_ok now (sd_saved w)"

lemma bounded_later: "bounded_task now task \<Longrightarrow> now \<le> now' \<Longrightarrow> bounded_task now' task"
  unfolding bounded_task_def by auto

lemma timer_ok_later: "timer_ok now tasks tm \<Longrightarrow> now \<le> now' \<Longrightarrow> timer_ok now' tasks tm"
  unfolding timer_ok_def by (auto split: prod.splits)

lemma reminder_ok_later: "reminder_ok now timers i e \<Longrightarrow> now \<le> now' \<Longrightarrow> reminder_ok now' timers i e"
  unfolding reminder_ok_def by (auto intro: bounded_later)

lemma armed_later: "armed now w \<Longrightarrow> now \<le> now' \<Longrightarrow> armed now' w"
  unfolding armed_def by (blast intro: timer_ok_later reminder_ok_later)

lemma saved_ok_later: "saved_ok now saved \<Longrightarrow> now \<le> now' \<Longrightarrow> saved_ok now' saved"
  unfolding saved_ok_def by (blast intro: bounded_later)

lemma scheduler_inv_later: "scheduler_inv now w \<Longrightarrow> now \<le> now' \<Longrightarrow> scheduler_inv now' w"
  unfolding scheduler_inv_def by (blast intro: armed_later saved_ok_later)

lemma armed_arm:
  assumes a: "armed now w" and fresh: "\<not> js_has (sd_tasks w) (st_id task)" and b: "bounded_task now task"
  shows "armed now (arm now task w)"
proof -
  let ?i = "st_id task" and ?h = "sd_next w"
  define due where "due = now + timer_delay (max 0 (st_triggerAt task - now))"
  have due: "st_triggerAt task \<le> due" "due \<le> max (st_triggerAt task) now + 1"
    using b by (auto simp: due_def timer_delay_def bounded_task_def MAX_TIMER_DELAY_def)
  have tasks: "sd_tasks (arm now task w) = js_set ?i (task, ?h) (sd_tasks w)"
    and timers: "sd_timers (arm now task w) = sd_timers w @ [(?h, due, ?i)]" and nxt: "sd_next (arm now task w) = Suc ?h"
    by (simp_all add: arm_def due_def Let_def)
  have none: "js_get (sd_tasks w) ?i = None" using fresh unfolding js_has_get by blast
  have "timer_ok now (js_set ?i (task, ?h) (sd_tasks w)) tm" if "tm \<in> set (sd_timers w)" for tm
    using a that none unfolding armed_def timer_ok_def by (fastforce simp: js_get_set split: prod.splits)
  moreover have "timer_ok now (js_set ?i (task, ?h) (sd_tasks w)) (?h, due, ?i)"
    using due by (simp add: timer_ok_def js_get_set)
  moreover have "reminder_ok now (sd_timers w @ [(?h, due, ?i)]) i e" if "js_get (js_set ?i (task, ?h) (sd_tasks w)) i = Some e" for i e
    using that a b unfolding armed_def reminder_ok_def by (auto simp: js_get_set split: if_splits prod.splits; blast)
  ultimately show ?thesis
    using a unfolding armed_def tasks timers nxt by (auto simp: less_Suc_eq)
qed

lemma armed_drop:
  assumes a: "armed now w" and t: "js_get (sd_tasks w) i = Some (task, h)"
  shows "armed now ((clearTimeout h w)\<lparr>sd_tasks := js_delete i (sd_tasks w)\<rparr>)"
proof -
  let ?timers = "filter (\<lambda>(h', due, i). h' \<noteq> h) (sd_timers w)"
  from a t obtain due where mine: "(h, due, i) \<in> set (sd_timers w)" unfolding armed_def reminder_ok_def by fastforce
  have same: "h' \<noteq> h" if "(h', due', i') \<in> set (sd_timers w)" "i' \<noteq> i" for h' due' i'
    using that mine a unfolding armed_def by (metis eq_key_imp_eq_value prod.inject)
  have "timer_ok now (js_delete i (sd_tasks w)) tm" if "tm \<in> set ?timers" for tm
    using that a t unfolding armed_def timer_ok_def by (fastforce simp: js_get_delete)
  moreover have "reminder_ok now ?timers i' e" if "js_get (js_delete i (sd_tasks w)) i' = Some e" for i' e
  proof -
    from that have i': "i' \<noteq> i" and "js_get (sd_tasks w) i' = Some e" by (auto simp: js_get_delete split: if_splits)
    with a have "reminder_ok now (sd_timers w) i' e" unfolding armed_def by blast
    then show ?thesis using same i' unfolding reminder_ok_def by (auto split: prod.splits)
  qed
  moreover have "distinct (map fst ?timers)" using a unfolding armed_def by (simp add: distinct_map_filter)
  ultimately show ?thesis using a unfolding armed_def by (auto simp: clearTimeout_def)
qed

lemma saved_ok_save:
  assumes a: "armed now w" shows "saved_ok now (saveTasks w)"
proof -
  have "map st_id (saveTasks w) = js_keys (sd_tasks w)"
    using a unfolding armed_def reminder_ok_def saveTasks_def
    by (auto simp: js_mem_get split: prod.splits intro!: map_cong dest: js_mem_get)
  moreover have "bounded_task now task" if "task \<in> set (saveTasks w)" for task
    using that a unfolding armed_def reminder_ok_def saveTasks_def by (force dest: js_mem_get)
  ultimately show ?thesis using a unfolding saved_ok_def armed_def js_wf_def by simp
qed

lemma notify_inv: "armed now w \<Longrightarrow> punctual w \<Longrightarrow> scheduler_inv now (notifyTasksChanged w)"
  using saved_ok_save [of now w]
  by (simp add: scheduler_inv_def notifyTasksChanged_def armed_def punctual_def)

section \<open>Every operation keeps it\<close>

lemma arm_other [simp]: "sd_fired (arm now task w) = sd_fired w" "sd_saved (arm now task w) = sd_saved w"
  by (simp_all add: arm_def Let_def)

lemma clearTimeout_other [simp]: "sd_fired (clearTimeout h w) = sd_fired w" "sd_saved (clearTimeout h w) = sd_saved w"
  "sd_tasks (clearTimeout h w) = sd_tasks w" "sd_next (clearTimeout h w) = sd_next w"
  by (simp_all add: clearTimeout_def)

lemma punctual_cong: "sd_fired w' = sd_fired w \<Longrightarrow> punctual w \<Longrightarrow> punctual w'"
  by (simp add: punctual_def)

lemma schedule_inv:
  assumes "armed now w" and "punctual w" and "\<not> js_has (sd_tasks w) (st_id (task_of_input uuid input))"
    and "bounded_task now (task_of_input uuid input)"
  shows "scheduler_inv now (snd (schedule now uuid input w))"
  using notify_inv [OF armed_arm [OF assms(1,3,4)]] assms(2) punctual_cong [of "arm now (task_of_input uuid input) w" w]
  by (simp add: schedule_def Let_def)

lemma cancel_inv:
  assumes "scheduler_inv now w"
  shows "scheduler_inv now (snd (scheduler_cancel taskId w))"
proof (cases "js_get (sd_tasks w) taskId")
  case (Some e)
  obtain task h where e: "e = (task, h)" by (cases e)
  have "armed now w" and "punctual w" using assms by (simp_all add: scheduler_inv_def)
  from notify_inv [OF armed_drop [OF this(1)]] this(2) Some e show ?thesis
    by (simp add: scheduler_cancel_def punctual_def)
qed (use assms in \<open>simp add: scheduler_cancel_def\<close>)

definition cancel_entry ::
  "(scheduled_task \<Rightarrow> bool) \<Rightarrow> string \<times> scheduled_task \<times> nat \<Rightarrow> scheduled_task list \<times> scheduler \<Rightarrow> scheduled_task list \<times> scheduler" where
  "cancel_entry p = (\<lambda>(taskId, task, h) (cancelled, w).
          if \<not> p task then (cancelled, w)
          else (cancelled @ [task], (clearTimeout h w)\<lparr>sd_tasks := js_delete taskId (sd_tasks w)\<rparr>))"

lemma cancel_entries_inv:
  "distinct (map fst es) \<Longrightarrow> \<forall>(i, e)\<in>set es. js_get (sd_tasks w) i = Some e \<Longrightarrow> armed now w \<Longrightarrow>
     armed now (snd (fold (cancel_entry p) es (c, w))) \<and> sd_fired (snd (fold (cancel_entry p) es (c, w))) = sd_fired w
     \<and> sd_saved (snd (fold (cancel_entry p) es (c, w))) = sd_saved w"
proof (induction es arbitrary: c w)
  case (Cons e es)
  obtain i task h where e: "e = (i, task, h)" by (cases e) auto
  show ?case
  proof (cases "p task")
    case True
    let ?w = "(clearTimeout h w)\<lparr>sd_tasks := js_delete i (sd_tasks w)\<rparr>"
    have "armed now ?w" using Cons.prems e by (auto intro: armed_drop)
    moreover have "\<forall>(i, e)\<in>set es. js_get (sd_tasks ?w) i = Some e"
      using Cons.prems(1,2) e by (force simp: js_get_delete)
    ultimately show ?thesis
      using Cons.IH [of ?w "c @ [task]"] Cons.prems(1) e True by (simp add: cancel_entry_def)
  next
    case False
    then show ?thesis using Cons.IH [of w c] Cons.prems e by (simp add: cancel_entry_def)
  qed
qed simp

lemma cancelWhere_inv:
  assumes "scheduler_inv now w"
  shows "scheduler_inv now (snd (cancelWhere p w))"
proof -
  have "distinct (map fst (sd_tasks w))" and "\<forall>(i, e)\<in>set (sd_tasks w). js_get (sd_tasks w) i = Some e"
    using assms by (auto simp: scheduler_inv_def armed_def js_wf_def)
  note entries = cancel_entries_inv [OF this, of now p "[]"]
  obtain c w' where fold: "fold (cancel_entry p) (sd_tasks w) ([], w) = (c, w')" by fastforce
  with entries assms have w': "armed now w'" "punctual w'" "saved_ok now (sd_saved w')"
    by (simp_all add: scheduler_inv_def punctual_def)
  have "snd (cancelWhere p w) = (if c = [] then w' else notifyTasksChanged w')"
    using fold unfolding cancelWhere_def cancel_entry_def [symmetric] by simp
  then show ?thesis using w' notify_inv [OF w'(1,2)] by (simp add: scheduler_inv_def)
qed

lemma clear_all_timers:
  "sd_timers (fold (\<lambda>(i, task, h). clearTimeout h) es w) = filter (\<lambda>(h, due, i). h \<notin> (\<lambda>(i, task, h). h) ` set es) (sd_timers w)
   \<and> sd_fired (fold (\<lambda>(i, task, h). clearTimeout h) es w) = sd_fired w \<and> sd_saved (fold (\<lambda>(i, task, h). clearTimeout h) es w) = sd_saved w"
proof (induction es arbitrary: w)
  case (Cons e es)
  obtain i task h where "e = (i, task, h)" by (cases e) auto
  with Cons.IH [of "clearTimeout h w"] show ?case
    by (auto simp: clearTimeout_def intro!: filter_cong)
qed simp

lemma stopAll_inv:
  assumes "scheduler_inv now w"
  shows "scheduler_inv now (stopAll w)"
proof -
  have "h \<in> (\<lambda>(i, task, h). h) ` set (sd_tasks w)" if "(h, due, i) \<in> set (sd_timers w)" for h due i
    using that assms unfolding scheduler_inv_def armed_def timer_ok_def by (force dest: js_get_mem)
  then have "sd_timers (stopAll w) = []" "sd_tasks (stopAll w) = []"
    using clear_all_timers [of "sd_tasks w" w] by (auto simp: stopAll_def filter_empty_conv)
  then show ?thesis
    using assms clear_all_timers [of "sd_tasks w" w] by (simp add: scheduler_inv_def armed_def punctual_def stopAll_def)
qed

lemma triggerTask_inv:
  assumes inv: "scheduler_inv now w" and tm: "(h, due, i) \<in> set (sd_timers w)" and due: "due \<le> now"
  shows "scheduler_inv now (snd (triggerTask cb now i (clearTimeout h w)))"
proof -
  from inv tm obtain task where t: "js_get (sd_tasks w) i = Some (task, h)" and early: "st_triggerAt task \<le> due"
    unfolding scheduler_inv_def armed_def timer_ok_def by fastforce
  define w1 where "w1 = (clearTimeout h w)\<lparr>sd_tasks := js_delete i (sd_tasks w), sd_fired := sd_fired w @ [(now, task)]\<rparr>"
  have "armed now w1" using armed_drop [OF _ t, of now] inv by (simp add: w1_def scheduler_inv_def armed_def)
  moreover have "punctual w1" using inv early due by (auto simp: w1_def scheduler_inv_def punctual_def)
  moreover have "st_id task = i" and "bounded_task now task"
    using inv t unfolding scheduler_inv_def armed_def reminder_ok_def by fastforce+
  moreover have "\<not> js_has (sd_tasks w1) i" by (simp add: w1_def)
  moreover have "snd (triggerTask cb now i (clearTimeout h w)) = (case st_recurringMs task of
        Some r \<Rightarrow> if r = 0 then notifyTasksChanged w1
          else snd (schedule now [] \<lparr>si_id = Some (st_id task), si_topicKey = fst (cb task), si_triggerAt = now + r,
            si_message = st_message task, si_context = st_context task, si_recurringMs = Some r\<rparr> w1)
      | None \<Rightarrow> notifyTasksChanged w1)"
    using t by (simp add: triggerTask_def w1_def Let_def split: prod.splits option.splits)
  ultimately show ?thesis
    by (auto split: option.splits intro!: notify_inv schedule_inv simp: task_of_input_def bounded_task_def)
qed

lemma load_inv:
  "armed now w \<Longrightarrow> punctual w \<Longrightarrow> distinct (map st_id saved) \<Longrightarrow> \<forall>task\<in>set saved. bounded_task now task \<and> \<not> js_has (sd_tasks w) (st_id task) \<Longrightarrow>
     armed now (loadTasks now saved w) \<and> punctual (loadTasks now saved w) \<and> sd_saved (loadTasks now saved w) = sd_saved w"
proof (induction saved arbitrary: w)
  case (Cons task saved)
  have "armed now (arm now task w)" using Cons.prems by (intro armed_arm) auto
  moreover have "punctual (arm now task w)" using Cons.prems(2) by (simp add: punctual_def)
  moreover have "\<forall>t\<in>set saved. bounded_task now t \<and> \<not> js_has (sd_tasks (arm now task w)) (st_id t)"
    using Cons.prems(3,4) by (auto simp: arm_def Let_def image_iff)
  ultimately show ?case using Cons.IH [of "arm now task w"] Cons.prems(3) by (simp add: loadTasks_def)
qed (simp add: loadTasks_def)

lemma reload_inv:
  assumes "scheduler_inv now w"
  shows "scheduler_inv now (scheduler_step cb (Reload now) w)"
proof -
  let ?w = "w\<lparr>sd_tasks := [], sd_timers := []\<rparr>"
  have "armed now ?w" and "punctual ?w" using assms by (simp_all add: scheduler_inv_def armed_def punctual_def)
  from load_inv [OF this, of "sd_saved w"] assms show ?thesis
    by (simp add: scheduler_inv_def saved_ok_def js_has_def)
qed

text \<open>Calls with a fresh identifier and times within the host's limit.\<close>

fun fresh_call :: "scheduler_action \<Rightarrow> scheduler \<Rightarrow> bool" where
  "fresh_call (Schedule now uuid input) w \<longleftrightarrow> \<not> js_has (sd_tasks w) (st_id (task_of_input uuid input))
     \<and> bounded_task now (task_of_input uuid input)"
| "fresh_call _ w \<longleftrightarrow> True"

fun fresh_calls :: "(scheduled_task \<Rightarrow> string \<times> bool) \<Rightarrow> scheduler_action list \<Rightarrow> scheduler \<Rightarrow> bool" where
  "fresh_calls cb [] w \<longleftrightarrow> True"
| "fresh_calls cb (a # actions) w \<longleftrightarrow> fresh_call a w \<and> fresh_calls cb actions (scheduler_step cb a w)"

lemma scheduler_step_inv:
  assumes "scheduler_inv now w" and "now \<le> scheduler_time a" and "fresh_call a w"
  shows "scheduler_inv (scheduler_time a) (scheduler_step cb a w)"
proof -
  have inv: "scheduler_inv (scheduler_time a) w" by (rule scheduler_inv_later [OF assms(1,2)])
  then have "armed (scheduler_time a) w" and "punctual w" by (simp_all add: scheduler_inv_def)
  note parts = this
  show ?thesis
  proof (cases a)
    case (Schedule t uuid input)
    with assms(3) schedule_inv parts show ?thesis by simp
  next
    case (Fire t h)
    show ?thesis
    proof (cases "find (\<lambda>(h', due, i). h' = h) (sd_timers w)")
      case (Some tm)
      obtain h' due i where tm: "tm = (h', due, i)" by (cases tm) auto
      with Some have "h' = h" and "(h, due, i) \<in> set (sd_timers w)"
        by (auto simp: find_Some_iff in_set_conv_nth)
      then show ?thesis using Some tm Fire inv triggerTask_inv by auto
    qed (use Fire inv in auto)
  next
    case (Reload t)
    with reload_inv inv show ?thesis by (simp del: scheduler_step.simps)
  qed (use inv cancel_inv cancelWhere_inv stopAll_inv in auto)
qed

lemma singleton_list: "distinct xs \<Longrightarrow> set xs = {x} \<Longrightarrow> xs = [x]"
  by (cases xs; cases "tl xs") auto

lemma scheduler_run_inv:
  "scheduler_inv now w \<Longrightarrow> sorted (now # map scheduler_time actions) \<Longrightarrow> fresh_calls cb actions w \<Longrightarrow>
     \<forall>a\<in>set actions. scheduler_time a \<le> latest \<Longrightarrow> now \<le> latest \<Longrightarrow> scheduler_inv latest (scheduler_run cb actions w)"
proof (induction actions arbitrary: now w)
  case Nil
  then show ?case by (auto simp: scheduler_run_def intro: scheduler_inv_later)
next
  case (Cons a actions)
  have "scheduler_inv (scheduler_time a) (scheduler_step cb a w)"
    using Cons.prems by (intro scheduler_step_inv [OF Cons.prems(1)]) auto
  from Cons.IH [OF this] Cons.prems(2-5) show ?case by (simp add: scheduler_run_def)
qed

lemma scheduler_inv_fresh: "scheduler_inv now scheduler_fresh"
  by (simp add: scheduler_inv_def armed_def punctual_def saved_ok_def scheduler_fresh_def)

text \<open>
  C33: reminders are kept. In every run from a fresh scheduler whose calls use fresh identifiers and delays
  within the host's limit, with cancellations, recurring tasks, callbacks that throw and restarts, no task
  was triggered before its time, and every pending task has exactly one timer, due between its trigger
  time and one millisecond after that or after the last action.
\<close>

theorem reminders_kept:
  assumes "sorted (map scheduler_time actions)" and "fresh_calls cb actions scheduler_fresh"
    and "\<forall>a\<in>set actions. scheduler_time a \<le> now"
    and "w = scheduler_run cb actions scheduler_fresh"
  shows "(\<forall>(t, task)\<in>set (sd_fired w). st_triggerAt task \<le> t)
    \<and> (\<forall>i task h. js_get (sd_tasks w) i = Some (task, h) \<longrightarrow>
         (\<exists>due. filter (\<lambda>(h', due, i'). i' = i) (sd_timers w) = [(h, due, i)]
            \<and> st_triggerAt task \<le> due \<and> due \<le> max (st_triggerAt task) now + 1))"
proof -
  let ?first = "case actions of [] \<Rightarrow> now | a # _ \<Rightarrow> scheduler_time a"
  have "sorted (?first # map scheduler_time actions)" and "?first \<le> now" using assms(1,3) by (cases actions; auto)+
  from scheduler_run_inv [OF scheduler_inv_fresh this(1) assms(2,3) this(2)] assms(4)
  have inv: "scheduler_inv now w" by simp
  have "\<exists>due. filter (\<lambda>(h', due, i'). i' = i) (sd_timers w) = [(h, due, i)]
      \<and> st_triggerAt task \<le> due \<and> due \<le> max (st_triggerAt task) now + 1"
    if t: "js_get (sd_tasks w) i = Some (task, h)" for i task h
  proof -
    from inv t obtain due where mem: "(h, due, i) \<in> set (sd_timers w)"
      unfolding scheduler_inv_def armed_def reminder_ok_def by fastforce
    have ok: "timer_ok now (sd_tasks w) tm" if "tm \<in> set (sd_timers w)" for tm
      using inv that unfolding scheduler_inv_def armed_def by blast
    have only: "tm = (h, due, i)" if "tm \<in> set (sd_timers w)" "snd (snd tm) = i" for tm
    proof -
      note tm_facts = that
      obtain h' due' where tm: "tm = (h', due', i)" using tm_facts(2) by (metis prod.exhaust_sel)
      with ok [OF tm_facts(1)] t have "h' = h" unfolding timer_ok_def by auto
      with tm_facts(1) mem tm inv show ?thesis
        unfolding scheduler_inv_def armed_def by (blast dest: eq_key_imp_eq_value)
    qed
    have dist: "distinct (sd_timers w)"
      using inv unfolding scheduler_inv_def armed_def by (simp add: distinct_map)
    define mine where "mine = filter (\<lambda>(h', due, i'). i' = i) (sd_timers w)"
    have "distinct mine" using dist by (simp add: mine_def)
    moreover have member: "set mine = {tm \<in> set (sd_timers w). snd (snd tm) = i}"
      unfolding mine_def by auto
    have "set mine \<subseteq> {(h, due, i)}" using only unfolding member by blast
    moreover have "(h, due, i) \<in> set mine" using mem unfolding member by simp
    ultimately have "distinct mine" and "set mine = {(h, due, i)}" by blast+
    then have "mine = [(h, due, i)]" by (rule singleton_list)
    with ok [OF mem] t show ?thesis unfolding timer_ok_def mine_def by auto
  qed
  with inv show ?thesis unfolding scheduler_inv_def punctual_def by blast
qed

definition sample_input :: "int \<Rightarrow> int option \<Rightarrow> schedule_input" where
  "sample_input t r = \<lparr>si_id = None, si_topicKey = ''t'', si_triggerAt = t, si_message = ''m'', si_context = None, si_recurringMs = r\<rparr>"

definition sample_reminders :: "scheduler_action list" where
  "sample_reminders = [Schedule 0 ''a'' (sample_input 50 None), Schedule 1 ''b'' (sample_input 20 (Some 100)),
     Fire 25 1, Cancel 30 ''a'', Reload 40, Fire 125 3]"

theorem reminders_kept_witness:
  "\<exists>due. filter (\<lambda>(h', due, i'). i' = ''b'') (sd_timers (scheduler_run (\<lambda>task. (st_topicKey task, True)) sample_reminders scheduler_fresh))
       = [(4, due, ''b'')]"
proof -
  have handle: "map_option snd (js_get (sd_tasks (scheduler_run (\<lambda>task. (st_topicKey task, True)) sample_reminders scheduler_fresh)) ''b'') = Some 4"
    by code_simp
  have "fresh_calls (\<lambda>task. (st_topicKey task, True)) sample_reminders scheduler_fresh" by code_simp
  moreover have "sorted (map scheduler_time sample_reminders)" and "\<forall>a\<in>set sample_reminders. scheduler_time a \<le> 125"
    by (simp_all add: sample_reminders_def)
  ultimately show ?thesis
    using conjunct2 [OF reminders_kept [OF _ _ _ refl, of sample_reminders "\<lambda>task. (st_topicKey task, True)" 125]] handle
    unfolding map_option_eq_Some by (metis prod.collapse)
qed

section \<open>Beyond the host's limit\<close>

text \<open>
  C40: a far reminder runs at once. A task whose trigger time is more than 2147483647 milliseconds (about
  25 days) ahead is given a timer of one millisecond: it is triggered then, before its time.
\<close>

theorem far_reminder_runs_at_once:
  assumes "\<forall>tm\<in>set (sd_timers w). fst tm < sd_next w" and "MAX_TIMER_DELAY < si_triggerAt input - now"
  shows "sd_fired (scheduler_step cb (Fire (now + 1) (sd_next w)) (scheduler_step cb (Schedule now uuid input) w))
    = sd_fired w @ [(now + 1, task_of_input uuid input)]"
proof -
  have none: "find (\<lambda>(h', due, i). h' = sd_next w) (sd_timers w) = None"
    using assms(1) by (force simp: find_None_iff)
  have found: "find P (xs @ [x]) = Some x" if "find P xs = None" "P x" for P xs and x :: timer
    using that by (induction xs) (auto split: if_splits)
  have "max 0 (st_triggerAt (task_of_input uuid input) - now) = si_triggerAt input - now"
    using assms(2) by (simp add: task_of_input_def MAX_TIMER_DELAY_def)
  then show ?thesis
    using assms(2) found [OF none, of "(sd_next w, now + 1, st_id (task_of_input uuid input))"]
    by (simp add: schedule_def Let_def notifyTasksChanged_def arm_def timer_delay_def triggerTask_def clearTimeout_def js_get_set
        saveTasks_def split: option.splits prod.splits)
qed

theorem far_reminder_runs_at_once_witness:
  "sd_fired (scheduler_step (\<lambda>task. (st_topicKey task, False)) (Fire (0 + 1) (sd_next scheduler_fresh))
      (scheduler_step (\<lambda>task. (st_topicKey task, False)) (Schedule 0 ''a'' (sample_input 2592000000 None)) scheduler_fresh))
    = sd_fired scheduler_fresh @ [(0 + 1, task_of_input ''a'' (sample_input 2592000000 None))]"
  by (rule far_reminder_runs_at_once) (simp_all add: scheduler_fresh_def sample_input_def MAX_TIMER_DELAY_def)

end
