(* ===== verification/Spec2Isabelle.thy ===== *)
theory Spec2Isabelle
  imports Command_Authorizer File_Ledger Event_Inbox Outbox_Recovery Pairing_Registry Track_Blocking Store_Lock Directory_Lock Totp_Correct Privilege_Examples Reminder_Safety
begin

text \<open>
  Malink lets a person drive coding agents on their own computer from other devices. A gateway
  process on the computer joins Matrix rooms; a paired device sends signed MLP/3 commands into a room;
  the gateway authenticates and authorizes each command, executes it once, and publishes what happened.
  This development verifies the part of the gateway that everything else rests on: what a command is,
  who may issue it, that it runs at most once, and that the durable stores behind these decisions
  survive failures, crashes and restarts.

  \<^bold>\<open>How the parts interact.\<close> The transport stages each Matrix event in the event inbox. The authorizer
  takes a command from it, verifies the signature over its canonical JSON, looks the device up in the
  trusted device registry, claims the command in the command journal and checks the device's policy. A
  newly claimed command is executed and settled in the journal; what the gateway has to say is staged in
  the Matrix outbox, which delivers the newest version of each message. The registry and the inbox are
  transactions of the atomic JSON file; the journal and the outbox are logs of JSON lines. A supervisor
  hands the data directory with all these stores from one gateway release to the next: the execution
  tracks. Lock files keep two processes from writing a JSON store or entering a data directory at once.
  Commands that need root go to the privilege helper, which checks a token and a one-time code.

  \<^bold>\<open>Theories, in the order of dependency.\<close>

  \<^item> \<open>Prelude\<close>: results with errors as values, the JavaScript \<open>Map\<close> as an association list, safe integers.
  \<^item> \<open>Canonical_Json\<close> (\<open>packages/protocol/src/canonical-json.ts\<close>): JSON values and the deterministic
    serialization that is signed; it identifies a value up to the order of object members.
  \<^item> \<open>Zod\<close>, \<open>Mlp3_Schema\<close> (\<open>packages/protocol/src/mlp-v3.ts\<close>, \<open>schema.ts\<close> and the schemas they use): an
    interpreter for the schema combinators, and the command schema as a value of it; parsing is stable
    and yields only well-formed commands.
  \<^item> \<open>Encoding\<close> (\<open>packages/security/src/encoding.ts\<close>): base64url and its round trip.
  \<^item> \<open>Execution_Ledger\<close> (\<open>idempotency.ts\<close>, \<open>replay.ts\<close>): the in-memory ledger and the replay guard.
  \<^item> \<open>Signatures\<close> (\<open>signatures.ts\<close>): signing and verifying; what verification proves about the signer.
  \<^item> \<open>Log_File\<close>, \<open>Command_Journal\<close> (\<open>src/gateway/matrix/fileMlp3CommandJournal.ts\<close>): the journal as a log
    of lines with write faults; execution at most once, and restarts that reproduce the running state, as
    long as an append that fails leaves nothing in the file; what a failed synchronization does otherwise.
  \<^item> \<open>Command_Authorizer\<close> (\<open>src/gateway/matrix/mlp3Authorizer.ts\<close>): the decision, composed of the three
    above; what is authorized, and that no command executes twice in a life of requests and restarts.
  \<^item> \<open>Atomic_Json_File\<close> (\<open>packages/security/src/node/atomic-json-file.ts\<close>): a write as its list of
    file-system calls, a crash as a prefix of it; atomicity and recovery; the interface
    \<open>transactional_cell\<close> its clients use.
  \<^item> \<open>File_Ledger\<close> (\<open>packages/security/src/node/file-idempotency-store.ts\<close>): the ledger over the atomic
    JSON file; it refines the in-memory store, execution at most once across deaths, and the run of three
    deaths that erases it.
  \<^item> \<open>Event_Inbox\<close> (\<open>src/gateway/matrix/fileMatrixEventInbox.ts\<close>): a staged event stays until handled.
  \<^item> \<open>Matrix_Outbox\<close>, \<open>Outbox_Recovery\<close> (\<open>src/gateway/matrix/fileMatrixMlp3Outbox.ts\<close>): the outbox, its
    log, compaction and merge; recovery when failed writes leave nothing in the file, finality of
    deliveries, only the newest version pending.
  \<^item> \<open>Pairing_Registry\<close> (\<open>src/gateway/pairing/registry.ts\<close>): offers, requests, trusted devices,
    transports; unique keys, final decisions, increasing timestamps.
  \<^item> \<open>Execution_Tracks\<close>, \<open>Track_Safety\<close>, \<open>Track_Blocking\<close> (\<open>src/ops/gatewayExecutionTracks.ts\<close>): the
    handoff between releases with failures and deaths at every call; single execution and completion;
    what happens when an execution is not recorded.
  \<^item> \<open>Lock_Files\<close>, \<open>Store_Lock\<close>, \<open>Directory_Lock\<close> (\<open>atomic-json-file.ts\<close> again and
    \<open>src/gateway/matrix/gatewayDataDirectoryLock.ts\<close>): the two protocols on lock files, one action per
    call, any interleaving and deaths anywhere. A recovery reads the owner, judges it and moves the lock
    aside in three calls: mutual exclusion as long as it moves the record it read, recovery of an
    abandoned lock, a bound on the calls of an acquisition, and the races of a single recovery when
    the lock changed hands in between.
  \<^item> \<open>Totp\<close>, \<open>Totp_Correct\<close> (\<open>packages/security/src/totp.ts\<close>): Base32 and one-time codes with the 32-bit
    arithmetic of the source, equal to reference definitions on bit strings and numbers.
  \<^item> \<open>Privilege_Helper\<close>, \<open>Privilege_Safety\<close>, \<open>Privilege_Limits\<close>, \<open>Privilege_Examples\<close>
    (\<open>src/privilege/helperServer.ts\<close>, \<open>protocol.ts\<close>): the root helper that runs a command for the gateway
    after a one-time code; a code and a request are good for one execution although claim files are
    pruned after a day, only authorized requests run, guesses are limited, executions are reported
    with the output that arrived before the child's exit.
  \<^item> \<open>Reminder_Scheduler\<close>, \<open>Reminder_Safety\<close> (\<open>src/core/scheduler.ts\<close>): the timers behind reminders, with
    the host's limit on delays; no reminder is early and none is lost within that limit.

  \<^bold>\<open>Conventions.\<close> A class with fields is a record, an operation is a function from the state to a result
  and the new state, an exception is the left side of a sum type, and asynchronous calls that the source
  serializes are one step. Numbers of the source are integers, with the range checks of
  \<open>Number.isSafeInteger\<close> written out. Write faults and failing calls are taken from lists of outcomes that
  the theorems quantify over; an exhausted list means success. No definition needs fuel: all loops of
  the modelled code are structural or have a termination proof.

  \<^bold>\<open>Parameters.\<close> Code outside the repository is an argument: the primitives of WebCrypto and SHA-256
  (\<open>web_crypto\<close>, with the laws of signatures as hypotheses of the theorems that need them), format checks
  of Zod, \<open>URL\<close> parsing, the clock, HMAC, the file metadata and child processes the privilege helper
  asks for, and the schemas of documents that a store only keeps.

  \<^bold>\<open>Not modelled.\<close> The orchestration in \<open>mlp3Gateway.ts\<close>, the Matrix client, the SQLite journal, the
  pairing service, encrypted envelopes, the update supervisor's control of host processes, the session
  runtime and providers, the native bridge, the web client, the Telegram channel and the sockets of the
  privilege helper: network and process I/O, third-party protocols and user interface around the modelled core.
\<close>

end
